(* ===== verification/Prelude.thy ===== *)
theory Prelude
  imports Main "HOL-Library.Word"
begin

unbundle bit_operations_syntax

text \<open>
  Shared vocabulary of the development: the fixed-width integer types of
  \<^verbatim>\<open>inc/types.h\<close>, the way a run of the emulator can end abnormally (a failed
  \<^verbatim>\<open>assert\<close>, \<^verbatim>\<open>fatal\<close>, a fault raised by the host), the result type and its
  sequencing operator, and the generic facts on words and lists that the component
  theories use through the collections declared here.
\<close>

named_theorems alu_defs \<open>right-hand sides of the interpreter's arithmetic handlers\<close>
named_theorems fmt_defs \<open>the instruction-format readers of the decoder\<close>
named_theorems field_defs \<open>the bit-field macros of the decoder\<close>

subsection \<open>Machine integers\<close>

type_synonym u8 = "8 word"
type_synonym u16 = "16 word"
type_synonym u32 = "32 word"
type_synonym u64 = "64 word"
type_synonym i8 = "8 word"
type_synonym i16 = "16 word"
type_synonym i32 = "32 word"
type_synonym i64 = "64 word"

text \<open>
  Signed and unsigned C integers of one width share a representation; a signed reading is
  written out where the code makes one (\<^const>\<open>scast\<close>, \<^const>\<open>sint\<close>, \<open><s\<close>).
\<close>

subsection \<open>Abnormal ends and results\<close>

datatype error =
    AssertFail string   \<comment> \<open>\<^verbatim>\<open>assert\<close>, the text of its condition\<close>
  | Fatal string        \<comment> \<open>\<^verbatim>\<open>fatal\<close> and \<^verbatim>\<open>fatalf\<close>: message on stderr, exit status 1\<close>
  | Unreachable         \<comment> \<open>\<^verbatim>\<open>unreachable()\<close>, which is \<^verbatim>\<open>fatal("unreachable")\<close>\<close>
  | Segv u64            \<comment> \<open>the host faults on an access at this host address\<close>
  | Sigfpe              \<comment> \<open>the host faults on an integer division by zero\<close>
  | ExitProc u64        \<comment> \<open>\<^verbatim>\<open>exit(code)\<close>\<close>
  | Undefined string    \<comment> \<open>undefined behaviour of C: a write outside an object, an oversized shift\<close>

type_synonym 'a result = "error + 'a"

definition bindE :: "'a result \<Rightarrow> ('a \<Rightarrow> 'b result) \<Rightarrow> 'b result" where
  "bindE m f = (case m of Inl e \<Rightarrow> Inl e | Inr x \<Rightarrow> f x)"

definition assertE :: "string \<Rightarrow> bool \<Rightarrow> unit result" where
  "assertE txt b = (if b then Inr () else Inl (AssertFail txt))"

lemma bindE_Inl [simp]: "bindE (Inl e) f = Inl e"
  by (simp add: bindE_def)

lemma bindE_Inr [simp]: "bindE (Inr x) f = f x"
  by (simp add: bindE_def)

lemma bindE_eq_Inr: "bindE m f = Inr y \<longleftrightarrow> (\<exists>x. m = Inr x \<and> f x = Inr y)"
  by (simp add: bindE_def split: sum.splits)

lemma bindE_eq_Inl: "bindE m f = Inl e \<longleftrightarrow> m = Inl e \<or> (\<exists>x. m = Inr x \<and> f x = Inl e)"
  by (auto simp: bindE_def split: sum.splits)

lemma bindE_assoc [simp]: "bindE (bindE m f) g = bindE m (\<lambda>x. bindE (f x) g)"
  by (simp add: bindE_def split: sum.splits)

lemma assertE_True [simp]: "b \<Longrightarrow> assertE txt b = Inr ()"
  by (simp add: assertE_def)

lemma assertE_False [simp]: "\<not> b \<Longrightarrow> assertE txt b = Inl (AssertFail txt)"
  by (simp add: assertE_def)

lemma assertE_eq_Inr: "assertE txt b = Inr u \<longleftrightarrow> b"
  by (simp add: assertE_def)

subsection \<open>Ranges of fixed-width words\<close>

lemma unat_u8_lt: "unat (x::u8) < 256"
  using unsigned_less [of x, where ?'a = nat] by simp

lemma unat_u16_lt: "unat (x::u16) < 65536"
  using unsigned_less [of x, where ?'a = nat] by simp

lemma unat_u32_lt: "unat (x::u32) < 4294967296"
  using unsigned_less [of x, where ?'a = nat] by simp

lemma unat_u64_lt: "unat (x::u64) < 18446744073709551616"
  using unsigned_less [of x, where ?'a = nat] by simp

lemmas unat_lt = unat_u8_lt unat_u16_lt unat_u32_lt unat_u64_lt

end
