(* ===== verification/Riscvemu_H.thy ===== *)
theory Riscvemu_H
  imports Prelude
begin

text \<open>
  The data model of \<^verbatim>\<open>inc/riscvemu.h\<close>, \<^verbatim>\<open>inc/reg.h\<close> and \<^verbatim>\<open>inc/types.h\<close>: register numbers,
  the instruction enumeration, the decoded instruction \<^verbatim>\<open>insn_t\<close>, the guest CPU state
  \<^verbatim>\<open>state_t\<close>, the exit protocol, and the address-translation and rounding macros.
  C enumerators are integer constants and index the handler tables, so
  \<^verbatim>\<open>enum insn_type_t\<close> is the integer type with one named constant per enumerator.
\<close>

subsection \<open>Registers (\<^verbatim>\<open>inc/reg.h\<close>)\<close>

abbreviation (input) reg_zero :: i8 where "reg_zero \<equiv> 0"
abbreviation (input) reg_ra :: i8 where "reg_ra \<equiv> 1"
abbreviation (input) reg_sp :: i8 where "reg_sp \<equiv> 2"
abbreviation (input) reg_gp :: i8 where "reg_gp \<equiv> 3"
abbreviation (input) reg_tp :: i8 where "reg_tp \<equiv> 4"
abbreviation (input) reg_t0 :: i8 where "reg_t0 \<equiv> 5"
abbreviation (input) reg_t1 :: i8 where "reg_t1 \<equiv> 6"
abbreviation (input) reg_t2 :: i8 where "reg_t2 \<equiv> 7"
abbreviation (input) reg_s0 :: i8 where "reg_s0 \<equiv> 8"
abbreviation (input) reg_s1 :: i8 where "reg_s1 \<equiv> 9"
abbreviation (input) reg_a0 :: i8 where "reg_a0 \<equiv> 10"
abbreviation (input) reg_a1 :: i8 where "reg_a1 \<equiv> 11"
abbreviation (input) reg_a2 :: i8 where "reg_a2 \<equiv> 12"
abbreviation (input) reg_a3 :: i8 where "reg_a3 \<equiv> 13"
abbreviation (input) reg_a4 :: i8 where "reg_a4 \<equiv> 14"
abbreviation (input) reg_a5 :: i8 where "reg_a5 \<equiv> 15"
abbreviation (input) reg_a6 :: i8 where "reg_a6 \<equiv> 16"
abbreviation (input) reg_a7 :: i8 where "reg_a7 \<equiv> 17"

abbreviation (input) num_gp_regs :: nat where "num_gp_regs \<equiv> 32"
abbreviation (input) num_fp_regs :: nat where "num_fp_regs \<equiv> 32"

text \<open>
  \<^verbatim>\<open>fp_reg_t\<close> is a union of \<^verbatim>\<open>u64 v\<close>, \<^verbatim>\<open>u32 w\<close>, \<^verbatim>\<open>f64 d\<close> and \<^verbatim>\<open>f32 f\<close>. On the
  little-endian host \<^verbatim>\<open>w\<close> and \<^verbatim>\<open>f\<close> are the low four bytes of \<^verbatim>\<open>v\<close>: reading them truncates,
  writing them leaves the high four bytes as they were. Floating-point values are carried by
  their bit patterns.
\<close>

type_synonym fp_reg_t = u64
type_synonym f32 = u32
type_synonym f64 = u64

definition fp_w :: "fp_reg_t \<Rightarrow> u32" where
  "fp_w r = ucast r"

definition fp_set_w :: "fp_reg_t \<Rightarrow> u32 \<Rightarrow> fp_reg_t" where
  "fp_set_w r x = push_bit 32 (drop_bit 32 r) OR ucast x"

subsection \<open>Instruction types\<close>

type_synonym insn_type_t = nat

abbreviation (input) insn_lb :: insn_type_t where "insn_lb \<equiv> 0"
abbreviation (input) insn_lh :: insn_type_t where "insn_lh \<equiv> 1"
abbreviation (input) insn_lw :: insn_type_t where "insn_lw \<equiv> 2"
abbreviation (input) insn_ld :: insn_type_t where "insn_ld \<equiv> 3"
abbreviation (input) insn_lbu :: insn_type_t where "insn_lbu \<equiv> 4"
abbreviation (input) insn_lhu :: insn_type_t where "insn_lhu \<equiv> 5"
abbreviation (input) insn_lwu :: insn_type_t where "insn_lwu \<equiv> 6"
abbreviation (input) insn_fence :: insn_type_t where "insn_fence \<equiv> 7"
abbreviation (input) insn_fence_i :: insn_type_t where "insn_fence_i \<equiv> 8"
abbreviation (input) insn_addi :: insn_type_t where "insn_addi \<equiv> 9"
abbreviation (input) insn_slli :: insn_type_t where "insn_slli \<equiv> 10"
abbreviation (input) insn_slti :: insn_type_t where "insn_slti \<equiv> 11"
abbreviation (input) insn_sltiu :: insn_type_t where "insn_sltiu \<equiv> 12"
abbreviation (input) insn_xori :: insn_type_t where "insn_xori \<equiv> 13"
abbreviation (input) insn_srli :: insn_type_t where "insn_srli \<equiv> 14"
abbreviation (input) insn_srai :: insn_type_t where "insn_srai \<equiv> 15"
abbreviation (input) insn_ori :: insn_type_t where "insn_ori \<equiv> 16"
abbreviation (input) insn_andi :: insn_type_t where "insn_andi \<equiv> 17"
abbreviation (input) insn_auipc :: insn_type_t where "insn_auipc \<equiv> 18"
abbreviation (input) insn_addiw :: insn_type_t where "insn_addiw \<equiv> 19"
abbreviation (input) insn_slliw :: insn_type_t where "insn_slliw \<equiv> 20"
abbreviation (input) insn_srliw :: insn_type_t where "insn_srliw \<equiv> 21"
abbreviation (input) insn_sraiw :: insn_type_t where "insn_sraiw \<equiv> 22"
abbreviation (input) insn_sb :: insn_type_t where "insn_sb \<equiv> 23"
abbreviation (input) insn_sh :: insn_type_t where "insn_sh \<equiv> 24"
abbreviation (input) insn_sw :: insn_type_t where "insn_sw \<equiv> 25"
abbreviation (input) insn_sd :: insn_type_t where "insn_sd \<equiv> 26"
abbreviation (input) insn_add :: insn_type_t where "insn_add \<equiv> 27"
abbreviation (input) insn_sll :: insn_type_t where "insn_sll \<equiv> 28"
abbreviation (input) insn_slt :: insn_type_t where "insn_slt \<equiv> 29"
abbreviation (input) insn_sltu :: insn_type_t where "insn_sltu \<equiv> 30"
abbreviation (input) insn_xor :: insn_type_t where "insn_xor \<equiv> 31"
abbreviation (input) insn_srl :: insn_type_t where "insn_srl \<equiv> 32"
abbreviation (input) insn_or :: insn_type_t where "insn_or \<equiv> 33"
abbreviation (input) insn_and :: insn_type_t where "insn_and \<equiv> 34"
abbreviation (input) insn_mul :: insn_type_t where "insn_mul \<equiv> 35"
abbreviation (input) insn_mulh :: insn_type_t where "insn_mulh \<equiv> 36"
abbreviation (input) insn_mulhsu :: insn_type_t where "insn_mulhsu \<equiv> 37"
abbreviation (input) insn_mulhu :: insn_type_t where "insn_mulhu \<equiv> 38"
abbreviation (input) insn_div :: insn_type_t where "insn_div \<equiv> 39"
abbreviation (input) insn_divu :: insn_type_t where "insn_divu \<equiv> 40"
abbreviation (input) insn_rem :: insn_type_t where "insn_rem \<equiv> 41"
abbreviation (input) insn_remu :: insn_type_t where "insn_remu \<equiv> 42"
abbreviation (input) insn_sub :: insn_type_t where "insn_sub \<equiv> 43"
abbreviation (input) insn_sra :: insn_type_t where "insn_sra \<equiv> 44"
abbreviation (input) insn_lui :: insn_type_t where "insn_lui \<equiv> 45"
abbreviation (input) insn_addw :: insn_type_t where "insn_addw \<equiv> 46"
abbreviation (input) insn_sllw :: insn_type_t where "insn_sllw \<equiv> 47"
abbreviation (input) insn_srlw :: insn_type_t where "insn_srlw \<equiv> 48"
abbreviation (input) insn_mulw :: insn_type_t where "insn_mulw \<equiv> 49"
abbreviation (input) insn_divw :: insn_type_t where "insn_divw \<equiv> 50"
abbreviation (input) insn_divuw :: insn_type_t where "insn_divuw \<equiv> 51"
abbreviation (input) insn_remw :: insn_type_t where "insn_remw \<equiv> 52"
abbreviation (input) insn_remuw :: insn_type_t where "insn_remuw \<equiv> 53"
abbreviation (input) insn_subw :: insn_type_t where "insn_subw \<equiv> 54"
abbreviation (input) insn_sraw :: insn_type_t where "insn_sraw \<equiv> 55"
abbreviation (input) insn_beq :: insn_type_t where "insn_beq \<equiv> 56"
abbreviation (input) insn_bne :: insn_type_t where "insn_bne \<equiv> 57"
abbreviation (input) insn_blt :: insn_type_t where "insn_blt \<equiv> 58"
abbreviation (input) insn_bge :: insn_type_t where "insn_bge \<equiv> 59"
abbreviation (input) insn_bltu :: insn_type_t where "insn_bltu \<equiv> 60"
abbreviation (input) insn_bgeu :: insn_type_t where "insn_bgeu \<equiv> 61"
abbreviation (input) insn_jalr :: insn_type_t where "insn_jalr \<equiv> 62"
abbreviation (input) insn_jal :: insn_type_t where "insn_jal \<equiv> 63"
abbreviation (input) insn_ecall :: insn_type_t where "insn_ecall \<equiv> 64"
abbreviation (input) insn_csrrc :: insn_type_t where "insn_csrrc \<equiv> 65"
abbreviation (input) insn_csrrci :: insn_type_t where "insn_csrrci \<equiv> 66"
abbreviation (input) insn_csrrs :: insn_type_t where "insn_csrrs \<equiv> 67"
abbreviation (input) insn_csrrsi :: insn_type_t where "insn_csrrsi \<equiv> 68"
abbreviation (input) insn_csrrw :: insn_type_t where "insn_csrrw \<equiv> 69"
abbreviation (input) insn_csrrwi :: insn_type_t where "insn_csrrwi \<equiv> 70"
abbreviation (input) insn_flw :: insn_type_t where "insn_flw \<equiv> 71"
abbreviation (input) insn_fsw :: insn_type_t where "insn_fsw \<equiv> 72"
abbreviation (input) insn_fmadd_s :: insn_type_t where "insn_fmadd_s \<equiv> 73"
abbreviation (input) insn_fmsub_s :: insn_type_t where "insn_fmsub_s \<equiv> 74"
abbreviation (input) insn_fnmsub_s :: insn_type_t where "insn_fnmsub_s \<equiv> 75"
abbreviation (input) insn_fnmadd_s :: insn_type_t where "insn_fnmadd_s \<equiv> 76"
abbreviation (input) insn_fadd_s :: insn_type_t where "insn_fadd_s \<equiv> 77"
abbreviation (input) insn_fsub_s :: insn_type_t where "insn_fsub_s \<equiv> 78"
abbreviation (input) insn_fmul_s :: insn_type_t where "insn_fmul_s \<equiv> 79"
abbreviation (input) insn_fdiv_s :: insn_type_t where "insn_fdiv_s \<equiv> 80"
abbreviation (input) insn_fsqrt_s :: insn_type_t where "insn_fsqrt_s \<equiv> 81"
abbreviation (input) insn_fsgnj_s :: insn_type_t where "insn_fsgnj_s \<equiv> 82"
abbreviation (input) insn_fsgnjn_s :: insn_type_t where "insn_fsgnjn_s \<equiv> 83"
abbreviation (input) insn_fsgnjx_s :: insn_type_t where "insn_fsgnjx_s \<equiv> 84"
abbreviation (input) insn_fmin_s :: insn_type_t where "insn_fmin_s \<equiv> 85"
abbreviation (input) insn_fmax_s :: insn_type_t where "insn_fmax_s \<equiv> 86"
abbreviation (input) insn_fcvt_w_s :: insn_type_t where "insn_fcvt_w_s \<equiv> 87"
abbreviation (input) insn_fcvt_wu_s :: insn_type_t where "insn_fcvt_wu_s \<equiv> 88"
abbreviation (input) insn_fmv_x_w :: insn_type_t where "insn_fmv_x_w \<equiv> 89"
abbreviation (input) insn_feq_s :: insn_type_t where "insn_feq_s \<equiv> 90"
abbreviation (input) insn_flt_s :: insn_type_t where "insn_flt_s \<equiv> 91"
abbreviation (input) insn_fle_s :: insn_type_t where "insn_fle_s \<equiv> 92"
abbreviation (input) insn_fclass_s :: insn_type_t where "insn_fclass_s \<equiv> 93"
abbreviation (input) insn_fcvt_s_w :: insn_type_t where "insn_fcvt_s_w \<equiv> 94"
abbreviation (input) insn_fcvt_s_wu :: insn_type_t where "insn_fcvt_s_wu \<equiv> 95"
abbreviation (input) insn_fmv_w_x :: insn_type_t where "insn_fmv_w_x \<equiv> 96"
abbreviation (input) insn_fcvt_l_s :: insn_type_t where "insn_fcvt_l_s \<equiv> 97"
abbreviation (input) insn_fcvt_lu_s :: insn_type_t where "insn_fcvt_lu_s \<equiv> 98"
abbreviation (input) insn_fcvt_s_l :: insn_type_t where "insn_fcvt_s_l \<equiv> 99"
abbreviation (input) insn_fcvt_s_lu :: insn_type_t where "insn_fcvt_s_lu \<equiv> 100"
abbreviation (input) insn_fld :: insn_type_t where "insn_fld \<equiv> 101"
abbreviation (input) insn_fsd :: insn_type_t where "insn_fsd \<equiv> 102"
abbreviation (input) insn_fmadd_d :: insn_type_t where "insn_fmadd_d \<equiv> 103"
abbreviation (input) insn_fmsub_d :: insn_type_t where "insn_fmsub_d \<equiv> 104"
abbreviation (input) insn_fnmsub_d :: insn_type_t where "insn_fnmsub_d \<equiv> 105"
abbreviation (input) insn_fnmadd_d :: insn_type_t where "insn_fnmadd_d \<equiv> 106"
abbreviation (input) insn_fadd_d :: insn_type_t where "insn_fadd_d \<equiv> 107"
abbreviation (input) insn_fsub_d :: insn_type_t where "insn_fsub_d \<equiv> 108"
abbreviation (input) insn_fmul_d :: insn_type_t where "insn_fmul_d \<equiv> 109"
abbreviation (input) insn_fdiv_d :: insn_type_t where "insn_fdiv_d \<equiv> 110"
abbreviation (input) insn_fsqrt_d :: insn_type_t where "insn_fsqrt_d \<equiv> 111"
abbreviation (input) insn_fsgnj_d :: insn_type_t where "insn_fsgnj_d \<equiv> 112"
abbreviation (input) insn_fsgnjn_d :: insn_type_t where "insn_fsgnjn_d \<equiv> 113"
abbreviation (input) insn_fsgnjx_d :: insn_type_t where "insn_fsgnjx_d \<equiv> 114"
abbreviation (input) insn_fmin_d :: insn_type_t where "insn_fmin_d \<equiv> 115"
abbreviation (input) insn_fmax_d :: insn_type_t where "insn_fmax_d \<equiv> 116"
abbreviation (input) insn_fcvt_s_d :: insn_type_t where "insn_fcvt_s_d \<equiv> 117"
abbreviation (input) insn_fcvt_d_s :: insn_type_t where "insn_fcvt_d_s \<equiv> 118"
abbreviation (input) insn_feq_d :: insn_type_t where "insn_feq_d \<equiv> 119"
abbreviation (input) insn_flt_d :: insn_type_t where "insn_flt_d \<equiv> 120"
abbreviation (input) insn_fle_d :: insn_type_t where "insn_fle_d \<equiv> 121"
abbreviation (input) insn_fclass_d :: insn_type_t where "insn_fclass_d \<equiv> 122"
abbreviation (input) insn_fcvt_w_d :: insn_type_t where "insn_fcvt_w_d \<equiv> 123"
abbreviation (input) insn_fcvt_wu_d :: insn_type_t where "insn_fcvt_wu_d \<equiv> 124"
abbreviation (input) insn_fcvt_d_w :: insn_type_t where "insn_fcvt_d_w \<equiv> 125"
abbreviation (input) insn_fcvt_d_wu :: insn_type_t where "insn_fcvt_d_wu \<equiv> 126"
abbreviation (input) insn_fcvt_l_d :: insn_type_t where "insn_fcvt_l_d \<equiv> 127"
abbreviation (input) insn_fcvt_lu_d :: insn_type_t where "insn_fcvt_lu_d \<equiv> 128"
abbreviation (input) insn_fmv_x_d :: insn_type_t where "insn_fmv_x_d \<equiv> 129"
abbreviation (input) insn_fcvt_d_l :: insn_type_t where "insn_fcvt_d_l \<equiv> 130"
abbreviation (input) insn_fcvt_d_lu :: insn_type_t where "insn_fcvt_d_lu \<equiv> 131"
abbreviation (input) insn_fmv_d_x :: insn_type_t where "insn_fmv_d_x \<equiv> 132"
abbreviation (input) num_insns :: insn_type_t where "num_insns \<equiv> 133"

subsection \<open>Decoded instructions\<close>

record insn_t =
  insn_rd :: i8
  insn_rs1 :: i8
  insn_rs2 :: i8
  insn_rs3 :: i8
  insn_imm :: i32
  insn_csr :: i16
  insn_type :: insn_type_t
  insn_rvc :: bool
  insn_cont :: bool

definition zero_insn :: insn_t where
  "zero_insn = \<lparr>insn_rd = 0, insn_rs1 = 0, insn_rs2 = 0, insn_rs3 = 0, insn_imm = 0,
     insn_csr = 0, insn_type = 0, insn_rvc = False, insn_cont = False\<rparr>"

text \<open>
  Every register operand of a decoded instruction indexes the register files, and its type
  indexes the handler tables.
\<close>

definition wf_insn :: "insn_t \<Rightarrow> bool" where
  "wf_insn i \<longleftrightarrow> unat (insn_rd i) < num_gp_regs \<and> unat (insn_rs1 i) < num_gp_regs \<and>
     unat (insn_rs2 i) < num_gp_regs \<and> unat (insn_rs3 i) < num_gp_regs \<and>
     insn_type i < num_insns"

subsection \<open>CPU state\<close>

datatype exit_reason_t = none | direct_branch | indirect_branch | interp | ecall | halt

abbreviation (input) csr_fflags :: i16 where "csr_fflags \<equiv> 1"
abbreviation (input) csr_frm :: i16 where "csr_frm \<equiv> 2"
abbreviation (input) csr_fcsr :: i16 where "csr_fcsr \<equiv> 3"

record state_t =
  exit_reason :: exit_reason_t
  reenter_pc :: u64
  gp_regs :: "u64 list"
  fp_regs :: "fp_reg_t list"
  pc :: u64

definition wf_state :: "state_t \<Rightarrow> bool" where
  "wf_state s \<longleftrightarrow> length (gp_regs s) = num_gp_regs \<and> length (fp_regs s) = num_fp_regs"

text \<open>Array accesses \<^verbatim>\<open>state->gp_regs[r]\<close> and \<^verbatim>\<open>state->fp_regs[r]\<close>.\<close>

definition gp :: "state_t \<Rightarrow> i8 \<Rightarrow> u64" where
  "gp s r = gp_regs s ! unat r"

definition set_gp :: "i8 \<Rightarrow> u64 \<Rightarrow> state_t \<Rightarrow> state_t" where
  "set_gp r v s = s\<lparr>gp_regs := (gp_regs s)[unat r := v]\<rparr>"

definition fp :: "state_t \<Rightarrow> i8 \<Rightarrow> fp_reg_t" where
  "fp s r = fp_regs s ! unat r"

definition set_fp :: "i8 \<Rightarrow> fp_reg_t \<Rightarrow> state_t \<Rightarrow> state_t" where
  "set_fp r v s = s\<lparr>fp_regs := (fp_regs s)[unat r := v]\<rparr>"

subsection \<open>Address translation and rounding macros\<close>

definition GUEST_MEMORY_OFFSET :: u64 where
  "GUEST_MEMORY_OFFSET = 0x088800000000"

definition TO_HOST :: "u64 \<Rightarrow> u64" where
  "TO_HOST addr = addr + GUEST_MEMORY_OFFSET"

definition TO_GUEST :: "u64 \<Rightarrow> u64" where
  "TO_GUEST addr = addr - GUEST_MEMORY_OFFSET"

definition ROUNDDOWN :: "u64 \<Rightarrow> u64 \<Rightarrow> u64" where
  "ROUNDDOWN x k = x AND (- k)"

definition ROUNDUP :: "u64 \<Rightarrow> u64 \<Rightarrow> u64" where
  "ROUNDUP x k = (x + k - 1) AND (- k)"

subsection \<open>Facts about the register files\<close>

lemma wf_set_gp [simp]: "wf_state (set_gp r v s) = wf_state s"
  by (simp add: wf_state_def set_gp_def)

lemma wf_set_fp [simp]: "wf_state (set_fp r v s) = wf_state s"
  by (simp add: wf_state_def set_fp_def)

lemma wf_state_upds [simp]:
  "wf_state (s\<lparr>exit_reason := e\<rparr>) = wf_state s"
  "wf_state (s\<lparr>reenter_pc := p\<rparr>) = wf_state s"
  "wf_state (s\<lparr>pc := p\<rparr>) = wf_state s"
  by (simp_all add: wf_state_def)

lemma wf_state_gp_len [simp]: "wf_state s \<Longrightarrow> length (gp_regs s) = 32"
  by (simp add: wf_state_def)

lemma wf_state_fp_len [simp]: "wf_state s \<Longrightarrow> length (fp_regs s) = 32"
  by (simp add: wf_state_def)

lemma gp_set_gp:
  "wf_state s \<Longrightarrow> unat r < 32 \<Longrightarrow> gp (set_gp r v s) q = (if q = r then v else gp s q)"
  by (simp add: gp_def set_gp_def nth_list_update word_unat_eq_iff)

lemma fp_set_fp:
  "wf_state s \<Longrightarrow> unat r < 32 \<Longrightarrow> fp (set_fp r v s) q = (if q = r then v else fp s q)"
  by (simp add: fp_def set_fp_def nth_list_update word_unat_eq_iff)

lemma gp_upds [simp]:
  "gp (s\<lparr>exit_reason := e\<rparr>) r = gp s r"
  "gp (s\<lparr>reenter_pc := p\<rparr>) r = gp s r"
  "gp (s\<lparr>pc := p\<rparr>) r = gp s r"
  "gp (set_fp q v s) r = gp s r"
  by (simp_all add: gp_def set_fp_def)

lemma fp_upds [simp]:
  "fp (s\<lparr>exit_reason := e\<rparr>) r = fp s r"
  "fp (s\<lparr>reenter_pc := p\<rparr>) r = fp s r"
  "fp (s\<lparr>pc := p\<rparr>) r = fp s r"
  "fp (set_gp q v s) r = fp s r"
  by (simp_all add: fp_def set_gp_def)

lemma set_gp_fields [simp]:
  "pc (set_gp r v s) = pc s"
  "exit_reason (set_gp r v s) = exit_reason s"
  "reenter_pc (set_gp r v s) = reenter_pc s"
  "fp_regs (set_gp r v s) = fp_regs s"
  by (simp_all add: set_gp_def)

lemma set_fp_fields [simp]:
  "pc (set_fp r v s) = pc s"
  "exit_reason (set_fp r v s) = exit_reason s"
  "reenter_pc (set_fp r v s) = reenter_pc s"
  "gp_regs (set_fp r v s) = gp_regs s"
  by (simp_all add: set_fp_def)

lemma TO_GUEST_TO_HOST [simp]: "TO_GUEST (TO_HOST a) = a"
  by (simp add: TO_GUEST_def TO_HOST_def)

lemma TO_HOST_TO_GUEST [simp]: "TO_HOST (TO_GUEST a) = a"
  by (simp add: TO_GUEST_def TO_HOST_def)

lemma TO_HOST_inj [simp]: "TO_HOST a = TO_HOST b \<longleftrightarrow> a = b"
  by (simp add: TO_HOST_def)

lemma fp_w_set_w [simp]: "fp_w (fp_set_w r x) = x"
  unfolding fp_w_def fp_set_w_def
  by (rule bit_word_eqI) (auto simp: bit_simps)

end
