(* ===== verification/Decode.thy ===== *)
theory Decode
  imports Riscvemu_H
begin

text \<open>
  \<^verbatim>\<open>src/decode.c\<close>: the instruction-format readers and \<^verbatim>\<open>insn_decode\<close>, quadrant by quadrant
  and, in quadrant 3, opcode by opcode. A reader builds an \<^verbatim>\<open>insn_t\<close> compound literal, whose
  unnamed fields are zero. \<open>insn_decode\<close> takes the previous contents of \<^verbatim>\<open>*insn\<close>: the ECALL
  branch overwrites only two of its fields.
\<close>

subsection \<open>Bit fields\<close>

definition QUADRANT :: "u32 \<Rightarrow> u32" where [field_defs]: "QUADRANT data = data AND 0x3"
definition OPCODE :: "u32 \<Rightarrow> u32" where [field_defs]: "OPCODE data = drop_bit 2 data AND 0x1f"
definition RD :: "u32 \<Rightarrow> u32" where [field_defs]: "RD data = drop_bit 7 data AND 0x1f"
definition RS1 :: "u32 \<Rightarrow> u32" where [field_defs]: "RS1 data = drop_bit 15 data AND 0x1f"
definition RS2 :: "u32 \<Rightarrow> u32" where [field_defs]: "RS2 data = drop_bit 20 data AND 0x1f"
definition RS3 :: "u32 \<Rightarrow> u32" where [field_defs]: "RS3 data = drop_bit 27 data AND 0x1f"
definition FUNCT2 :: "u32 \<Rightarrow> u32" where [field_defs]: "FUNCT2 data = drop_bit 25 data AND 0x3"
definition FUNCT3 :: "u32 \<Rightarrow> u32" where [field_defs]: "FUNCT3 data = drop_bit 12 data AND 0x7"
definition FUNCT7 :: "u32 \<Rightarrow> u32" where [field_defs]: "FUNCT7 data = drop_bit 25 data AND 0x7f"
definition IMM116 :: "u32 \<Rightarrow> u32" where [field_defs]: "IMM116 data = drop_bit 26 data AND 0x3f"

definition COPCODE :: "u32 \<Rightarrow> u32" where [field_defs]: "COPCODE data = drop_bit 13 data AND 0x7"
definition CFUNCT1 :: "u32 \<Rightarrow> u32" where [field_defs]: "CFUNCT1 data = drop_bit 12 data AND 0x1"
definition CFUNCT2LOW :: "u32 \<Rightarrow> u32" where [field_defs]: "CFUNCT2LOW data = drop_bit 5 data AND 0x3"
definition CFUNCT2HIGH :: "u32 \<Rightarrow> u32" where [field_defs]: "CFUNCT2HIGH data = drop_bit 10 data AND 0x3"
definition RP1 :: "u32 \<Rightarrow> u32" where [field_defs]: "RP1 data = drop_bit 7 data AND 0x7"
definition RP2 :: "u32 \<Rightarrow> u32" where [field_defs]: "RP2 data = drop_bit 2 data AND 0x7"
definition RC1 :: "u32 \<Rightarrow> u32" where [field_defs]: "RC1 data = drop_bit 7 data AND 0x1f"
definition RC2 :: "u32 \<Rightarrow> u32" where [field_defs]: "RC2 data = drop_bit 2 data AND 0x1f"

text \<open>\<^verbatim>\<open>(imm << k) >> k\<close> on an \<^verbatim>\<open>i32\<close>.\<close>

definition sext :: "nat \<Rightarrow> i32 \<Rightarrow> i32" where
  "sext k imm = signed_drop_bit k (push_bit k imm)"

subsection \<open>Formats of 32-bit instructions\<close>

definition insn_utype_read :: "u32 \<Rightarrow> insn_t" where [fmt_defs]:
  "insn_utype_read data = zero_insn\<lparr>
     insn_imm := data AND 0xfffff000,
     insn_rd := ucast (RD data)\<rparr>"

definition insn_itype_read :: "u32 \<Rightarrow> insn_t" where [fmt_defs]:
  "insn_itype_read data = zero_insn\<lparr>
     insn_imm := signed_drop_bit 20 data,
     insn_rs1 := ucast (RS1 data),
     insn_rd := ucast (RD data)\<rparr>"

definition insn_jtype_read :: "u32 \<Rightarrow> insn_t" where [fmt_defs]:
  "insn_jtype_read data =
     (let imm20 = drop_bit 31 data AND 0x1;
          imm101 = drop_bit 21 data AND 0x3ff;
          imm11 = drop_bit 20 data AND 0x1;
          imm1912 = drop_bit 12 data AND 0xff;
          imm = push_bit 20 imm20 OR push_bit 12 imm1912 OR push_bit 11 imm11 OR push_bit 1 imm101
      in zero_insn\<lparr>insn_imm := sext 11 imm, insn_rd := ucast (RD data)\<rparr>)"

definition insn_btype_read :: "u32 \<Rightarrow> insn_t" where [fmt_defs]:
  "insn_btype_read data =
     (let imm12 = drop_bit 31 data AND 0x1;
          imm105 = drop_bit 25 data AND 0x3f;
          imm41 = drop_bit 8 data AND 0xf;
          imm11 = drop_bit 7 data AND 0x1;
          imm = push_bit 12 imm12 OR push_bit 11 imm11 OR push_bit 5 imm105 OR push_bit 1 imm41
      in zero_insn\<lparr>insn_imm := sext 19 imm, insn_rs1 := ucast (RS1 data),
           insn_rs2 := ucast (RS2 data)\<rparr>)"

definition insn_rtype_read :: "u32 \<Rightarrow> insn_t" where [fmt_defs]:
  "insn_rtype_read data = zero_insn\<lparr>
     insn_rs1 := ucast (RS1 data),
     insn_rs2 := ucast (RS2 data),
     insn_rd := ucast (RD data)\<rparr>"

definition insn_stype_read :: "u32 \<Rightarrow> insn_t" where [fmt_defs]:
  "insn_stype_read data =
     (let imm115 = drop_bit 25 data AND 0x7f;
          imm40 = drop_bit 7 data AND 0x1f;
          imm = push_bit 5 imm115 OR imm40
      in zero_insn\<lparr>insn_imm := sext 20 imm, insn_rs1 := ucast (RS1 data),
           insn_rs2 := ucast (RS2 data)\<rparr>)"

definition insn_csrtype_read :: "u32 \<Rightarrow> insn_t" where [fmt_defs]:
  "insn_csrtype_read data = zero_insn\<lparr>
     insn_csr := ucast (drop_bit 20 data),
     insn_rs1 := ucast (RS1 data),
     insn_rd := ucast (RD data)\<rparr>"

definition insn_fprtype_read :: "u32 \<Rightarrow> insn_t" where [fmt_defs]:
  "insn_fprtype_read data = zero_insn\<lparr>
     insn_rs1 := ucast (RS1 data),
     insn_rs2 := ucast (RS2 data),
     insn_rs3 := ucast (RS3 data),
     insn_rd := ucast (RD data)\<rparr>"

subsection \<open>Formats of compressed instructions\<close>

text \<open>The parameter is a \<^verbatim>\<open>u16\<close>, promoted to \<^verbatim>\<open>int\<close> before the shifts.\<close>

definition insn_catype_read :: "u16 \<Rightarrow> insn_t" where [fmt_defs]:
  "insn_catype_read data16 =
     (let data = ucast data16 in zero_insn\<lparr>
        insn_rd := ucast (RP1 data + 8),
        insn_rs2 := ucast (RP2 data + 8),
        insn_rvc := True\<rparr>)"

definition insn_crtype_read :: "u16 \<Rightarrow> insn_t" where [fmt_defs]:
  "insn_crtype_read data16 =
     (let data = ucast data16 in zero_insn\<lparr>
        insn_rs1 := ucast (RC1 data),
        insn_rs2 := ucast (RC2 data),
        insn_rvc := True\<rparr>)"

definition insn_citype_read :: "u16 \<Rightarrow> insn_t" where [fmt_defs]:
  "insn_citype_read data16 =
     (let data = ucast data16;
          imm40 = drop_bit 2 data AND 0x1f;
          imm5 = drop_bit 12 data AND 0x1;
          imm = push_bit 5 imm5 OR imm40
      in zero_insn\<lparr>insn_imm := sext 26 imm, insn_rd := ucast (RC1 data), insn_rvc := True\<rparr>)"

definition insn_citype_read2 :: "u16 \<Rightarrow> insn_t" where [fmt_defs]:
  "insn_citype_read2 data16 =
     (let data = ucast data16;
          imm86 = drop_bit 2 data AND 0x7;
          imm43 = drop_bit 5 data AND 0x3;
          imm5 = drop_bit 12 data AND 0x1;
          imm = push_bit 6 imm86 OR push_bit 3 imm43 OR push_bit 5 imm5
      in zero_insn\<lparr>insn_imm := imm, insn_rd := ucast (RC1 data), insn_rvc := True\<rparr>)"

definition insn_citype_read3 :: "u16 \<Rightarrow> insn_t" where [fmt_defs]:
  "insn_citype_read3 data16 =
     (let data = ucast data16;
          imm5 = drop_bit 2 data AND 0x1;
          imm87 = drop_bit 3 data AND 0x3;
          imm6 = drop_bit 5 data AND 0x1;
          imm4 = drop_bit 6 data AND 0x1;
          imm9 = drop_bit 12 data AND 0x1;
          imm = push_bit 5 imm5 OR push_bit 7 imm87 OR push_bit 6 imm6 OR push_bit 4 imm4
            OR push_bit 9 imm9
      in zero_insn\<lparr>insn_imm := sext 22 imm, insn_rd := ucast (RC1 data), insn_rvc := True\<rparr>)"

definition insn_citype_read4 :: "u16 \<Rightarrow> insn_t" where [fmt_defs]:
  "insn_citype_read4 data16 =
     (let data = ucast data16;
          imm5 = drop_bit 12 data AND 0x1;
          imm42 = drop_bit 4 data AND 0x7;
          imm76 = drop_bit 2 data AND 0x3;
          imm = push_bit 5 imm5 OR push_bit 2 imm42 OR push_bit 6 imm76
      in zero_insn\<lparr>insn_imm := imm, insn_rd := ucast (RC1 data), insn_rvc := True\<rparr>)"

definition insn_citype_read5 :: "u16 \<Rightarrow> insn_t" where [fmt_defs]:
  "insn_citype_read5 data16 =
     (let data = ucast data16;
          imm1612 = drop_bit 2 data AND 0x1f;
          imm17 = drop_bit 12 data AND 0x1;
          imm = push_bit 12 imm1612 OR push_bit 17 imm17
      in zero_insn\<lparr>insn_imm := sext 14 imm, insn_rd := ucast (RC1 data), insn_rvc := True\<rparr>)"

definition insn_cbtype_read :: "u16 \<Rightarrow> insn_t" where [fmt_defs]:
  "insn_cbtype_read data16 =
     (let data = ucast data16;
          imm5 = drop_bit 2 data AND 0x1;
          imm21 = drop_bit 3 data AND 0x3;
          imm76 = drop_bit 5 data AND 0x3;
          imm43 = drop_bit 10 data AND 0x3;
          imm8 = drop_bit 12 data AND 0x1;
          imm = push_bit 8 imm8 OR push_bit 6 imm76 OR push_bit 5 imm5 OR push_bit 3 imm43
            OR push_bit 1 imm21
      in zero_insn\<lparr>insn_imm := sext 23 imm, insn_rs1 := ucast (RP1 data + 8), insn_rvc := True\<rparr>)"

definition insn_cbtype_read2 :: "u16 \<Rightarrow> insn_t" where [fmt_defs]:
  "insn_cbtype_read2 data16 =
     (let data = ucast data16;
          imm40 = drop_bit 2 data AND 0x1f;
          imm5 = drop_bit 12 data AND 0x1;
          imm = push_bit 5 imm5 OR imm40
      in zero_insn\<lparr>insn_imm := sext 26 imm, insn_rd := ucast (RP1 data + 8), insn_rvc := True\<rparr>)"

definition insn_cstype_read :: "u16 \<Rightarrow> insn_t" where [fmt_defs]:
  "insn_cstype_read data16 =
     (let data = ucast data16;
          imm76 = drop_bit 5 data AND 0x3;
          imm53 = drop_bit 10 data AND 0x7;
          imm = push_bit 6 imm76 OR push_bit 3 imm53
      in zero_insn\<lparr>insn_imm := imm, insn_rs1 := ucast (RP1 data + 8),
           insn_rs2 := ucast (RP2 data + 8), insn_rvc := True\<rparr>)"

definition insn_cstype_read2 :: "u16 \<Rightarrow> insn_t" where [fmt_defs]:
  "insn_cstype_read2 data16 =
     (let data = ucast data16;
          imm6 = drop_bit 5 data AND 0x1;
          imm2 = drop_bit 6 data AND 0x1;
          imm53 = drop_bit 10 data AND 0x7;
          imm = push_bit 6 imm6 OR push_bit 2 imm2 OR push_bit 3 imm53
      in zero_insn\<lparr>insn_imm := imm, insn_rs1 := ucast (RP1 data + 8),
           insn_rs2 := ucast (RP2 data + 8), insn_rvc := True\<rparr>)"

definition insn_cjtype_read :: "u16 \<Rightarrow> insn_t" where [fmt_defs]:
  "insn_cjtype_read data16 =
     (let data = ucast data16;
          imm5 = drop_bit 2 data AND 0x1;
          imm31 = drop_bit 3 data AND 0x7;
          imm7 = drop_bit 6 data AND 0x1;
          imm6 = drop_bit 7 data AND 0x1;
          imm10 = drop_bit 8 data AND 0x1;
          imm98 = drop_bit 9 data AND 0x3;
          imm4 = drop_bit 11 data AND 0x1;
          imm11 = drop_bit 12 data AND 0x1;
          imm = push_bit 5 imm5 OR push_bit 1 imm31 OR push_bit 7 imm7 OR push_bit 6 imm6 OR
            push_bit 10 imm10 OR push_bit 8 imm98 OR push_bit 4 imm4 OR push_bit 11 imm11
      in zero_insn\<lparr>insn_imm := sext 20 imm, insn_rvc := True\<rparr>)"

definition insn_cltype_read :: "u16 \<Rightarrow> insn_t" where [fmt_defs]:
  "insn_cltype_read data16 =
     (let data = ucast data16;
          imm6 = drop_bit 5 data AND 0x1;
          imm2 = drop_bit 6 data AND 0x1;
          imm53 = drop_bit 10 data AND 0x7;
          imm = push_bit 6 imm6 OR push_bit 2 imm2 OR push_bit 3 imm53
      in zero_insn\<lparr>insn_imm := imm, insn_rs1 := ucast (RP1 data + 8),
           insn_rd := ucast (RP2 data + 8), insn_rvc := True\<rparr>)"

definition insn_cltype_read2 :: "u16 \<Rightarrow> insn_t" where [fmt_defs]:
  "insn_cltype_read2 data16 =
     (let data = ucast data16;
          imm76 = drop_bit 5 data AND 0x3;
          imm53 = drop_bit 10 data AND 0x7;
          imm = push_bit 6 imm76 OR push_bit 3 imm53
      in zero_insn\<lparr>insn_imm := imm, insn_rs1 := ucast (RP1 data + 8),
           insn_rd := ucast (RP2 data + 8), insn_rvc := True\<rparr>)"

definition insn_csstype_read :: "u16 \<Rightarrow> insn_t" where [fmt_defs]:
  "insn_csstype_read data16 =
     (let data = ucast data16;
          imm86 = drop_bit 7 data AND 0x7;
          imm53 = drop_bit 10 data AND 0x7;
          imm = push_bit 6 imm86 OR push_bit 3 imm53
      in zero_insn\<lparr>insn_imm := imm, insn_rs2 := ucast (RC2 data), insn_rvc := True\<rparr>)"

definition insn_csstype_read2 :: "u16 \<Rightarrow> insn_t" where [fmt_defs]:
  "insn_csstype_read2 data16 =
     (let data = ucast data16;
          imm76 = drop_bit 7 data AND 0x3;
          imm52 = drop_bit 9 data AND 0xf;
          imm = push_bit 6 imm76 OR push_bit 2 imm52
      in zero_insn\<lparr>insn_imm := imm, insn_rs2 := ucast (RC2 data), insn_rvc := True\<rparr>)"

definition insn_ciwtype_read :: "u16 \<Rightarrow> insn_t" where [fmt_defs]:
  "insn_ciwtype_read data16 =
     (let data = ucast data16;
          imm3 = drop_bit 5 data AND 0x1;
          imm2 = drop_bit 6 data AND 0x1;
          imm96 = drop_bit 7 data AND 0xf;
          imm54 = drop_bit 11 data AND 0x3;
          imm = push_bit 3 imm3 OR push_bit 2 imm2 OR push_bit 6 imm96 OR push_bit 4 imm54
      in zero_insn\<lparr>insn_imm := imm, insn_rd := ucast (RP2 data + 8), insn_rvc := True\<rparr>)"

subsection \<open>Type assignment\<close>

text \<open>\<^verbatim>\<open>insn->type = t; return;\<close>\<close>

definition as_type :: "insn_type_t \<Rightarrow> insn_t \<Rightarrow> insn_t result" where
  "as_type t i = Inr (i\<lparr>insn_type := t\<rparr>)"

text \<open>
  \<^verbatim>\<open>switch (v) { case k: insn->type = t; return; ... default: unreachable(); }\<close>, the list
  giving the pairs \<^verbatim>\<open>k\<close> and \<^verbatim>\<open>t\<close>.
\<close>

definition type_switch :: "insn_t \<Rightarrow> u32 \<Rightarrow> (u32 \<times> insn_type_t) list \<Rightarrow> insn_t result" where
  "type_switch i v tbl = (case map_of tbl v of Some t \<Rightarrow> as_type t i | None \<Rightarrow> Inl Unreachable)"

subsection \<open>Quadrant 0\<close>

definition decode_q0 :: "u32 \<Rightarrow> insn_t result" where
  "decode_q0 data =
     (let copcode = COPCODE data; data16 = ucast data in
      if copcode = 0x0 then \<comment> \<open>C.ADDI4SPN\<close>
        let i = (insn_ciwtype_read data16)\<lparr>insn_rs1 := reg_sp, insn_type := insn_addi\<rparr> in
        bindE (assertE ''insn->imm != 0'' (insn_imm i \<noteq> 0)) (\<lambda>_. Inr i)
      else if copcode = 0x1 then \<comment> \<open>C.FLD\<close> as_type insn_fld (insn_cltype_read2 data16)
      else if copcode = 0x2 then \<comment> \<open>C.LW\<close> as_type insn_lw (insn_cltype_read data16)
      else if copcode = 0x3 then \<comment> \<open>C.LD\<close> as_type insn_ld (insn_cltype_read2 data16)
      else if copcode = 0x5 then \<comment> \<open>C.FSD\<close> as_type insn_fsd (insn_cstype_read data16)
      else if copcode = 0x6 then \<comment> \<open>C.SW\<close> as_type insn_sw (insn_cstype_read2 data16)
      else if copcode = 0x7 then \<comment> \<open>C.SD\<close> as_type insn_sd (insn_cstype_read data16)
      else Inl (Fatal ''unimplemented''))"

subsection \<open>Quadrant 1\<close>

definition decode_q1_alu :: "u32 \<Rightarrow> insn_t result" where
  "decode_q1_alu data =
     (let cfunct2high = CFUNCT2HIGH data; data16 = ucast data in
      if cfunct2high = 0x0 \<or> cfunct2high = 0x1 \<or> cfunct2high = 0x2 then
        \<comment> \<open>C.SRLI, C.SRAI, C.ANDI\<close>
        let i = insn_cbtype_read2 data16; i = i\<lparr>insn_rs1 := insn_rd i\<rparr> in
        if cfunct2high = 0x0 then as_type insn_srli i
        else if cfunct2high = 0x1 then as_type insn_srai i
        else as_type insn_andi i
      else if cfunct2high = 0x3 then
        let cfunct1 = CFUNCT1 data; cfunct2low = CFUNCT2LOW data;
            i = insn_catype_read data16; i = i\<lparr>insn_rs1 := insn_rd i\<rparr> in
        if cfunct1 = 0x0 then
          \<comment> \<open>C.SUB, C.XOR, C.OR, C.AND\<close>
          type_switch i cfunct2low [(0x0, insn_sub), (0x1, insn_xor), (0x2, insn_or), (0x3, insn_and)]
        else if cfunct1 = 0x1 then
          \<comment> \<open>C.SUBW, C.ADDW\<close>
          type_switch i cfunct2low [(0x0, insn_subw), (0x1, insn_addw)]
        else Inl Unreachable
      else Inl Unreachable)"

definition decode_q1 :: "u32 \<Rightarrow> insn_t result" where
  "decode_q1 data =
     (let copcode = COPCODE data; data16 = ucast data in
      if copcode = 0x0 then \<comment> \<open>C.ADDI\<close>
        let i = insn_citype_read data16 in as_type insn_addi (i\<lparr>insn_rs1 := insn_rd i\<rparr>)
      else if copcode = 0x1 then \<comment> \<open>C.ADDIW\<close>
        let i = insn_citype_read data16 in
        bindE (assertE ''insn->rd != 0'' (insn_rd i \<noteq> 0)) (\<lambda>_.
          as_type insn_addiw (i\<lparr>insn_rs1 := insn_rd i\<rparr>))
      else if copcode = 0x2 then \<comment> \<open>C.LI\<close>
        as_type insn_addi ((insn_citype_read data16)\<lparr>insn_rs1 := reg_zero\<rparr>)
      else if copcode = 0x3 then
        if RC1 data = 2 then \<comment> \<open>C.ADDI16SP\<close>
          let i = insn_citype_read3 data16 in
          bindE (assertE ''insn->imm != 0'' (insn_imm i \<noteq> 0)) (\<lambda>_.
            as_type insn_addi (i\<lparr>insn_rs1 := insn_rd i\<rparr>))
        else \<comment> \<open>C.LUI\<close>
          let i = insn_citype_read5 data16 in
          bindE (assertE ''insn->imm != 0'' (insn_imm i \<noteq> 0)) (\<lambda>_. as_type insn_lui i)
      else if copcode = 0x4 then decode_q1_alu data
      else if copcode = 0x5 then \<comment> \<open>C.J\<close>
        Inr ((insn_cjtype_read data16)\<lparr>insn_rd := reg_zero, insn_type := insn_jal, insn_cont := True\<rparr>)
      else if copcode = 0x6 \<or> copcode = 0x7 then \<comment> \<open>C.BEQZ, C.BNEZ\<close>
        as_type (if copcode = 0x6 then insn_beq else insn_bne)
          ((insn_cbtype_read data16)\<lparr>insn_rs2 := reg_zero\<rparr>)
      else Inl (Fatal ''unrecognized copcode''))"

subsection \<open>Quadrant 2\<close>

definition decode_q2_jump :: "u32 \<Rightarrow> insn_t result" where
  "decode_q2_jump data =
     (let cfunct1 = CFUNCT1 data; i = insn_crtype_read (ucast data) in
      if cfunct1 = 0x0 then
        if insn_rs2 i = 0 then \<comment> \<open>C.JR\<close>
          bindE (assertE ''insn->rs1 != 0'' (insn_rs1 i \<noteq> 0)) (\<lambda>_.
            Inr (i\<lparr>insn_rd := reg_zero, insn_type := insn_jalr, insn_cont := True\<rparr>))
        else \<comment> \<open>C.MV\<close>
          Inr (i\<lparr>insn_rd := insn_rs1 i, insn_rs1 := reg_zero, insn_type := insn_add\<rparr>)
      else if cfunct1 = 0x1 then
        if insn_rs1 i = 0 \<and> insn_rs2 i = 0 then \<comment> \<open>C.EBREAK\<close> Inl (Fatal ''unimplmented'')
        else if insn_rs2 i = 0 then \<comment> \<open>C.JALR\<close>
          Inr (i\<lparr>insn_rd := reg_ra, insn_type := insn_jalr, insn_cont := True\<rparr>)
        else \<comment> \<open>C.ADD\<close> Inr (i\<lparr>insn_rd := insn_rs1 i, insn_type := insn_add\<rparr>)
      else Inl Unreachable)"

definition decode_q2 :: "u32 \<Rightarrow> insn_t result" where
  "decode_q2 data =
     (let copcode = COPCODE data; data16 = ucast data in
      if copcode = 0x0 then \<comment> \<open>C.SLLI\<close>
        let i = insn_citype_read data16 in as_type insn_slli (i\<lparr>insn_rs1 := insn_rd i\<rparr>)
      else if copcode = 0x1 then \<comment> \<open>C.FLDSP\<close>
        as_type insn_fld ((insn_citype_read2 data16)\<lparr>insn_rs1 := reg_sp\<rparr>)
      else if copcode = 0x2 then \<comment> \<open>C.LWSP\<close>
        let i = insn_citype_read4 data16 in
        bindE (assertE ''insn->rd != 0'' (insn_rd i \<noteq> 0)) (\<lambda>_.
          as_type insn_lw (i\<lparr>insn_rs1 := reg_sp\<rparr>))
      else if copcode = 0x3 then \<comment> \<open>C.LDSP\<close>
        let i = insn_citype_read2 data16 in
        bindE (assertE ''insn->rd != 0'' (insn_rd i \<noteq> 0)) (\<lambda>_.
          as_type insn_ld (i\<lparr>insn_rs1 := reg_sp\<rparr>))
      else if copcode = 0x4 then decode_q2_jump data
      else if copcode = 0x5 then \<comment> \<open>C.FSDSP\<close>
        as_type insn_fsd ((insn_csstype_read data16)\<lparr>insn_rs1 := reg_sp\<rparr>)
      else if copcode = 0x6 then \<comment> \<open>C.SWSP\<close>
        as_type insn_sw ((insn_csstype_read2 data16)\<lparr>insn_rs1 := reg_sp\<rparr>)
      else if copcode = 0x7 then \<comment> \<open>C.SDSP\<close>
        as_type insn_sd ((insn_csstype_read data16)\<lparr>insn_rs1 := reg_sp\<rparr>)
      else Inl (Fatal ''unrecognized copcode''))"

subsection \<open>Quadrant 3, by opcode\<close>

definition decode_load :: "u32 \<Rightarrow> insn_t result" where
  "decode_load data = type_switch (insn_itype_read data) (FUNCT3 data)
     [(0x0, insn_lb), (0x1, insn_lh), (0x2, insn_lw), (0x3, insn_ld), (0x4, insn_lbu),
      (0x5, insn_lhu), (0x6, insn_lwu)]"

definition decode_load_fp :: "u32 \<Rightarrow> insn_t result" where
  "decode_load_fp data = type_switch (insn_itype_read data) (FUNCT3 data)
     [(0x2, insn_flw), (0x3, insn_fld)]"

definition decode_fence :: "u32 \<Rightarrow> insn_t result" where
  "decode_fence data = type_switch zero_insn (FUNCT3 data)
     [(0x0, insn_fence), (0x1, insn_fence_i)]"

definition decode_op_imm :: "u32 \<Rightarrow> insn_t result" where
  "decode_op_imm data =
     (let funct3 = FUNCT3 data; i = insn_itype_read data; imm116 = IMM116 data in
      if funct3 = 0x0 then as_type insn_addi i
      else if funct3 = 0x1 then
        if imm116 = 0 then as_type insn_slli i else Inl Unreachable
      else if funct3 = 0x2 then as_type insn_slti i
      else if funct3 = 0x3 then as_type insn_sltiu i
      else if funct3 = 0x4 then as_type insn_xori i
      else if funct3 = 0x5 then
        if imm116 = 0x0 then as_type insn_srli i
        else if imm116 = 0x10 then as_type insn_srai i
        else Inl Unreachable
      else if funct3 = 0x6 then as_type insn_ori i
      else if funct3 = 0x7 then as_type insn_andi i
      else Inl (Fatal ''unrecognized funct3''))"

definition decode_op_imm_32 :: "u32 \<Rightarrow> insn_t result" where
  "decode_op_imm_32 data =
     (let funct3 = FUNCT3 data; funct7 = FUNCT7 data; i = insn_itype_read data in
      if funct3 = 0x0 then as_type insn_addiw i
      else if funct3 = 0x1 then
        bindE (assertE ''funct7 == 0'' (funct7 = 0)) (\<lambda>_. as_type insn_slliw i)
      else if funct3 = 0x5 then type_switch i funct7 [(0x0, insn_srliw), (0x20, insn_sraiw)]
      else Inl (Fatal ''unimplemented''))"

definition decode_store :: "u32 \<Rightarrow> insn_t result" where
  "decode_store data = type_switch (insn_stype_read data) (FUNCT3 data)
     [(0x0, insn_sb), (0x1, insn_sh), (0x2, insn_sw), (0x3, insn_sd)]"

definition decode_store_fp :: "u32 \<Rightarrow> insn_t result" where
  "decode_store_fp data = type_switch (insn_stype_read data) (FUNCT3 data)
     [(0x2, insn_fsw), (0x3, insn_fsd)]"

definition decode_op :: "u32 \<Rightarrow> insn_t result" where
  "decode_op data =
     (let i = insn_rtype_read data; funct3 = FUNCT3 data; funct7 = FUNCT7 data in
      if funct7 = 0x0 then type_switch i funct3
        [(0x0, insn_add), (0x1, insn_sll), (0x2, insn_slt), (0x3, insn_sltu),
         (0x4, insn_xor), (0x5, insn_srl), (0x6, insn_or), (0x7, insn_and)]
      else if funct7 = 0x1 then type_switch i funct3
        [(0x0, insn_mul), (0x1, insn_mulh), (0x2, insn_mulhsu), (0x3, insn_mulhu),
         (0x4, insn_div), (0x5, insn_divu), (0x6, insn_rem), (0x7, insn_remu)]
      else if funct7 = 0x20 then type_switch i funct3 [(0x0, insn_sub), (0x5, insn_sra)]
      else Inl Unreachable)"

definition decode_op_32 :: "u32 \<Rightarrow> insn_t result" where
  "decode_op_32 data =
     (let i = insn_rtype_read data; funct3 = FUNCT3 data; funct7 = FUNCT7 data in
      if funct7 = 0x0 then type_switch i funct3
        [(0x0, insn_addw), (0x1, insn_sllw), (0x5, insn_srlw)]
      else if funct7 = 0x1 then type_switch i funct3
        [(0x0, insn_mulw), (0x4, insn_divw), (0x5, insn_divuw), (0x6, insn_remw), (0x7, insn_remuw)]
      else if funct7 = 0x20 then type_switch i funct3 [(0x0, insn_subw), (0x5, insn_sraw)]
      else Inl Unreachable)"

definition decode_fma :: "u32 \<Rightarrow> insn_t result" where
  "decode_fma data =
     (let i = insn_fprtype_read data; funct2 = FUNCT2 data; opcode = OPCODE data in
      if opcode = 0x10 then type_switch i funct2 [(0x0, insn_fmadd_s), (0x1, insn_fmadd_d)]
      else if opcode = 0x11 then type_switch i funct2 [(0x0, insn_fmsub_s), (0x1, insn_fmsub_d)]
      else if opcode = 0x12 then type_switch i funct2 [(0x0, insn_fnmsub_s), (0x1, insn_fnmsub_d)]
      else type_switch i funct2 [(0x0, insn_fnmadd_s), (0x1, insn_fnmadd_d)])"

text \<open>\<^verbatim>\<open>OP-FP\<close>: the values of \<^verbatim>\<open>funct7\<close> below 0x50, then the rest of the same switch.\<close>

definition decode_op_fp_arith :: "u32 \<Rightarrow> insn_t result" where
  "decode_op_fp_arith data =
     (let funct7 = FUNCT7 data; funct3 = FUNCT3 data; i = insn_rtype_read data in
      if funct7 = 0x0 then as_type insn_fadd_s i
      else if funct7 = 0x1 then as_type insn_fadd_d i
      else if funct7 = 0x4 then as_type insn_fsub_s i
      else if funct7 = 0x5 then as_type insn_fsub_d i
      else if funct7 = 0x8 then as_type insn_fmul_s i
      else if funct7 = 0x9 then as_type insn_fmul_d i
      else if funct7 = 0xc then as_type insn_fdiv_s i
      else if funct7 = 0xd then as_type insn_fdiv_d i
      else if funct7 = 0x10 then type_switch i funct3
        [(0x0, insn_fsgnj_s), (0x1, insn_fsgnjn_s), (0x2, insn_fsgnjx_s)]
      else if funct7 = 0x11 then type_switch i funct3
        [(0x0, insn_fsgnj_d), (0x1, insn_fsgnjn_d), (0x2, insn_fsgnjx_d)]
      else if funct7 = 0x14 then type_switch i funct3 [(0x0, insn_fmin_s), (0x1, insn_fmax_s)]
      else if funct7 = 0x15 then type_switch i funct3 [(0x0, insn_fmin_d), (0x1, insn_fmax_d)]
      else if funct7 = 0x20 then
        bindE (assertE ''RS2(data) == 1'' (RS2 data = 1)) (\<lambda>_. as_type insn_fcvt_s_d i)
      else if funct7 = 0x21 then
        bindE (assertE ''RS2(data) == 0'' (RS2 data = 0)) (\<lambda>_. as_type insn_fcvt_d_s i)
      else if funct7 = 0x2c then
        bindE (assertE ''insn->rs2 == 0'' (insn_rs2 i = 0)) (\<lambda>_. as_type insn_fsqrt_s i)
      else if funct7 = 0x2d then
        bindE (assertE ''insn->rs2 == 0'' (insn_rs2 i = 0)) (\<lambda>_. as_type insn_fsqrt_d i)
      else Inl Unreachable)"

definition decode_op_fp_cvt :: "u32 \<Rightarrow> insn_t result" where
  "decode_op_fp_cvt data =
     (let funct7 = FUNCT7 data; funct3 = FUNCT3 data; rs2 = RS2 data; i = insn_rtype_read data in
      if funct7 = 0x50 then type_switch i funct3
        [(0x0, insn_fle_s), (0x1, insn_flt_s), (0x2, insn_feq_s)]
      else if funct7 = 0x51 then type_switch i funct3
        [(0x0, insn_fle_d), (0x1, insn_flt_d), (0x2, insn_feq_d)]
      else if funct7 = 0x60 then type_switch i rs2
        [(0x0, insn_fcvt_w_s), (0x1, insn_fcvt_wu_s), (0x2, insn_fcvt_l_s), (0x3, insn_fcvt_lu_s)]
      else if funct7 = 0x61 then type_switch i rs2
        [(0x0, insn_fcvt_w_d), (0x1, insn_fcvt_wu_d), (0x2, insn_fcvt_l_d), (0x3, insn_fcvt_lu_d)]
      else if funct7 = 0x68 then type_switch i rs2
        [(0x0, insn_fcvt_s_w), (0x1, insn_fcvt_s_wu), (0x2, insn_fcvt_s_l), (0x3, insn_fcvt_s_lu)]
      else if funct7 = 0x69 then type_switch i rs2
        [(0x0, insn_fcvt_d_w), (0x1, insn_fcvt_d_wu), (0x2, insn_fcvt_d_l), (0x3, insn_fcvt_d_lu)]
      else if funct7 = 0x70 then
        bindE (assertE ''RS2(data) == 0'' (rs2 = 0)) (\<lambda>_.
          type_switch i funct3 [(0x0, insn_fmv_x_w), (0x1, insn_fclass_s)])
      else if funct7 = 0x71 then
        bindE (assertE ''RS2(data) == 0'' (rs2 = 0)) (\<lambda>_.
          type_switch i funct3 [(0x0, insn_fmv_x_d), (0x1, insn_fclass_d)])
      else if funct7 = 0x78 then
        bindE (assertE ''RS2(data) == 0 && FUNCT3(data) == 0'' (rs2 = 0 \<and> funct3 = 0)) (\<lambda>_.
          as_type insn_fmv_w_x i)
      else if funct7 = 0x79 then
        bindE (assertE ''RS2(data) == 0 && FUNCT3(data) == 0'' (rs2 = 0 \<and> funct3 = 0)) (\<lambda>_.
          as_type insn_fmv_d_x i)
      else Inl Unreachable)"

definition decode_op_fp :: "u32 \<Rightarrow> insn_t result" where
  "decode_op_fp data =
     (if FUNCT7 data < 0x50 then decode_op_fp_arith data else decode_op_fp_cvt data)"

definition decode_branch :: "u32 \<Rightarrow> insn_t result" where
  "decode_branch data = type_switch (insn_btype_read data) (FUNCT3 data)
     [(0x0, insn_beq), (0x1, insn_bne), (0x4, insn_blt), (0x5, insn_bge), (0x6, insn_bltu),
      (0x7, insn_bgeu)]"

definition decode_system :: "insn_t \<Rightarrow> u32 \<Rightarrow> insn_t result" where
  "decode_system old data =
     (if data = 0x73 then \<comment> \<open>ECALL\<close> Inr (old\<lparr>insn_type := insn_ecall, insn_cont := True\<rparr>)
      else type_switch (insn_csrtype_read data) (FUNCT3 data)
        [(0x1, insn_csrrw), (0x2, insn_csrrs), (0x3, insn_csrrc), (0x5, insn_csrrwi),
         (0x6, insn_csrrsi), (0x7, insn_csrrci)])"

definition decode_q3 :: "insn_t \<Rightarrow> u32 \<Rightarrow> insn_t result" where
  "decode_q3 old data =
     (let opcode = OPCODE data in
      if opcode = 0x0 then decode_load data
      else if opcode = 0x1 then decode_load_fp data
      else if opcode = 0x3 then decode_fence data
      else if opcode = 0x4 then decode_op_imm data
      else if opcode = 0x5 then \<comment> \<open>AUIPC\<close> as_type insn_auipc (insn_utype_read data)
      else if opcode = 0x6 then decode_op_imm_32 data
      else if opcode = 0x8 then decode_store data
      else if opcode = 0x9 then decode_store_fp data
      else if opcode = 0xc then decode_op data
      else if opcode = 0xd then \<comment> \<open>LUI\<close> as_type insn_lui (insn_utype_read data)
      else if opcode = 0xe then decode_op_32 data
      else if opcode = 0x10 \<or> opcode = 0x11 \<or> opcode = 0x12 \<or> opcode = 0x13 then decode_fma data
      else if opcode = 0x14 then decode_op_fp data
      else if opcode = 0x18 then decode_branch data
      else if opcode = 0x19 then \<comment> \<open>JALR\<close>
        Inr ((insn_itype_read data)\<lparr>insn_type := insn_jalr, insn_cont := True\<rparr>)
      else if opcode = 0x1b then \<comment> \<open>JAL\<close>
        Inr ((insn_jtype_read data)\<lparr>insn_type := insn_jal, insn_cont := True\<rparr>)
      else if opcode = 0x1c then decode_system old data
      else Inl Unreachable)"

definition insn_decode :: "insn_t \<Rightarrow> u32 \<Rightarrow> insn_t result" where
  "insn_decode old data =
     (let quadrant = QUADRANT data in
      if quadrant = 0x0 then decode_q0 data
      else if quadrant = 0x1 then decode_q1 data
      else if quadrant = 0x2 then decode_q2 data
      else if quadrant = 0x3 then decode_q3 old data
      else Inl Unreachable)"

lemmas decode_defs = insn_decode_def decode_q0_def decode_q1_def decode_q1_alu_def decode_q2_def
  decode_q2_jump_def decode_q3_def decode_load_def decode_load_fp_def decode_fence_def
  decode_op_imm_def decode_op_imm_32_def decode_store_def decode_store_fp_def decode_op_def
  decode_op_32_def decode_fma_def decode_op_fp_def decode_op_fp_arith_def decode_op_fp_cvt_def
  decode_branch_def decode_system_def

end
