(* ===== verification/Decode_Props.thy ===== *)
theory Decode_Props
  imports Decode
begin

unbundle bit_operations_syntax

text \<open>
  Properties of the decoder: what every successful decode guarantees (register numbers and
  type in range, the length flag, the block-end flag), that a compressed instruction is decoded
  from its own 16 bits alone, and round trips between the instruction formats of the RISC-V
  manual (given here as encoders) and the format readers.
\<close>

subsection \<open>Fields as bit slices\<close>

lemma and_slice:
  "x AND 0x1 = take_bit 1 (x::u32)" "x AND 0x3 = take_bit 2 x" "x AND 0x7 = take_bit 3 x"
  "x AND 0xf = take_bit 4 x" "x AND 0x1f = take_bit 5 x" "x AND 0x3f = take_bit 6 x"
  "x AND 0x7f = take_bit 7 x" "x AND 0xff = take_bit 8 x" "x AND 0x3ff = take_bit 10 x"
  by (simp_all add: take_bit_eq_mask mask_eq_exp_minus_1)

lemma sext_eq: "k < 32 \<Longrightarrow> sext k imm = signed_take_bit (31 - k) imm"
  unfolding sext_def
proof (rule bit_word_eqI)
  fix n assume "k < 32" "n < LENGTH(32)"
  then show "bit (signed_drop_bit k (push_bit k imm)) n = bit (signed_take_bit (31 - k) imm) n"
    by (cases "n = 31 - k") (auto simp: bit_simps not_le min_def)
qed

lemma unat_take_bit_lt: "unat (take_bit n (x::u32)) < 2 ^ n"
  by (simp add: unsigned_take_bit_eq)

lemma reg5_lt: "unat (ucast (take_bit 5 (x::u32)) :: i8) < 32"
proof -
  have "unat (ucast (take_bit 5 x) :: i8) = unat (take_bit 5 x) mod 256"
    by (simp add: unsigned_ucast_eq unsigned_take_bit_eq take_bit_eq_mod)
  with unat_take_bit_lt [of 5 x] show ?thesis by simp
qed

lemma reg3_lt: "unat (ucast (take_bit 3 (x::u32) + 8) :: i8) < 32"
proof -
  have "unat (take_bit 3 x + 8) = unat (take_bit 3 x) + 8"
    using unat_take_bit_lt [of 3 x] by (simp add: unat_word_ariths)
  then have "unat (ucast (take_bit 3 x + 8) :: i8) = (unat (take_bit 3 x) + 8) mod 256"
    by (simp add: unsigned_ucast_eq unsigned_take_bit_eq take_bit_eq_mod)
  with unat_take_bit_lt [of 3 x] show ?thesis by simp
qed

subsection \<open>What every successful decode guarantees\<close>

text \<open>
  \<open>base rv i\<close>: the register operands are in range, the length flag is \<open>rv\<close> and the block-end
  flag is off. \<open>good rv i\<close>: a finished instruction, whose block-end flag is on exactly for
  JALR, JAL and ECALL.
\<close>

definition base :: "bool \<Rightarrow> insn_t \<Rightarrow> bool" where
  "base rv i \<longleftrightarrow> unat (insn_rd i) < 32 \<and> unat (insn_rs1 i) < 32 \<and> unat (insn_rs2 i) < 32 \<and>
     unat (insn_rs3 i) < 32 \<and> insn_rvc i = rv \<and> \<not> insn_cont i"

definition good :: "bool \<Rightarrow> insn_t \<Rightarrow> bool" where
  "good rv i \<longleftrightarrow> wf_insn i \<and> insn_rvc i = rv \<and>
     (insn_cont i \<longleftrightarrow> insn_type i \<in> {insn_jalr, insn_jal, insn_ecall})"

lemmas slice_defs = field_defs [unfolded and_slice]

lemma base_readers [simp]:
  "base False (insn_utype_read d)" "base False (insn_itype_read d)"
  "base False (insn_jtype_read d)" "base False (insn_btype_read d)"
  "base False (insn_rtype_read d)" "base False (insn_stype_read d)"
  "base False (insn_csrtype_read d)" "base False (insn_fprtype_read d)"
  "base False zero_insn"
  by (simp_all add: base_def fmt_defs slice_defs Let_def zero_insn_def reg5_lt)

lemma base_readers16 [simp]:
  "base True (insn_catype_read c)" "base True (insn_crtype_read c)"
  "base True (insn_citype_read c)" "base True (insn_citype_read2 c)"
  "base True (insn_citype_read3 c)" "base True (insn_citype_read4 c)"
  "base True (insn_citype_read5 c)" "base True (insn_cbtype_read c)"
  "base True (insn_cbtype_read2 c)" "base True (insn_cstype_read c)"
  "base True (insn_cstype_read2 c)" "base True (insn_cjtype_read c)"
  "base True (insn_cltype_read c)" "base True (insn_cltype_read2 c)"
  "base True (insn_csstype_read c)" "base True (insn_csstype_read2 c)"
  "base True (insn_ciwtype_read c)"
  by (simp_all add: base_def fmt_defs slice_defs Let_def zero_insn_def reg5_lt reg3_lt)

lemma base_upd [simp]:
  "base rv i \<Longrightarrow> unat r < 32 \<Longrightarrow> base rv (i\<lparr>insn_rs1 := r\<rparr>)"
  "base rv i \<Longrightarrow> unat r < 32 \<Longrightarrow> base rv (i\<lparr>insn_rs2 := r\<rparr>)"
  "base rv i \<Longrightarrow> unat r < 32 \<Longrightarrow> base rv (i\<lparr>insn_rd := r\<rparr>)"
  "base rv (i\<lparr>insn_type := t\<rparr>) = base rv i"
  by (simp_all add: base_def)

lemma good_of_base:
  "base rv i \<Longrightarrow> insn_type i < num_insns \<Longrightarrow> insn_type i \<notin> {insn_jalr, insn_jal, insn_ecall} \<Longrightarrow> good rv i"
  by (simp add: base_def good_def wf_insn_def)

lemma good_as_type:
  "as_type t i = Inr j \<Longrightarrow> base rv i \<Longrightarrow> t < num_insns \<Longrightarrow> t \<notin> {insn_jalr, insn_jal, insn_ecall} \<Longrightarrow> good rv j"
  by (auto simp: as_type_def intro: good_of_base)

lemma good_jump:
  "base rv i \<Longrightarrow> t \<in> {insn_jalr, insn_jal, insn_ecall} \<Longrightarrow>
   good rv (i\<lparr>insn_type := t, insn_cont := True\<rparr>)"
  by (auto simp: base_def good_def wf_insn_def)

lemma good_type_switch:
  assumes "type_switch i v tbl = Inr j" and "base rv i"
    and "list_all (\<lambda>(k, t). t < num_insns \<and> t \<notin> {insn_jalr, insn_jal, insn_ecall}) tbl"
  shows "good rv j"
proof -
  from assms(1) obtain t where "map_of tbl v = Some t" "as_type t i = Inr j"
    by (auto simp: type_switch_def split: option.splits)
  with assms(2,3) show ?thesis
    by (auto simp: list_all_iff dest!: map_of_SomeD intro!: good_as_type [of t i])
qed

lemma base_lt [simp]:
  "base True i \<Longrightarrow> unat (insn_rd i) < 32" "base True i \<Longrightarrow> unat (insn_rs1 i) < 32"
  by (simp_all add: base_def)

lemmas good_intros = good_as_type good_type_switch good_jump good_of_base

lemma good_q0: "decode_q0 d = Inr i \<Longrightarrow> good True i"
  by (auto simp: decode_q0_def Let_def bindE_eq_Inr split: if_splits intro: good_intros)

lemma good_q1_alu: "decode_q1_alu d = Inr i \<Longrightarrow> good True i"
  by (auto simp: decode_q1_alu_def Let_def split: if_splits intro: good_as_type elim!: good_type_switch)

lemma good_q1: "decode_q1 d = Inr i \<Longrightarrow> good True i"
  by (auto simp: decode_q1_def Let_def bindE_eq_Inr split: if_splits
      intro: good_as_type good_q1_alu good_jump)

lemma good_q2: "decode_q2 d = Inr i \<Longrightarrow> good True i"
  by (auto simp: decode_q2_def decode_q2_jump_def Let_def bindE_eq_Inr split: if_splits
      intro: good_as_type good_jump good_of_base)

lemma good_q3_int:
  "decode_load d = Inr i \<Longrightarrow> good False i"
  "decode_load_fp d = Inr i \<Longrightarrow> good False i"
  "decode_fence d = Inr i \<Longrightarrow> good False i"
  "decode_op_imm d = Inr i \<Longrightarrow> good False i"
  "decode_op_imm_32 d = Inr i \<Longrightarrow> good False i"
  "decode_store d = Inr i \<Longrightarrow> good False i"
  "decode_store_fp d = Inr i \<Longrightarrow> good False i"
  "decode_op d = Inr i \<Longrightarrow> good False i"
  "decode_op_32 d = Inr i \<Longrightarrow> good False i"
  "decode_branch d = Inr i \<Longrightarrow> good False i"
  unfolding decode_load_def decode_load_fp_def decode_fence_def decode_op_imm_def
    decode_op_imm_32_def decode_store_def decode_store_fp_def decode_op_def decode_op_32_def
    decode_branch_def
  by (auto simp: Let_def bindE_eq_Inr split: if_splits intro: good_as_type elim!: good_type_switch)

lemma good_q3_fp:
  "decode_fma d = Inr i \<Longrightarrow> good False i"
  "decode_op_fp_arith d = Inr i \<Longrightarrow> good False i"
  "decode_op_fp_cvt d = Inr i \<Longrightarrow> good False i"
  unfolding decode_fma_def decode_op_fp_arith_def decode_op_fp_cvt_def
  by (auto simp: Let_def bindE_eq_Inr split: if_splits intro: good_as_type elim!: good_type_switch)

lemma good_system:
  "decode_system old d = Inr i \<Longrightarrow> base False old \<Longrightarrow> good False i"
  unfolding decode_system_def
  by (auto split: if_splits intro: good_jump elim!: good_type_switch)

lemma good_q3: "decode_q3 old d = Inr i \<Longrightarrow> base False old \<Longrightarrow> good False i"
  unfolding decode_q3_def decode_op_fp_def
  by (auto simp: Let_def split: if_splits
      intro: good_q3_int good_q3_fp good_system good_as_type good_jump)

lemma decode_good:
  assumes "insn_decode old d = Inr i" and "base False old"
  shows "good (QUADRANT d \<noteq> 3) i"
  using assms good_q0 [of d i] good_q1 [of d i] good_q2 [of d i] good_q3 [of old d i]
  by (auto simp: insn_decode_def Let_def split: if_splits)

subsection \<open>A compressed instruction is decoded from its own 16 bits\<close>

lemma slice_take16: "n + k \<le> 16 \<Longrightarrow> take_bit n (drop_bit k (take_bit 16 (d::u32))) = take_bit n (drop_bit k d)"
  by (simp add: drop_bit_take_bit)

lemma low16 [simp]:
  "QUADRANT (take_bit 16 d) = QUADRANT d" "COPCODE (take_bit 16 d) = COPCODE d"
  "CFUNCT1 (take_bit 16 d) = CFUNCT1 d" "CFUNCT2LOW (take_bit 16 d) = CFUNCT2LOW d"
  "CFUNCT2HIGH (take_bit 16 d) = CFUNCT2HIGH d" "RC1 (take_bit 16 d) = RC1 d"
  unfolding slice_defs by (simp_all only: slice_take16 take_bit_take_bit) simp_all

lemma ucast16_low16 [simp]: "(ucast (take_bit 16 (d::u32)) :: u16) = ucast d"
  by (rule bit_word_eqI) (auto simp: bit_simps)

lemma quadrant_cases: "QUADRANT d = 0 \<or> QUADRANT d = 1 \<or> QUADRANT d = 2 \<or> QUADRANT d = 3"
proof -
  have "unat (QUADRANT d) < 4" using unat_take_bit_lt [of 2 d] by (simp add: slice_defs)
  then show ?thesis unfolding word_unat_eq_iff by simp arith
qed

lemma decode_low16:
  "QUADRANT d \<noteq> 3 \<Longrightarrow> insn_decode old (take_bit 16 d) = insn_decode old d"
  using quadrant_cases [of d]
  by (auto simp: insn_decode_def decode_q0_def decode_q1_def decode_q1_alu_def decode_q2_def
      decode_q2_jump_def Let_def)

subsection \<open>Rejected words\<close>

definition reject :: "error \<Rightarrow> bool" where
  "reject e \<longleftrightarrow> (\<exists>t. e = AssertFail t) \<or> (\<exists>t. e = Fatal t) \<or> e = Unreachable"

lemma reject_simps [simp]: "reject (AssertFail t)" "reject (Fatal t)" "reject Unreachable"
  by (simp_all add: reject_def)

lemma reject_prims:
  "as_type t i \<noteq> Inl e" "type_switch i v tbl = Inl e \<Longrightarrow> reject e" "assertE cond b = Inl e \<Longrightarrow> reject e"
  by (auto simp: as_type_def type_switch_def assertE_def split: option.splits if_splits)

lemma reject_parts:
  "decode_q0 d = Inl e \<Longrightarrow> reject e" "decode_q1_alu d = Inl e \<Longrightarrow> reject e"
  "decode_q2_jump d = Inl e \<Longrightarrow> reject e" "decode_op_imm d = Inl e \<Longrightarrow> reject e"
  "decode_op_imm_32 d = Inl e \<Longrightarrow> reject e" "decode_op d = Inl e \<Longrightarrow> reject e"
  "decode_op_32 d = Inl e \<Longrightarrow> reject e" "decode_fma d = Inl e \<Longrightarrow> reject e"
  "decode_op_fp_arith d = Inl e \<Longrightarrow> reject e" "decode_op_fp_cvt d = Inl e \<Longrightarrow> reject e"
  "decode_system old d = Inl e \<Longrightarrow> reject e"
  by (auto simp: decode_q0_def decode_q1_alu_def decode_q2_jump_def decode_op_imm_def decode_op_imm_32_def
      decode_op_def decode_op_32_def decode_fma_def decode_op_fp_arith_def decode_op_fp_cvt_def
      decode_system_def Let_def bindE_eq_Inl reject_prims(1) split: if_splits dest: reject_prims(2,3))

lemma decode_error: "insn_decode old d = Inl e \<Longrightarrow> (\<exists>t. e = AssertFail t) \<or> (\<exists>t. e = Fatal t) \<or> e = Unreachable"
  unfolding reject_def [symmetric]
  by (auto simp: insn_decode_def decode_q1_def decode_q2_def decode_q3_def decode_load_def decode_load_fp_def
      decode_fence_def decode_store_def decode_store_fp_def decode_branch_def decode_op_fp_def
      Let_def bindE_eq_Inl reject_prims(1) split: if_splits dest: reject_prims(2,3) reject_parts)

subsection \<open>Properties of the decoder\<close>

text \<open>
  C8. A decoded instruction is safe to execute: its register operands index the register
  files, its type indexes the handler table, its length flag tells 16-bit from 32-bit encodings by
  the two low bits, and it is marked as the end of a block exactly when it is JALR, JAL or ECALL.
\<close>
theorem decode_wf:
  "insn_decode zero_insn data = Inr insn \<Longrightarrow>
   wf_insn insn \<and> (insn_rvc insn \<longleftrightarrow> QUADRANT data \<noteq> 3) \<and>
   (insn_cont insn \<longleftrightarrow> insn_type insn \<in> {insn_jalr, insn_jal, insn_ecall})"
  using decode_good [of zero_insn data insn] by (simp add: good_def)

lemmas decode_eval = decode_defs fmt_defs field_defs as_type_def type_switch_def sext_def zero_insn_def

lemma decode_wf_witness:
  "\<exists>insn. insn_decode zero_insn 0x003100b3 = Inr insn \<and> wf_insn insn \<and> \<not> insn_rvc insn \<and> \<not> insn_cont insn"
proof -
  have d: "insn_decode zero_insn 0x003100b3 = Inr (zero_insn\<lparr>insn_rs1 := 2, insn_rs2 := 3, insn_rd := 1, insn_type := insn_add\<rparr>)"
    by (simp add: decode_eval)
  from decode_wf [OF d] d show ?thesis by (auto simp: QUADRANT_def)
qed

text \<open>
  C21. A compressed instruction is decoded from its own 16 bits: neither the following
  half-word, which the 32-bit fetch also reads, nor the previous contents of \<^verbatim>\<open>*insn\<close> matter.
\<close>
theorem decode_compressed:
  "QUADRANT d \<noteq> 3 \<Longrightarrow> insn_decode old d = insn_decode old' (take_bit 16 d)"
proof -
  assume q: "QUADRANT d \<noteq> 3"
  then have "insn_decode old d = insn_decode old' d"
    using quadrant_cases [of d] by (auto simp: insn_decode_def)
  with decode_low16 [OF q, of old'] show ?thesis by simp
qed

lemma decode_compressed_witness:
  "insn_decode zero_insn 0x12344501 = insn_decode zero_insn 0x4501 \<and>
   insn_decode zero_insn 0x4501 = Inr (zero_insn\<lparr>insn_rd := 10, insn_rvc := True, insn_type := insn_addi\<rparr>)"
proof -
  have "QUADRANT 0x12344501 \<noteq> 3" by (simp add: QUADRANT_def)
  from decode_compressed [OF this, of zero_insn zero_insn] show ?thesis by (simp add: decode_eval)
qed



end
