(* ===== verification/Encode.thy ===== *)
theory Encode
  imports Decode_Props
begin

unbundle bit_operations_syntax

text \<open>
  The 32-bit instruction formats of the RISC-V manual as an assembler, the specification the
  decoder is compared with. \<open>asm\<close> is an instruction with its operands, \<open>encode\<close> its machine
  word and \<open>asm_insn\<close> the \<^verbatim>\<open>insn_t\<close> it stands for; \<open>decode_encode\<close> shows that
  \<^verbatim>\<open>insn_decode\<close> inverts \<open>encode\<close> on every instruction of the tables.
\<close>

subsection \<open>Assembler\<close>

datatype asm =
    AR insn_type_t i8 i8 i8          \<comment> \<open>rd, rs1, rs2\<close>
  | AR4 insn_type_t i8 i8 i8 i8      \<comment> \<open>rd, rs1, rs2, rs3\<close>
  | AUn insn_type_t i8 i8            \<comment> \<open>rd, rs1; the rs2 field selects the operation\<close>
  | AI insn_type_t i8 i8 i32         \<comment> \<open>rd, rs1, immediate\<close>
  | ASh insn_type_t i8 i8 i32        \<comment> \<open>rd, rs1, shift amount\<close>
  | AS insn_type_t i8 i8 i32         \<comment> \<open>rs1, rs2, offset\<close>
  | AB insn_type_t i8 i8 i32         \<comment> \<open>rs1, rs2, offset\<close>
  | AU insn_type_t i8 i32            \<comment> \<open>rd, upper immediate\<close>
  | AJ i8 i32                        \<comment> \<open>rd, offset\<close>
  | AJalr i8 i8 i32
  | ACsr insn_type_t i8 i8 i16
  | AEcall

text \<open>The five fields every 32-bit format divides its word into.\<close>

definition pack :: "u32 \<Rightarrow> u32 \<Rightarrow> u32 \<Rightarrow> u32 \<Rightarrow> u32 \<Rightarrow> u32" where
  "pack hi r1 f3 lo opc = push_bit 20 (take_bit 12 hi) OR push_bit 15 (take_bit 5 r1) OR
     push_bit 12 (take_bit 3 f3) OR push_bit 7 (take_bit 5 lo) OR push_bit 2 (take_bit 5 opc) OR mask 2"

text \<open>The scattered immediates of branches and JAL.\<close>

definition b_hi :: "u32 \<Rightarrow> u32 \<Rightarrow> u32" where
  "b_hi imm r2 = push_bit 11 (drop_bit 12 imm) OR push_bit 5 (take_bit 6 (drop_bit 5 imm)) OR r2"

definition b_lo :: "u32 \<Rightarrow> u32" where
  "b_lo imm = push_bit 1 (take_bit 4 (drop_bit 1 imm)) OR take_bit 1 (drop_bit 11 imm)"

definition j_hi :: "u32 \<Rightarrow> u32" where
  "j_hi imm = push_bit 11 (drop_bit 20 imm) OR push_bit 1 (take_bit 10 (drop_bit 1 imm)) OR
     take_bit 1 (drop_bit 11 imm)"

text \<open>Opcode, funct3 and funct7 of the register-register instructions.\<close>

definition r_table :: "(insn_type_t \<times> u32 \<times> u32 \<times> u32) list" where
  "r_table =
    [(insn_add, 0xc, 0, 0), (insn_sll, 0xc, 1, 0), (insn_slt, 0xc, 2, 0), (insn_sltu, 0xc, 3, 0),
     (insn_xor, 0xc, 4, 0), (insn_srl, 0xc, 5, 0), (insn_or, 0xc, 6, 0), (insn_and, 0xc, 7, 0),
     (insn_mul, 0xc, 0, 1), (insn_mulh, 0xc, 1, 1), (insn_mulhsu, 0xc, 2, 1), (insn_mulhu, 0xc, 3, 1),
     (insn_div, 0xc, 4, 1), (insn_divu, 0xc, 5, 1), (insn_rem, 0xc, 6, 1), (insn_remu, 0xc, 7, 1),
     (insn_sub, 0xc, 0, 0x20), (insn_sra, 0xc, 5, 0x20),
     (insn_addw, 0xe, 0, 0), (insn_sllw, 0xe, 1, 0), (insn_srlw, 0xe, 5, 0),
     (insn_mulw, 0xe, 0, 1), (insn_divw, 0xe, 4, 1), (insn_divuw, 0xe, 5, 1), (insn_remw, 0xe, 6, 1),
     (insn_remuw, 0xe, 7, 1), (insn_subw, 0xe, 0, 0x20), (insn_sraw, 0xe, 5, 0x20),
     (insn_fadd_s, 0x14, 0, 0), (insn_fadd_d, 0x14, 0, 1), (insn_fsub_s, 0x14, 0, 4),
     (insn_fsub_d, 0x14, 0, 5), (insn_fmul_s, 0x14, 0, 8), (insn_fmul_d, 0x14, 0, 9),
     (insn_fdiv_s, 0x14, 0, 0xc), (insn_fdiv_d, 0x14, 0, 0xd),
     (insn_fsgnj_s, 0x14, 0, 0x10), (insn_fsgnjn_s, 0x14, 1, 0x10), (insn_fsgnjx_s, 0x14, 2, 0x10),
     (insn_fsgnj_d, 0x14, 0, 0x11), (insn_fsgnjn_d, 0x14, 1, 0x11), (insn_fsgnjx_d, 0x14, 2, 0x11),
     (insn_fmin_s, 0x14, 0, 0x14), (insn_fmax_s, 0x14, 1, 0x14),
     (insn_fmin_d, 0x14, 0, 0x15), (insn_fmax_d, 0x14, 1, 0x15),
     (insn_fle_s, 0x14, 0, 0x50), (insn_flt_s, 0x14, 1, 0x50), (insn_feq_s, 0x14, 2, 0x50),
     (insn_fle_d, 0x14, 0, 0x51), (insn_flt_d, 0x14, 1, 0x51), (insn_feq_d, 0x14, 2, 0x51)]"

text \<open>Opcode and funct2 of the fused multiply-adds.\<close>

definition r4_table :: "(insn_type_t \<times> u32 \<times> u32) list" where
  "r4_table =
    [(insn_fmadd_s, 0x10, 0), (insn_fmadd_d, 0x10, 1), (insn_fmsub_s, 0x11, 0), (insn_fmsub_d, 0x11, 1),
     (insn_fnmsub_s, 0x12, 0), (insn_fnmsub_d, 0x12, 1), (insn_fnmadd_s, 0x13, 0), (insn_fnmadd_d, 0x13, 1)]"

text \<open>funct3, funct7 and the rs2 selector of the one-operand floating-point instructions.\<close>

definition un_table :: "(insn_type_t \<times> u32 \<times> u32 \<times> u32) list" where
  "un_table =
    [(insn_fcvt_s_d, 0, 0x20, 1), (insn_fcvt_d_s, 0, 0x21, 0), (insn_fsqrt_s, 0, 0x2c, 0),
     (insn_fsqrt_d, 0, 0x2d, 0),
     (insn_fcvt_w_s, 0, 0x60, 0), (insn_fcvt_wu_s, 0, 0x60, 1), (insn_fcvt_l_s, 0, 0x60, 2),
     (insn_fcvt_lu_s, 0, 0x60, 3),
     (insn_fcvt_w_d, 0, 0x61, 0), (insn_fcvt_wu_d, 0, 0x61, 1), (insn_fcvt_l_d, 0, 0x61, 2),
     (insn_fcvt_lu_d, 0, 0x61, 3),
     (insn_fcvt_s_w, 0, 0x68, 0), (insn_fcvt_s_wu, 0, 0x68, 1), (insn_fcvt_s_l, 0, 0x68, 2),
     (insn_fcvt_s_lu, 0, 0x68, 3),
     (insn_fcvt_d_w, 0, 0x69, 0), (insn_fcvt_d_wu, 0, 0x69, 1), (insn_fcvt_d_l, 0, 0x69, 2),
     (insn_fcvt_d_lu, 0, 0x69, 3),
     (insn_fmv_x_w, 0, 0x70, 0), (insn_fclass_s, 1, 0x70, 0), (insn_fmv_x_d, 0, 0x71, 0),
     (insn_fclass_d, 1, 0x71, 0), (insn_fmv_w_x, 0, 0x78, 0), (insn_fmv_d_x, 0, 0x79, 0)]"

text \<open>Opcode and funct3 of the immediate, store and branch formats.\<close>

definition i_table :: "(insn_type_t \<times> u32 \<times> u32) list" where
  "i_table =
    [(insn_lb, 0, 0), (insn_lh, 0, 1), (insn_lw, 0, 2), (insn_ld, 0, 3), (insn_lbu, 0, 4),
     (insn_lhu, 0, 5), (insn_lwu, 0, 6), (insn_flw, 1, 2), (insn_fld, 1, 3),
     (insn_addi, 4, 0), (insn_slti, 4, 2), (insn_sltiu, 4, 3), (insn_xori, 4, 4), (insn_ori, 4, 6),
     (insn_andi, 4, 7), (insn_addiw, 6, 0)]"

definition sh_table :: "(insn_type_t \<times> u32 \<times> u32 \<times> nat \<times> u32) list" where
  \<comment> \<open>opcode, funct3, width of the shift amount, bits above it\<close>
  "sh_table =
    [(insn_slli, 4, 1, 6, 0), (insn_srli, 4, 5, 6, 0), (insn_srai, 4, 5, 6, 0x10),
     (insn_slliw, 6, 1, 5, 0), (insn_srliw, 6, 5, 5, 0), (insn_sraiw, 6, 5, 5, 0x20)]"

definition s_table :: "(insn_type_t \<times> u32 \<times> u32) list" where
  "s_table = [(insn_sb, 8, 0), (insn_sh, 8, 1), (insn_sw, 8, 2), (insn_sd, 8, 3),
     (insn_fsw, 9, 2), (insn_fsd, 9, 3)]"

definition b_table :: "(insn_type_t \<times> u32) list" where
  "b_table = [(insn_beq, 0), (insn_bne, 1), (insn_blt, 4), (insn_bge, 5), (insn_bltu, 6), (insn_bgeu, 7)]"

definition u_table :: "(insn_type_t \<times> u32) list" where
  "u_table = [(insn_lui, 0xd), (insn_auipc, 0x5)]"

definition csr_table :: "(insn_type_t \<times> u32) list" where
  "csr_table = [(insn_csrrw, 1), (insn_csrrs, 2), (insn_csrrc, 3), (insn_csrrwi, 5),
     (insn_csrrsi, 6), (insn_csrrci, 7)]"

fun encode :: "asm \<Rightarrow> u32 option" where
  "encode (AR t rd r1 r2) = map_option (\<lambda>(opc, f3, f7).
     pack (push_bit 5 f7 OR ucast r2) (ucast r1) f3 (ucast rd) opc) (map_of r_table t)"
| "encode (AR4 t rd r1 r2 r3) = map_option (\<lambda>(opc, f2).
     pack (push_bit 7 (ucast r3) OR push_bit 5 f2 OR ucast r2) (ucast r1) 0 (ucast rd) opc)
     (map_of r4_table t)"
| "encode (AUn t rd r1) = map_option (\<lambda>(f3, f7, sel).
     pack (push_bit 5 f7 OR sel) (ucast r1) f3 (ucast rd) 0x14) (map_of un_table t)"
| "encode (AI t rd r1 imm) = map_option (\<lambda>(opc, f3).
     pack imm (ucast r1) f3 (ucast rd) opc) (map_of i_table t)"
| "encode (ASh t rd r1 sh) = map_option (\<lambda>(opc, f3, w, hb).
     pack (push_bit w hb OR take_bit w sh) (ucast r1) f3 (ucast rd) opc) (map_of sh_table t)"
| "encode (AS t r1 r2 imm) = map_option (\<lambda>(opc, f3).
     pack (push_bit 5 (drop_bit 5 imm) OR ucast r2) (ucast r1) f3 imm opc) (map_of s_table t)"
| "encode (AB t r1 r2 imm) = map_option (\<lambda>f3.
     pack (b_hi imm (ucast r2)) (ucast r1) f3 (b_lo imm) 0x18) (map_of b_table t)"
| "encode (AU t rd imm) = map_option (\<lambda>opc.
     pack (drop_bit 20 imm) (drop_bit 15 imm) (drop_bit 12 imm) (ucast rd) opc) (map_of u_table t)"
| "encode (AJ rd imm) = Some
     (pack (j_hi imm) (drop_bit 15 imm) (drop_bit 12 imm) (ucast rd) 0x1b)"
| "encode (AJalr rd r1 imm) = Some (pack imm (ucast r1) 0 (ucast rd) 0x19)"
| "encode (ACsr t rd r1 csr) = map_option (\<lambda>f3.
     pack (ucast csr) (ucast r1) f3 (ucast rd) 0x1c) (map_of csr_table t)"
| "encode AEcall = Some 0x73"

text \<open>The operands a format can hold.\<close>

fun asm_ok :: "asm \<Rightarrow> bool" where
  "asm_ok (AR t rd r1 r2) \<longleftrightarrow> unat rd < 32 \<and> unat r1 < 32 \<and> unat r2 < 32"
| "asm_ok (AR4 t rd r1 r2 r3) \<longleftrightarrow> unat rd < 32 \<and> unat r1 < 32 \<and> unat r2 < 32 \<and> unat r3 < 32"
| "asm_ok (AUn t rd r1) \<longleftrightarrow> unat rd < 32 \<and> unat r1 < 32"
| "asm_ok (AI t rd r1 imm) \<longleftrightarrow> unat rd < 32 \<and> unat r1 < 32 \<and> signed_take_bit 11 imm = imm"
| "asm_ok (ASh t rd r1 sh) \<longleftrightarrow> unat rd < 32 \<and> unat r1 < 32 \<and>
     (case map_of sh_table t of None \<Rightarrow> False | Some (_, _, w, _) \<Rightarrow> take_bit w sh = sh)"
| "asm_ok (AS t r1 r2 imm) \<longleftrightarrow> unat r1 < 32 \<and> unat r2 < 32 \<and> signed_take_bit 11 imm = imm"
| "asm_ok (AB t r1 r2 imm) \<longleftrightarrow> unat r1 < 32 \<and> unat r2 < 32 \<and> signed_take_bit 12 imm = imm \<and> even imm"
| "asm_ok (AU t rd imm) \<longleftrightarrow> unat rd < 32 \<and> take_bit 12 imm = 0"
| "asm_ok (AJ rd imm) \<longleftrightarrow> unat rd < 32 \<and> signed_take_bit 20 imm = imm \<and> even imm"
| "asm_ok (AJalr rd r1 imm) \<longleftrightarrow> unat rd < 32 \<and> unat r1 < 32 \<and> signed_take_bit 11 imm = imm"
| "asm_ok (ACsr t rd r1 csr) \<longleftrightarrow> unat rd < 32 \<and> unat r1 < 32 \<and> take_bit 12 csr = csr"
| "asm_ok AEcall \<longleftrightarrow> True"

fun asm_insn :: "asm \<Rightarrow> insn_t" where
  "asm_insn (AR t rd r1 r2) =
     zero_insn\<lparr>insn_rs1 := r1, insn_rs2 := r2, insn_rd := rd, insn_type := t\<rparr>"
| "asm_insn (AR4 t rd r1 r2 r3) =
     zero_insn\<lparr>insn_rs1 := r1, insn_rs2 := r2, insn_rs3 := r3, insn_rd := rd, insn_type := t\<rparr>"
| "asm_insn (AUn t rd r1) = zero_insn\<lparr>insn_rs1 := r1, insn_rs2 :=
     (case map_of un_table t of None \<Rightarrow> 0 | Some (_, _, sel) \<Rightarrow> ucast sel),
     insn_rd := rd, insn_type := t\<rparr>"
| "asm_insn (AI t rd r1 imm) =
     zero_insn\<lparr>insn_imm := imm, insn_rs1 := r1, insn_rd := rd, insn_type := t\<rparr>"
| "asm_insn (ASh t rd r1 sh) = zero_insn\<lparr>insn_imm :=
     (case map_of sh_table t of None \<Rightarrow> sh | Some (_, _, w, hb) \<Rightarrow> push_bit w hb OR sh),
     insn_rs1 := r1, insn_rd := rd, insn_type := t\<rparr>"
| "asm_insn (AS t r1 r2 imm) =
     zero_insn\<lparr>insn_imm := imm, insn_rs1 := r1, insn_rs2 := r2, insn_type := t\<rparr>"
| "asm_insn (AB t r1 r2 imm) =
     zero_insn\<lparr>insn_imm := imm, insn_rs1 := r1, insn_rs2 := r2, insn_type := t\<rparr>"
| "asm_insn (AU t rd imm) = zero_insn\<lparr>insn_imm := imm, insn_rd := rd, insn_type := t\<rparr>"
| "asm_insn (AJ rd imm) =
     zero_insn\<lparr>insn_imm := imm, insn_rd := rd, insn_type := insn_jal, insn_cont := True\<rparr>"
| "asm_insn (AJalr rd r1 imm) = zero_insn\<lparr>insn_imm := imm, insn_rs1 := r1, insn_rd := rd,
     insn_type := insn_jalr, insn_cont := True\<rparr>"
| "asm_insn (ACsr t rd r1 csr) =
     zero_insn\<lparr>insn_csr := csr, insn_rs1 := r1, insn_rd := rd, insn_type := t\<rparr>"
| "asm_insn AEcall = zero_insn\<lparr>insn_type := insn_ecall, insn_cont := True\<rparr>"

subsection \<open>Reading the fields back\<close>

lemma bit_pack:
  "20 \<le> n \<Longrightarrow> bit (pack hi r1 f3 lo opc) n = (n < 32 \<and> bit hi (n - 20))"
  "15 \<le> n \<Longrightarrow> n < 20 \<Longrightarrow> bit (pack hi r1 f3 lo opc) n = bit r1 (n - 15)"
  "12 \<le> n \<Longrightarrow> n < 15 \<Longrightarrow> bit (pack hi r1 f3 lo opc) n = bit f3 (n - 12)"
  "7 \<le> n \<Longrightarrow> n < 12 \<Longrightarrow> bit (pack hi r1 f3 lo opc) n = bit lo (n - 7)"
  "2 \<le> n \<Longrightarrow> n < 7 \<Longrightarrow> bit (pack hi r1 f3 lo opc) n = bit opc (n - 2)"
  "n < 2 \<Longrightarrow> bit (pack hi r1 f3 lo opc) n"
  by (simp_all add: pack_def bit_simps) auto

lemma pack_slice:
  "n \<le> 2 \<Longrightarrow> take_bit n (pack hi r1 f3 lo opc) = mask n"
  "2 \<le> k \<Longrightarrow> k + n \<le> 7 \<Longrightarrow> take_bit n (drop_bit k (pack hi r1 f3 lo opc)) = take_bit n (drop_bit (k - 2) opc)"
  "7 \<le> k \<Longrightarrow> k + n \<le> 12 \<Longrightarrow> take_bit n (drop_bit k (pack hi r1 f3 lo opc)) = take_bit n (drop_bit (k - 7) lo)"
  "12 \<le> k \<Longrightarrow> k + n \<le> 15 \<Longrightarrow> take_bit n (drop_bit k (pack hi r1 f3 lo opc)) = take_bit n (drop_bit (k - 12) f3)"
  "15 \<le> k \<Longrightarrow> k + n \<le> 20 \<Longrightarrow> take_bit n (drop_bit k (pack hi r1 f3 lo opc)) = take_bit n (drop_bit (k - 15) r1)"
  "20 \<le> k \<Longrightarrow> k + n \<le> 32 \<Longrightarrow> take_bit n (drop_bit k (pack hi r1 f3 lo opc)) = take_bit n (drop_bit (k - 20) hi)"
  by (rule bit_word_eqI, simp add: bit_simps bit_pack cong: conj_cong)+

lemma pack_fields [simp]:
  "QUADRANT (pack hi r1 f3 lo opc) = 3"
  "OPCODE (pack hi r1 f3 lo opc) = take_bit 5 opc"
  "RD (pack hi r1 f3 lo opc) = take_bit 5 lo"
  "RS1 (pack hi r1 f3 lo opc) = take_bit 5 r1"
  "RS2 (pack hi r1 f3 lo opc) = take_bit 5 hi"
  "RS3 (pack hi r1 f3 lo opc) = take_bit 5 (drop_bit 7 hi)"
  "FUNCT2 (pack hi r1 f3 lo opc) = take_bit 2 (drop_bit 5 hi)"
  "FUNCT3 (pack hi r1 f3 lo opc) = take_bit 3 f3"
  "FUNCT7 (pack hi r1 f3 lo opc) = take_bit 7 (drop_bit 5 hi)"
  "IMM116 (pack hi r1 f3 lo opc) = take_bit 6 (drop_bit 6 hi)"
  by (simp_all add: slice_defs pack_slice mask_eq_exp_minus_1)

lemma reg_take5:
  assumes "unat (r::i8) < 32"
  shows "take_bit 5 (ucast r :: u32) = ucast r"
proof -
  have "unat (ucast r :: u32) = unat r"
    using assms by (simp add: unsigned_ucast_eq take_bit_nat_eq_self)
  with assms show ?thesis by (simp only: word_unat_eq_iff unsigned_take_bit_eq) (simp add: take_bit_nat_eq_self)
qed

lemma ucast_ucast_reg [simp]: "ucast (ucast (r::i8) :: u32) = r"
  by (rule bit_word_eqI) (auto simp: bit_simps)

lemma reg_ucast: "unat (r::i8) < 32 \<Longrightarrow> ucast (take_bit 5 (ucast r :: u32)) = r"
  by (simp add: reg_take5)

lemma itype_pack:
  "insn_itype_read (pack hi r1 f3 lo opc) = zero_insn\<lparr>insn_imm := signed_take_bit 11 hi,
     insn_rs1 := ucast (take_bit 5 r1), insn_rd := ucast (take_bit 5 lo)\<rparr>"
proof -
  have "signed_drop_bit 20 (pack hi r1 f3 lo opc) = signed_take_bit 11 hi"
  proof (rule bit_word_eqI)
    fix n :: nat assume "n < LENGTH(32)"
    then show "bit (signed_drop_bit 20 (pack hi r1 f3 lo opc)) n = bit (signed_take_bit 11 hi) n"
      by (cases "n < 11"; cases "n = 11") (auto simp: bit_pack bit_simps min_def)
  qed
  then show ?thesis by (simp add: insn_itype_read_def)
qed

lemma join_low: "n \<le> k \<Longrightarrow> take_bit n (push_bit k x OR y) = take_bit n (y::u32)"
  by (rule bit_word_eqI) (auto simp: bit_simps)

lemma not_bit_small: "take_bit k y = y \<Longrightarrow> k \<le> n \<Longrightarrow> \<not> bit (y::'a::len word) n"
  by (metis bit_take_bit_iff not_less)

lemma join_high:
  assumes "take_bit k y = (y::u32)" "k \<le> m" "n + m \<le> 32"
  shows "take_bit n (drop_bit m (push_bit k x OR y)) = take_bit n (drop_bit (m - k) x)"
  by (rule bit_word_eqI) (use assms in \<open>auto simp: bit_simps not_bit_small [OF assms(1)]\<close>)

lemma join_mid:
  "m + n \<le> k \<Longrightarrow> take_bit n (drop_bit m (push_bit k x OR y)) = take_bit n (drop_bit m (y::u32))"
  by (rule bit_word_eqI) (auto simp: bit_simps)

lemma join_fit:
  assumes "take_bit k y = (y::u32)" "take_bit n x = x" "n + k \<le> m"
  shows "take_bit m (push_bit k x OR y) = push_bit k x OR y"
proof (rule bit_word_eqI)
  fix i
  have "\<not> bit y i" if "m \<le> i" using assms(3) that by (intro not_bit_small [OF assms(1)]) simp
  moreover have "\<not> bit x (i - k)" if "m \<le> i" using assms(3) that by (intro not_bit_small [OF assms(2)]) simp
  ultimately show "bit (take_bit m (push_bit k x OR y)) i = bit (push_bit k x OR y) i"
    by (cases "i < m") (auto simp: bit_simps)
qed

text \<open>Adjacent slices of a word put back together.\<close>

lemma slice_join: "push_bit k (take_bit n (drop_bit k w)) OR take_bit k w = take_bit (n + k) (w::u32)"
  by (rule bit_word_eqI) (auto simp: bit_simps)

lemma slice_even: "even w \<Longrightarrow> push_bit 1 (take_bit n (drop_bit 1 w)) = take_bit (Suc n) (w::u32)"
proof -
  assume "even w"
  then have "take_bit 1 w = 0" by (simp add: even_iff_mod_2_eq_zero take_bit_eq_mod)
  with slice_join [of 1 n w] show ?thesis by simp
qed

lemma rtype_pack:
  "insn_rtype_read (pack hi r1 f3 lo opc) = zero_insn\<lparr>insn_rs1 := ucast (take_bit 5 r1),
     insn_rs2 := ucast (take_bit 5 hi), insn_rd := ucast (take_bit 5 lo)\<rparr>"
  by (simp add: insn_rtype_read_def)

lemma fprtype_pack:
  "insn_fprtype_read (pack hi r1 f3 lo opc) = zero_insn\<lparr>insn_rs1 := ucast (take_bit 5 r1),
     insn_rs2 := ucast (take_bit 5 hi), insn_rs3 := ucast (take_bit 5 (drop_bit 7 hi)),
     insn_rd := ucast (take_bit 5 lo)\<rparr>"
  by (simp add: insn_fprtype_read_def)

lemma csrtype_pack:
  "insn_csrtype_read (pack hi r1 f3 lo opc) = zero_insn\<lparr>insn_csr := ucast (take_bit 12 hi),
     insn_rs1 := ucast (take_bit 5 r1), insn_rd := ucast (take_bit 5 lo)\<rparr>"
proof -
  have "drop_bit 20 (pack hi r1 f3 lo opc) = take_bit 12 hi"
    by (rule bit_word_eqI) (auto simp: bit_simps bit_pack)
  then show ?thesis by (simp add: insn_csrtype_read_def)
qed

lemma stype_pack:
  "insn_stype_read (pack (push_bit 5 (drop_bit 5 imm) OR hi) r1 f3 imm opc) =
     zero_insn\<lparr>insn_imm := signed_take_bit 11 imm, insn_rs1 := ucast (take_bit 5 r1),
       insn_rs2 := ucast (take_bit 5 hi)\<rparr>"
  if "take_bit 5 hi = hi"
proof -
  have "push_bit 5 (take_bit 7 (drop_bit 5 imm)) OR take_bit 5 imm = take_bit 12 imm"
    by (rule bit_word_eqI) (auto simp: bit_simps)
  then show ?thesis using that
    by (simp add: insn_stype_read_def Let_def and_slice pack_slice sext_eq signed_take_bit_take_bit
        join_high join_low del: take_bit_or drop_bit_or)
qed

lemma b_hi_fields:
  assumes "take_bit 5 r2 = r2"
  shows "take_bit 1 (drop_bit 11 (b_hi imm r2)) = take_bit 1 (drop_bit 12 imm)"
    "take_bit 6 (drop_bit 5 (b_hi imm r2)) = take_bit 6 (drop_bit 5 imm)"
    "take_bit 5 (b_hi imm r2) = r2"
proof -
  have f: "take_bit 11 (push_bit 5 (take_bit 6 (drop_bit 5 imm)) OR r2) =
      push_bit 5 (take_bit 6 (drop_bit 5 imm)) OR r2"
    by (rule join_fit [where n = 6]) (simp_all add: assms)
  show "take_bit 1 (drop_bit 11 (b_hi imm r2)) = take_bit 1 (drop_bit 12 imm)"
    unfolding b_hi_def by (subst join_high [OF f]) simp_all
  show "take_bit 6 (drop_bit 5 (b_hi imm r2)) = take_bit 6 (drop_bit 5 imm)"
    unfolding b_hi_def by (subst join_mid, simp) (subst join_high [OF assms]; simp)
  show "take_bit 5 (b_hi imm r2) = r2"
    unfolding b_hi_def by (simp add: join_low assms del: take_bit_or)
qed

lemma btype_pack:
  assumes "take_bit 5 r2 = r2" "even imm"
  shows "insn_btype_read (pack (b_hi imm r2) r1 f3 (b_lo imm) opc) =
     zero_insn\<lparr>insn_imm := signed_take_bit 12 imm, insn_rs1 := ucast (take_bit 5 r1),
       insn_rs2 := ucast r2\<rparr>"
proof -
  let ?p = "pack (b_hi imm r2) r1 f3 (b_lo imm) opc"
  have e: "take_bit 1 (drop_bit 31 ?p) = take_bit 1 (drop_bit 12 imm)"
    "take_bit 6 (drop_bit 25 ?p) = take_bit 6 (drop_bit 5 imm)"
    "take_bit 4 (drop_bit 8 ?p) = take_bit 4 (drop_bit 1 imm)"
    "take_bit 1 (drop_bit 7 ?p) = take_bit 1 (drop_bit 11 imm)"
    using b_hi_fields [OF assms(1), of imm]
    by (simp_all only: pack_slice) (simp_all del: One_nat_def take_bit_or drop_bit_or
        add: b_lo_def join_high join_low)
  have i: "push_bit 12 (take_bit 1 (drop_bit 12 imm)) OR push_bit 11 (take_bit 1 (drop_bit 11 imm)) OR
     push_bit 5 (take_bit 6 (drop_bit 5 imm)) OR push_bit 1 (take_bit 4 (drop_bit 1 imm)) = take_bit 13 imm"
    using slice_join [of 12 1 imm] slice_join [of 11 1 imm] slice_join [of 5 6 imm]
    by (simp del: One_nat_def take_bit_Suc_0 add: slice_even [OF assms(2)])
  show ?thesis
    by (simp only: insn_btype_read_def Let_def and_slice e i pack_fields b_hi_fields [OF assms(1)]) (simp add: sext_eq signed_take_bit_take_bit)
qed

lemma j_hi_fields:
  "take_bit 1 (drop_bit 11 (j_hi imm)) = take_bit 1 (drop_bit 20 imm)"
  "take_bit 10 (drop_bit 1 (j_hi imm)) = take_bit 10 (drop_bit 1 imm)"
  "take_bit 1 (j_hi imm) = take_bit 1 (drop_bit 11 imm)"
proof -
  have f: "take_bit 11 (push_bit 1 (take_bit 10 (drop_bit 1 imm)) OR take_bit 1 (drop_bit 11 imm)) =
      push_bit 1 (take_bit 10 (drop_bit 1 imm)) OR take_bit 1 (drop_bit 11 imm)"
    by (rule join_fit [where n = 10]) (simp_all del: One_nat_def)
  show "take_bit 1 (drop_bit 11 (j_hi imm)) = take_bit 1 (drop_bit 20 imm)"
    unfolding j_hi_def by (subst join_high [OF f]) simp_all
  show "take_bit 10 (drop_bit 1 (j_hi imm)) = take_bit 10 (drop_bit 1 imm)"
    unfolding j_hi_def by (subst join_mid, simp) (subst join_high; simp del: One_nat_def)
  show "take_bit 1 (j_hi imm) = take_bit 1 (drop_bit 11 imm)"
    unfolding j_hi_def by (simp add: join_low del: take_bit_or One_nat_def)
qed

lemma jtype_pack:
  assumes "even imm"
  shows "insn_jtype_read (pack (j_hi imm) (drop_bit 15 imm) (drop_bit 12 imm) lo opc) =
     zero_insn\<lparr>insn_imm := signed_take_bit 20 imm, insn_rd := ucast (take_bit 5 lo)\<rparr>"
proof -
  let ?p = "pack (j_hi imm) (drop_bit 15 imm) (drop_bit 12 imm) lo opc"
  have "take_bit 8 (drop_bit 12 ?p) = take_bit 8 (drop_bit 12 imm)"
  proof (rule bit_word_eqI)
    fix n show "bit (take_bit 8 (drop_bit 12 ?p)) n = bit (take_bit 8 (drop_bit 12 imm)) n"
      by (cases "n < 3") (auto simp: bit_simps bit_pack)
  qed
  moreover have "take_bit 1 (drop_bit 31 ?p) = take_bit 1 (drop_bit 20 imm)"
    "take_bit 10 (drop_bit 21 ?p) = take_bit 10 (drop_bit 1 imm)"
    "take_bit 1 (drop_bit 20 ?p) = take_bit 1 (drop_bit 11 imm)"
    using j_hi_fields [of imm] by (simp_all only: pack_slice) simp_all
  moreover have "push_bit 20 (take_bit 1 (drop_bit 20 imm)) OR push_bit 12 (take_bit 8 (drop_bit 12 imm)) OR
     push_bit 11 (take_bit 1 (drop_bit 11 imm)) OR push_bit 1 (take_bit 10 (drop_bit 1 imm)) = take_bit 21 imm"
    using slice_join [of 20 1 imm] slice_join [of 12 8 imm] slice_join [of 11 1 imm]
    by (simp del: One_nat_def take_bit_Suc_0 add: slice_even [OF assms])
  ultimately show ?thesis
    by (simp only: insn_jtype_read_def Let_def and_slice pack_fields)
      (simp add: sext_eq signed_take_bit_take_bit)
qed

lemma utype_pack:
  "insn_utype_read (pack (drop_bit 20 imm) (drop_bit 15 imm) (drop_bit 12 imm) lo opc) =
     zero_insn\<lparr>insn_imm := push_bit 12 (drop_bit 12 imm), insn_rd := ucast (take_bit 5 lo)\<rparr>"
proof -
  let ?p = "pack (drop_bit 20 imm) (drop_bit 15 imm) (drop_bit 12 imm) lo opc"
  have m: "(0xfffff000 :: u32) = NOT (mask 12)" by (simp add: mask_eq_exp_minus_1)
  have "?p AND 0xfffff000 = push_bit 12 (drop_bit 12 imm)"
    unfolding m
  proof (rule bit_word_eqI)
    fix n :: nat assume "n < LENGTH(32)"
    then show "bit (?p AND NOT (mask 12)) n = bit (push_bit 12 (drop_bit 12 imm)) n"
      by (cases "n < 12"; cases "n < 15"; cases "n < 20") (auto simp: bit_simps bit_pack)
  qed
  then show ?thesis by (simp add: insn_utype_read_def)
qed

subsection \<open>Dispatch on the opcode and function fields\<close>

lemma join7: "take_bit 5 r2 = r2 \<Longrightarrow> take_bit 7 (drop_bit 5 (push_bit 5 f7 OR r2)) = take_bit 7 (f7::u32)"
  by (simp add: join_high del: take_bit_or drop_bit_or)

lemma decode_r:
  assumes "(t, opc, f3, f7) \<in> set r_table" and "take_bit 7 (drop_bit 5 hi) = f7"
  shows "insn_decode old (pack hi r1 f3 lo opc) =
    Inr (zero_insn\<lparr>insn_rs1 := ucast (take_bit 5 r1), insn_rs2 := ucast (take_bit 5 hi),
      insn_rd := ucast (take_bit 5 lo), insn_type := t\<rparr>)"
  using assms unfolding r_table_def
  by (auto simp: decode_defs type_switch_def as_type_def rtype_pack)

lemma decode_r4:
  assumes "(t, opc, f2) \<in> set r4_table" and "take_bit 2 (drop_bit 5 hi) = f2"
  shows "insn_decode old (pack hi r1 f3 lo opc) =
    Inr (zero_insn\<lparr>insn_rs1 := ucast (take_bit 5 r1), insn_rs2 := ucast (take_bit 5 hi),
      insn_rs3 := ucast (take_bit 5 (drop_bit 7 hi)), insn_rd := ucast (take_bit 5 lo), insn_type := t\<rparr>)"
  using assms unfolding r4_table_def
  by (auto simp: decode_defs type_switch_def as_type_def fprtype_pack)

lemma decode_un:
  assumes "(t, f3, f7, sel) \<in> set un_table" and "take_bit 7 (drop_bit 5 hi) = f7" "take_bit 5 hi = sel"
  shows "insn_decode old (pack hi r1 f3 lo 0x14) =
    Inr (zero_insn\<lparr>insn_rs1 := ucast (take_bit 5 r1), insn_rs2 := ucast sel,
      insn_rd := ucast (take_bit 5 lo), insn_type := t\<rparr>)"
  using assms unfolding un_table_def
  by (auto simp: decode_defs type_switch_def as_type_def rtype_pack)

lemma decode_i:
  assumes "(t, opc, f3) \<in> set i_table"
  shows "insn_decode old (pack hi r1 f3 lo opc) =
    Inr (zero_insn\<lparr>insn_imm := signed_take_bit 11 hi, insn_rs1 := ucast (take_bit 5 r1),
      insn_rd := ucast (take_bit 5 lo), insn_type := t\<rparr>)"
  using assms unfolding i_table_def
  by (auto simp: decode_defs type_switch_def as_type_def itype_pack)

lemma decode_s:
  assumes "(t, opc, f3) \<in> set s_table" and "take_bit 5 r2 = r2"
  shows "insn_decode old (pack (push_bit 5 (drop_bit 5 imm) OR r2) r1 f3 imm opc) =
    Inr (zero_insn\<lparr>insn_imm := signed_take_bit 11 imm, insn_rs1 := ucast (take_bit 5 r1),
      insn_rs2 := ucast r2, insn_type := t\<rparr>)"
  using assms(1) unfolding s_table_def
  by (auto simp: decode_defs type_switch_def as_type_def stype_pack [OF assms(2)] assms(2))

lemma decode_b:
  assumes "(t, f3) \<in> set b_table" and "take_bit 5 r2 = r2" "even imm"
  shows "insn_decode old (pack (b_hi imm r2) r1 f3 (b_lo imm) 0x18) =
    Inr (zero_insn\<lparr>insn_imm := signed_take_bit 12 imm, insn_rs1 := ucast (take_bit 5 r1),
      insn_rs2 := ucast r2, insn_type := t\<rparr>)"
proof -
  have *: "insn_decode old (pack hi r1 f3 lo 0x18) = decode_branch (pack hi r1 f3 lo 0x18)" for hi r1 f3 lo
    by (simp add: insn_decode_def decode_q3_def)
  show ?thesis
    using assms(1) unfolding b_table_def * decode_branch_def btype_pack [OF assms(2,3)]
    by (simp, elim disjE conjE, simp_all add: type_switch_def as_type_def)
qed

lemma decode_csr:
  assumes "(t, f3) \<in> set csr_table"
  shows "insn_decode old (pack hi r1 f3 lo 0x1c) =
    Inr (zero_insn\<lparr>insn_csr := ucast (take_bit 12 hi), insn_rs1 := ucast (take_bit 5 r1),
      insn_rd := ucast (take_bit 5 lo), insn_type := t\<rparr>)"
proof -
  have f: "f3 \<in> {1, 2, 3, 5, 6, 7}"
    using assms unfolding csr_table_def by (simp, elim disjE conjE, simp_all)
  then have "take_bit 3 f3 \<noteq> 0" by (elim insertE) simp_all
  moreover have "FUNCT3 (pack hi r1 f3 lo 0x1c) = take_bit 3 f3" by simp
  moreover have "FUNCT3 0x73 = 0" by (simp add: FUNCT3_def)
  ultimately have "FUNCT3 (pack hi r1 f3 lo 0x1c) \<noteq> FUNCT3 0x73" by presburger
  then have "pack hi r1 f3 lo 0x1c \<noteq> 0x73" by (rule contrapos_nn) (rule arg_cong)
  then have *: "insn_decode old (pack hi r1 f3 lo 0x1c) = type_switch (insn_csrtype_read (pack hi r1 f3 lo 0x1c)) (take_bit 3 f3)
        [(0x1, insn_csrrw), (0x2, insn_csrrs), (0x3, insn_csrrc), (0x5, insn_csrrwi),
         (0x6, insn_csrrsi), (0x7, insn_csrrci)]"
    by (simp add: insn_decode_def decode_q3_def decode_system_def)
  show ?thesis
    using assms unfolding csr_table_def * csrtype_pack
    by (simp, elim disjE conjE, simp_all add: type_switch_def as_type_def)
qed

lemma decode_u:
  assumes "(t, opc) \<in> set u_table"
  shows "insn_decode old (pack (drop_bit 20 imm) (drop_bit 15 imm) (drop_bit 12 imm) lo opc) =
    Inr (zero_insn\<lparr>insn_imm := push_bit 12 (drop_bit 12 imm), insn_rd := ucast (take_bit 5 lo), insn_type := t\<rparr>)"
  using assms unfolding u_table_def
  by (simp, elim disjE conjE, simp_all add: insn_decode_def decode_q3_def as_type_def utype_pack)

lemma decode_sh_fields:
  assumes "(t, opc, f3, w, hb) \<in> set sh_table" and "take_bit (12 - w) (drop_bit w hi) = hb"
  shows "insn_decode old (pack hi r1 f3 lo opc) =
    Inr (zero_insn\<lparr>insn_imm := signed_take_bit 11 hi, insn_rs1 := ucast (take_bit 5 r1),
      insn_rd := ucast (take_bit 5 lo), insn_type := t\<rparr>)"
  using assms unfolding sh_table_def
  by (simp, elim disjE conjE, simp_all add: decode_defs type_switch_def as_type_def itype_pack)

lemma signed_small: "take_bit n x = x \<Longrightarrow> signed_take_bit n x = (x::u32)"
  by (simp add: signed_take_bit_eq_if_positive not_bit_small [of n x n])

lemma sh_table_fit:
  "(t, opc, f3, w, hb) \<in> set sh_table \<Longrightarrow> w \<le> 6 \<and> take_bit (11 - w) hb = hb \<and> take_bit (12 - w) hb = hb"
  unfolding sh_table_def by (simp, elim disjE conjE, simp_all)

lemma decode_sh:
  assumes "(t, opc, f3, w, hb) \<in> set sh_table" and "take_bit w sh = sh"
  shows "insn_decode old (pack (push_bit w hb OR sh) r1 f3 lo opc) =
    Inr (zero_insn\<lparr>insn_imm := push_bit w hb OR sh, insn_rs1 := ucast (take_bit 5 r1),
      insn_rd := ucast (take_bit 5 lo), insn_type := t\<rparr>)"
proof -
  note fit = sh_table_fit [OF assms(1)]
  have "take_bit 11 (push_bit w hb OR sh) = push_bit w hb OR sh"
    using fit by (intro join_fit [OF assms(2), of "11 - w"]) auto
  then have "signed_take_bit 11 (push_bit w hb OR sh) = push_bit w hb OR sh"
    by (rule signed_small)
  moreover have "take_bit (12 - w) (drop_bit w (push_bit w hb OR sh)) = hb"
    using fit by (subst join_high [OF assms(2)]) auto
  ultimately show ?thesis by (simp only: decode_sh_fields [OF assms(1)])
qed

subsection \<open>The decoder inverts the assembler\<close>

lemma imm_low12: "take_bit 12 imm = 0 \<Longrightarrow> push_bit 12 (drop_bit 12 imm) = (imm::u32)"
  using bits_ident [of 12 imm] by simp

lemma r4_table_fit: "(t, opc, f2) \<in> set r4_table \<Longrightarrow> take_bit 2 f2 = f2"
  unfolding r4_table_def by (simp, elim disjE conjE, simp_all)

lemma r_table_fit: "(t, opc, f3, f7) \<in> set r_table \<Longrightarrow> take_bit 7 f7 = f7"
  unfolding r_table_def by (simp, elim disjE conjE, simp_all)

lemma un_table_fit: "(t, f3, f7, sel) \<in> set un_table \<Longrightarrow> take_bit 7 f7 = f7 \<and> take_bit 5 sel = sel"
  unfolding un_table_def by (simp, elim disjE conjE, simp_all)

lemma join_r4:
  assumes "take_bit 5 r2 = r2" "take_bit 2 f2 = f2" "take_bit 5 r3 = (r3::u32)"
  shows "take_bit 5 (drop_bit 7 (push_bit 7 r3 OR push_bit 5 f2 OR r2)) = r3"
    "take_bit 2 (drop_bit 5 (push_bit 7 r3 OR push_bit 5 f2 OR r2)) = f2"
    "take_bit 5 (push_bit 7 r3 OR push_bit 5 f2 OR r2) = r2"
proof -
  have "take_bit 7 (push_bit 5 f2 OR r2) = push_bit 5 f2 OR r2"
    by (rule join_fit [OF assms(1,2)]) simp
  then show "take_bit 5 (drop_bit 7 (push_bit 7 r3 OR push_bit 5 f2 OR r2)) = r3"
    by (simp add: join_high assms(3) del: take_bit_or drop_bit_or)
  show "take_bit 2 (drop_bit 5 (push_bit 7 r3 OR push_bit 5 f2 OR r2)) = f2"
    by (simp add: join_mid join_high assms del: take_bit_or drop_bit_or)
  show "take_bit 5 (push_bit 7 r3 OR push_bit 5 f2 OR r2) = r2"
    by (simp add: join_low assms del: take_bit_or)
qed

lemma csr_ucast:
  assumes "take_bit 12 (csr::i16) = csr"
  shows "ucast (take_bit 12 (ucast csr :: u32)) = csr"
proof (rule bit_word_eqI)
  fix n :: nat assume "n < LENGTH(16)"
  then show "bit (ucast (take_bit 12 (ucast csr :: u32)) :: i16) n = bit csr n"
    using not_bit_small [OF assms, of n] by (cases "n < 12") (auto simp: bit_simps)
qed

lemmas operand_simps = join7 join_low reg_take5 reg_ucast join_r4 imm_low12 csr_ucast

lemma decode_encode_R:
  assumes "asm_ok a" "encode a = Some w"
    and "a = AR t rd r1 r2 \<or> a = AR4 t rd r1 r2 r3 \<or> a = AUn t rd r1"
  shows "insn_decode zero_insn w = Inr (asm_insn a)"
  using assms
  by (auto simp: map_of_SomeD [THEN decode_r] map_of_SomeD [THEN decode_r4] map_of_SomeD [THEN decode_un]
      operand_simps map_of_SomeD [THEN r_table_fit] map_of_SomeD [THEN un_table_fit]
      map_of_SomeD [THEN r4_table_fit] simp del: take_bit_or drop_bit_or)

lemma decode_encode_I:
  assumes "asm_ok a" "encode a = Some w"
    and "a = AI t rd r1 imm \<or> a = AS t r1 r2 imm \<or> a = AB t r1 r2 imm \<or> a = AU t rd imm \<or>
         a = ACsr t rd r1 csr"
  shows "insn_decode zero_insn w = Inr (asm_insn a)"
  using assms
  by (auto dest!: map_of_SomeD simp: decode_i decode_s decode_b decode_u decode_csr operand_simps
      simp del: take_bit_or drop_bit_or)

lemma decode_encode_Sh:
  assumes "asm_ok (ASh t rd r1 sh)" "encode (ASh t rd r1 sh) = Some w"
  shows "insn_decode zero_insn w = Inr (asm_insn (ASh t rd r1 sh))"
  using assms by (auto simp: map_of_SomeD [THEN decode_sh] operand_simps split: option.splits
      simp del: take_bit_or drop_bit_or)

lemma decode_encode_jump:
  assumes "asm_ok a" "encode a = Some w" and "a = AJ rd imm \<or> a = AJalr rd r1 imm"
  shows "insn_decode zero_insn w = Inr (asm_insn a)"
  using assms by (auto simp: insn_decode_def decode_q3_def jtype_pack itype_pack operand_simps)

lemma decode_encode_ecall: "insn_decode zero_insn 0x73 = Inr (asm_insn AEcall)"
  by (simp add: insn_decode_def decode_q3_def decode_system_def field_defs)

lemma decode_encode_all:
  assumes "asm_ok a" "encode a = Some w"
  shows "insn_decode zero_insn w = Inr (asm_insn a)"
proof (cases a)
  case AEcall
  with assms decode_encode_ecall show ?thesis by simp
next
  case (ASh t rd r1 sh)
  with assms decode_encode_Sh show ?thesis by metis
qed (use assms in \<open>blast intro: decode_encode_R decode_encode_I decode_encode_jump\<close>)+



end
