(* ===== verification/Interp_Utils.thy ===== *)
theory Interp_Utils
  imports Riscvemu_H
begin

unbundle bit_operations_syntax

text \<open>
  \<^verbatim>\<open>inc/interpret_utils.h\<close>: the high halves of 128-bit products computed from 32-bit halves, sign
  injection and the classification of floating-point bit patterns, with the arithmetic meaning
  of each.
\<close>

subsection \<open>High products\<close>

definition mulhu :: "u64 \<Rightarrow> u64 \<Rightarrow> u64" where
  "mulhu a b =
     (let a0 = ucast (ucast a :: u32); a1 = drop_bit 32 a;
          b0 = ucast (ucast b :: u32); b1 = drop_bit 32 b;
          t = a1 * b0 + drop_bit 32 (a0 * b0);
          y1 = (ucast t :: u32); y2 = (ucast (drop_bit 32 t) :: u32);
          t = a0 * b1 + ucast y1;
          t = a1 * b1 + ucast y2 + drop_bit 32 t;
          y2 = (ucast t :: u32); y3 = (ucast (drop_bit 32 t) :: u32)
      in push_bit 32 (ucast y3) OR ucast y2)"

text \<open>
  The C code negates and multiplies \<^verbatim>\<open>int64_t\<close> values with the wrap-around its compilers give
  them.
\<close>

definition mulh :: "i64 \<Rightarrow> i64 \<Rightarrow> i64" where
  "mulh a b =
     (let negate = (a <s 0) \<noteq> (b <s 0);
          res = mulhu (if a <s 0 then - a else a) (if b <s 0 then - b else b)
      in if negate then NOT res + (if a * b = 0 then 1 else 0) else res)"

definition mulhsu :: "i64 \<Rightarrow> u64 \<Rightarrow> i64" where
  "mulhsu a b =
     (let negate = a <s 0;
          res = mulhu (if a <s 0 then - a else a) b
      in if negate then NOT res + (if a * b = 0 then 1 else 0) else res)"

text \<open>The schoolbook product on halves to base \<open>K\<close>.\<close>

lemma div_rem: "r < d \<Longrightarrow> (q * d + r) div d = (q::nat)"
  by simp

lemma schoolbook_high:
  fixes A0 A1 B0 B1 K :: nat
  assumes "0 < K"
  defines "T1 \<equiv> A1 * B0 + A0 * B0 div K"
  defines "T2 \<equiv> A0 * B1 + T1 mod K"
  shows "(A1 * K + A0) * (B1 * K + B0) div (K * K) = A1 * B1 + T1 div K + T2 div K"
proof -
  let ?r = "A0 * B0 mod K"
  have mult_split: "x * K = x div K * (K * K) + x mod K * K" for x
    using arg_cong [OF div_mult_mod_eq [of x K], of "\<lambda>y. y * K"] by (simp only: add_mult_distrib mult.assoc)
  have "T2 mod K * K + ?r < K * K"
  proof -
    have "T2 mod K * K + K \<le> K * K"
      using mod_less_divisor [OF assms(1), of T2] mult_le_mono1 [of "Suc (T2 mod K)" K K] by simp
    then show ?thesis using mod_less_divisor [OF assms(1), of "A0 * B0"] by linarith
  qed
  moreover have "(A1 * K + A0) * (B1 * K + B0) = (A1 * B1 + T1 div K + T2 div K) * (K * K) + (T2 mod K * K + ?r)"
  proof -
    have "(A1 * K + A0) * (B1 * K + B0) = A1 * B1 * (K * K) + A0 * B1 * K + A1 * B0 * K + A0 * B0"
      by (simp add: algebra_simps)
    also have "\<dots> = A1 * B1 * (K * K) + A0 * B1 * K + T1 * K + ?r"
      using div_mult_mod_eq [of "A0 * B0" K] by (simp add: T1_def algebra_simps)
    also have "\<dots> = A1 * B1 * (K * K) + T1 div K * (K * K) + T2 * K + ?r"
      using mult_split [of T1] by (simp add: T2_def algebra_simps)
    also have "\<dots> = (A1 * B1 + T1 div K + T2 div K) * (K * K) + (T2 mod K * K + ?r)"
      using mult_split [of T2] by (simp add: algebra_simps)
    finally show ?thesis .
  qed
  ultimately show ?thesis by (simp only: div_rem)
qed

lemma halves_bound:
  "x < 4294967296 \<Longrightarrow> y < 4294967296 \<Longrightarrow> (x::nat) * y \<le> 18446744065119617025"
  using mult_le_mono [of x 4294967295 y 4294967295] by simp

lemma unat_lo32: "unat (ucast (ucast (a::u64) :: u32) :: u64) = unat a mod 4294967296"
  by (simp add: unsigned_ucast_eq take_bit_eq_mod unat_mod_distrib)

lemma unat_hi32: "unat (drop_bit 32 (a::u64)) = unat a div 4294967296"
  by (simp add: drop_bit_eq_div unat_div_distrib)

lemma join_halves: "push_bit 32 (drop_bit 32 (t::u64)) OR ucast (ucast t :: u32) = t"
  by (rule bit_word_eqI) (auto simp: bit_simps)

lemma ucast_hi32: "ucast (ucast (drop_bit 32 (t::u64)) :: u32) = drop_bit 32 t"
  by (rule bit_word_eqI) (auto simp: bit_simps dest: bit_imp_le_length)

lemma unat_mulhu: "unat (mulhu a b) = unat a * unat b div 2 ^ 64"
proof -
  let ?K = "4294967296 :: nat"
  define A0 A1 B0 B1 where "A0 = unat a mod ?K" "A1 = unat a div ?K" "B0 = unat b mod ?K" "B1 = unat b div ?K"
  note d = this
  have lt: "A0 < ?K" "A1 < ?K" "B0 < ?K" "B1 < ?K"
    using unat_u64_lt [of a] unat_u64_lt [of b] by (auto simp: d)
  define T1 T2 where "T1 = A1 * B0 + A0 * B0 div ?K" "T2 = A0 * B1 + T1 mod ?K"
  note t = this
  have p: "A0 * B0 div ?K < ?K" "T1 < 2 ^ 64" "T2 < 2 ^ 64" "A1 * B1 + T1 div ?K + T2 div ?K < 2 ^ 64"
  proof -
    show 1: "A0 * B0 div ?K < ?K" using halves_bound [OF lt(1,3)] by linarith
    show 2: "T1 < 2 ^ 64" using halves_bound [OF lt(2,3)] 1 by (simp add: t)
    show 3: "T2 < 2 ^ 64" using halves_bound [OF lt(1,4)] mod_less_divisor [of ?K T1] by (simp add: t)
    show "A1 * B1 + T1 div ?K + T2 div ?K < 2 ^ 64"
      using halves_bound [OF lt(2,4)] less_mult_imp_div_less [of T1 ?K ?K] less_mult_imp_div_less [of T2 ?K ?K] 2 3
      by simp
  qed
  have "unat (mulhu a b) = A1 * B1 + T1 div ?K + T2 div ?K"
    using p halves_bound [OF lt(1,3)] halves_bound [OF lt(2,3)] halves_bound [OF lt(1,4)]
      halves_bound [OF lt(2,4)]
    by (simp add: mulhu_def Let_def join_halves ucast_hi32 unat_word_ariths unat_lo32 unat_hi32
        d [symmetric] t)
  also have "\<dots> = (A1 * ?K + A0) * (B1 * ?K + B0) div (?K * ?K)"
    unfolding t by (rule schoolbook_high [symmetric]) simp
  also have "\<dots> = unat a * unat b div 2 ^ 64" by (simp add: d)
  finally show ?thesis .
qed

text \<open>As integers: the high half of the exact product, rounded down.\<close>

lemma mulhu_int: "mulhu a b = word_of_int (uint a * uint b div 2 ^ 64)"
proof -
  have "uint (mulhu a b) = int (unat (mulhu a b))" by simp
  also have "\<dots> = uint a * uint b div 2 ^ 64" unfolding unat_mulhu by (simp add: zdiv_int)
  finally show ?thesis by (metis word_of_int_uint)
qed

lemma neg_div_int:
  fixes u :: int assumes "0 < k"
  shows "(- u) div k = - (u div k) - (if u mod k = 0 then 0 else 1)"
  using assms by (simp add: zdiv_zminus1_eq_if)

lemma sint64_range: "- 9223372036854775808 \<le> sint (a::i64)" "sint (a::i64) < 9223372036854775808"
  using sint_ge [of a] sint_lt [of a] by simp_all

lemma uint_abs64:
  "a <s (0::i64) \<Longrightarrow> uint (- a) = - sint a" "\<not> a <s (0::i64) \<Longrightarrow> uint a = sint a"
proof -
  assume "a <s (0::i64)"
  then have "sint a < 0" by (simp add: word_sless_alt)
  moreover have "- a = word_of_int (- sint a)" by simp
  then have "uint (- a) = take_bit 64 (- sint a)" by (simp only: uint_word_of_int_eq) simp
  ultimately show "uint (- a) = - sint a" using sint64_range [of a] by (simp add: take_bit_int_eq_self)
next
  assume "\<not> a <s (0::i64)"
  then have "0 \<le> sint a" by (simp add: word_sless_alt)
  then show "uint a = sint a" using sint64_range [of a] by (simp add: uint_sint take_bit_int_eq_self)
qed

text \<open>Negating a high product, with the carry out of the low half.\<close>

lemma negate_high:
  fixes x y p :: u64 and u :: int
  assumes "uint x * uint y = u" and "p = word_of_int u \<or> p = word_of_int (- u)"
  shows "NOT (mulhu x y) + (if p = 0 then 1 else 0) = word_of_int ((- u) div 2 ^ 64)"
proof -
  have "(word_of_int u :: u64) = 0 \<longleftrightarrow> u mod 2 ^ 64 = 0"
    by (simp add: word_of_int_eq_0_iff dvd_eq_mod_eq_0)
  moreover have "(word_of_int (- u) :: u64) = 0 \<longleftrightarrow> (word_of_int u :: u64) = 0" by simp
  ultimately have p: "p = 0 \<longleftrightarrow> u mod 2 ^ 64 = 0" using assms(2) by auto
  have "NOT (mulhu x y) = word_of_int (- (u div 2 ^ 64) - 1)"
    by (simp add: mulhu_int assms(1) not_eq_complement)
  then show ?thesis unfolding p neg_div_int [of "2 ^ 64", simplified] by (simp add: neg_div_int)
qed

lemma mulh_int: "mulh a b = word_of_int (sint a * sint b div 2 ^ 64)"
proof -
  define x y where "x = (if a <s 0 then - a else a)" "y = (if b <s 0 then - b else b)"
  note xy = this
  have u: "uint x * uint y = (if (a <s 0) \<noteq> (b <s 0) then - (sint a * sint b) else sint a * sint b)"
    by (auto simp: xy uint_abs64)
  have p: "word_of_int (- (- (sint a * sint b))) = a * b" by simp
  show ?thesis
  proof (cases "(a <s 0) \<noteq> (b <s 0)")
    case True
    with u have "uint x * uint y = - (sint a * sint b)" by simp
    from negate_high [OF this, of "a * b"] p True show ?thesis
      unfolding mulh_def Let_def xy [symmetric] by simp
  next
    case False
    with u show ?thesis unfolding mulh_def Let_def xy [symmetric] by (simp add: mulhu_int)
  qed
qed

lemma mulhsu_int: "mulhsu a b = word_of_int (sint a * uint b div 2 ^ 64)"
proof (cases "a <s 0")
  case True
  then have "uint (- a) * uint b = - (sint a * uint b)" by (simp add: uint_abs64)
  from negate_high [OF this, of "a * b"] True show ?thesis by (simp add: mulhsu_def Let_def)
next
  case False
  then show ?thesis by (simp add: mulhsu_def Let_def mulhu_int uint_abs64)
qed

subsection \<open>Sign injection\<close>

definition F32_SIGN :: u32 where "F32_SIGN = push_bit 31 1"
definition F64_SIGN :: u64 where "F64_SIGN = push_bit 63 1"

definition fsgnj32 :: "u32 \<Rightarrow> u32 \<Rightarrow> bool \<Rightarrow> bool \<Rightarrow> u32" where
  "fsgnj32 a b n x = (let v = (if x then a else if n then F32_SIGN else 0)
     in (a AND NOT F32_SIGN) OR ((v XOR b) AND F32_SIGN))"

definition fsgnj64 :: "u64 \<Rightarrow> u64 \<Rightarrow> bool \<Rightarrow> bool \<Rightarrow> u64" where
  "fsgnj64 a b n x = (let v = (if x then a else if n then F64_SIGN else 0)
     in (a AND NOT F64_SIGN) OR ((v XOR b) AND F64_SIGN))"

text \<open>The sign bit of the result; the other bits are those of the first operand.\<close>

definition injected_sign :: "bool \<Rightarrow> bool \<Rightarrow> bool \<Rightarrow> bool \<Rightarrow> bool" where
  "injected_sign sa sb n x = (if x then sa \<noteq> sb else if n then \<not> sb else sb)"

lemma bit_F32_SIGN: "bit F32_SIGN i \<longleftrightarrow> i = 31"
  unfolding F32_SIGN_def by (subst bit_push_bit_iff) (auto simp: bit_1_iff)

lemma bit_F64_SIGN: "bit F64_SIGN i \<longleftrightarrow> i = 63"
  unfolding F64_SIGN_def by (subst bit_push_bit_iff) (auto simp: bit_1_iff)

lemma bit_fsgnj32:
  "bit (fsgnj32 a b n x) i = (if i = 31 then injected_sign (bit a 31) (bit b 31) n x else bit a i)"
  by (auto simp: fsgnj32_def bit_F32_SIGN injected_sign_def Let_def bit_simps dest: bit_imp_le_length)

lemma bit_fsgnj64:
  "bit (fsgnj64 a b n x) i = (if i = 63 then injected_sign (bit a 63) (bit b 63) n x else bit a i)"
  by (auto simp: fsgnj64_def bit_F64_SIGN injected_sign_def Let_def bit_simps dest: bit_imp_le_length)

subsection \<open>Classification\<close>

definition cbit :: "bool \<Rightarrow> nat \<Rightarrow> u16" where
  "cbit b k = push_bit k (of_bool b)"

definition signF32UI :: "u32 \<Rightarrow> bool" where "signF32UI a \<longleftrightarrow> drop_bit 31 a \<noteq> 0"
definition expF32UI :: "u32 \<Rightarrow> u32" where "expF32UI a = drop_bit 23 a AND 0xFF"
definition fracF32UI :: "u32 \<Rightarrow> u32" where "fracF32UI a = a AND 0x007FFFFF"
definition isNaNF32UI :: "u32 \<Rightarrow> bool" where
  "isNaNF32UI a \<longleftrightarrow> NOT a AND 0x7F800000 = 0 \<and> a AND 0x007FFFFF \<noteq> 0"
definition isSigNaNF32UI :: "u32 \<Rightarrow> bool" where
  "isSigNaNF32UI a \<longleftrightarrow> a AND 0x7FC00000 = 0x7F800000 \<and> a AND 0x003FFFFF \<noteq> 0"

definition f32_classify :: "f32 \<Rightarrow> u16" where
  "f32_classify uiA =
     (let infOrNaN = (expF32UI uiA = 0xFF);
          subnormalOrZero = (expF32UI uiA = 0);
          sign = signF32UI uiA;
          fracZero = (fracF32UI uiA = 0);
          isNaN = isNaNF32UI uiA;
          isSNaN = isSigNaNF32UI uiA
      in cbit (sign \<and> infOrNaN \<and> fracZero) 0 OR
         cbit (sign \<and> \<not> infOrNaN \<and> \<not> subnormalOrZero) 1 OR
         cbit (sign \<and> subnormalOrZero \<and> \<not> fracZero) 2 OR
         cbit (sign \<and> subnormalOrZero \<and> fracZero) 3 OR
         cbit (\<not> sign \<and> infOrNaN \<and> fracZero) 7 OR
         cbit (\<not> sign \<and> \<not> infOrNaN \<and> \<not> subnormalOrZero) 6 OR
         cbit (\<not> sign \<and> subnormalOrZero \<and> \<not> fracZero) 5 OR
         cbit (\<not> sign \<and> subnormalOrZero \<and> fracZero) 4 OR
         cbit (isNaN \<and> isSNaN) 8 OR
         cbit (isNaN \<and> \<not> isSNaN) 9)"

definition signF64UI :: "u64 \<Rightarrow> bool" where "signF64UI a \<longleftrightarrow> drop_bit 63 a \<noteq> 0"
definition expF64UI :: "u64 \<Rightarrow> u64" where "expF64UI a = drop_bit 52 a AND 0x7FF"
definition fracF64UI :: "u64 \<Rightarrow> u64" where "fracF64UI a = a AND 0x000FFFFFFFFFFFFF"
definition isNaNF64UI :: "u64 \<Rightarrow> bool" where
  "isNaNF64UI a \<longleftrightarrow> NOT a AND 0x7FF0000000000000 = 0 \<and> a AND 0x000FFFFFFFFFFFFF \<noteq> 0"
definition isSigNaNF64UI :: "u64 \<Rightarrow> bool" where
  "isSigNaNF64UI a \<longleftrightarrow> a AND 0x7FF8000000000000 = 0x7FF0000000000000 \<and> a AND 0x0007FFFFFFFFFFFF \<noteq> 0"

definition f64_classify :: "f64 \<Rightarrow> u16" where
  "f64_classify uiA =
     (let infOrNaN = (expF64UI uiA = 0x7FF);
          subnormalOrZero = (expF64UI uiA = 0);
          sign = signF64UI uiA;
          fracZero = (fracF64UI uiA = 0);
          isNaN = isNaNF64UI uiA;
          isSNaN = isSigNaNF64UI uiA
      in cbit (sign \<and> infOrNaN \<and> fracZero) 0 OR
         cbit (sign \<and> \<not> infOrNaN \<and> \<not> subnormalOrZero) 1 OR
         cbit (sign \<and> subnormalOrZero \<and> \<not> fracZero) 2 OR
         cbit (sign \<and> subnormalOrZero \<and> fracZero) 3 OR
         cbit (\<not> sign \<and> infOrNaN \<and> fracZero) 7 OR
         cbit (\<not> sign \<and> \<not> infOrNaN \<and> \<not> subnormalOrZero) 6 OR
         cbit (\<not> sign \<and> subnormalOrZero \<and> \<not> fracZero) 5 OR
         cbit (\<not> sign \<and> subnormalOrZero \<and> fracZero) 4 OR
         cbit (isNaN \<and> isSNaN) 8 OR
         cbit (isNaN \<and> \<not> isSNaN) 9)"

text \<open>The class numbers of the RISC-V manual, from the three fields of the pattern.\<close>

definition fclass_spec :: "bool \<Rightarrow> bool \<Rightarrow> bool \<Rightarrow> bool \<Rightarrow> bool \<Rightarrow> nat" where
  "fclass_spec sign emax e0 frac0 quiet =
     (if emax then (if frac0 then (if sign then 0 else 7) else if quiet then 9 else 8)
      else if e0 then (if frac0 then (if sign then 3 else 4) else if sign then 2 else 5)
      else if sign then 1 else 6)"

lemma and_field: "a AND push_bit k (mask n) = push_bit k (take_bit n (drop_bit k (a::'a::len word)))"
  by (rule bit_word_eqI) (auto simp: bit_simps)

lemma push_field_eq:
  assumes "k + n \<le> LENGTH('a::len)"
  shows "push_bit k (take_bit n x) = push_bit k (take_bit n y) \<longleftrightarrow> take_bit n x = take_bit n (y::'a word)"
proof
  assume "push_bit k (take_bit n x) = push_bit k (take_bit n y)"
  then have b: "bit (push_bit k (take_bit n x)) (k + i) = bit (push_bit k (take_bit n y)) (k + i)" for i
    by simp
  show "take_bit n x = take_bit n y"
  proof (rule bit_word_eqI)
    fix i assume "i < LENGTH('a)"
    show "bit (take_bit n x) i = bit (take_bit n y) i"
      using b [of i] assms by (cases "i < n") (simp_all add: bit_simps)
  qed
qed simp

lemma not_and_zero: "NOT a AND m = 0 \<longleftrightarrow> a AND m = (m::'a::len word)"
  by (auto simp: bit_eq_iff bit_simps)

lemma all_ones_field:
  assumes "k + n \<le> LENGTH('a::len)"
  shows "NOT a AND push_bit k (mask n) = 0 \<longleftrightarrow> take_bit n (drop_bit k (a::'a word)) = mask n"
  using push_field_eq [OF assms, of "drop_bit k a" "mask n"]
  unfolding not_and_zero unfolding and_field by (simp add: take_bit_of_mask)

lemma split_field:
  assumes "Suc n + k \<le> LENGTH('a::len)"
  shows "a AND push_bit k (mask (Suc n)) = push_bit (Suc k) (mask n) \<longleftrightarrow>
     take_bit n (drop_bit (Suc k) (a::'a word)) = mask n \<and> \<not> bit a k"
proof
  assume e: "a AND push_bit k (mask (Suc n)) = push_bit (Suc k) (mask n)"
  have b: "bit (a AND push_bit k (mask (Suc n))) i = bit (push_bit (Suc k) (mask n) :: 'a word) i" for i
    by (simp only: e)
  have "\<not> bit a k" using b [of k] assms by (auto simp: bit_simps simp del: push_bit_Suc)
  moreover have "bit a (Suc k + i)" if "i < n" for i
    using b [of "Suc k + i"] that assms by (auto simp: bit_simps simp del: push_bit_Suc)
  then have "take_bit n (drop_bit (Suc k) a) = mask n"
    using assms by (intro bit_word_eqI) (auto simp: bit_simps simp del: push_bit_Suc)
  ultimately show "take_bit n (drop_bit (Suc k) a) = mask n \<and> \<not> bit a k" by simp
next
  assume r: "take_bit n (drop_bit (Suc k) a) = mask n \<and> \<not> bit a k"
  have b: "bit a (Suc k + i)" if "i < n" for i
  proof -
    have "bit (take_bit n (drop_bit (Suc k) a)) i = bit (mask n :: 'a word) i" using r by simp
    with that assms show ?thesis by (simp add: bit_simps del: push_bit_Suc)
  qed
  show "a AND push_bit k (mask (Suc n)) = push_bit (Suc k) (mask n)"
  proof (rule bit_word_eqI)
    fix i assume "i < LENGTH('a)"
    show "bit (a AND push_bit k (mask (Suc n))) i = bit (push_bit (Suc k) (mask n) :: 'a word) i"
      using r b [of "i - Suc k"] \<open>i < LENGTH('a)\<close> by (cases "i = k"; cases "Suc k \<le> i") (auto simp: bit_simps simp del: push_bit_Suc)
  qed
qed

lemma cbit_simps [simp]: "cbit False k = 0" "cbit True k = push_bit k 1"
  by (simp_all add: cbit_def)

lemma take_bit_clear_top: "\<not> bit a n \<Longrightarrow> take_bit (Suc n) a = take_bit n (a::'a::len word)"
  by (rule bit_word_eqI) (auto simp: bit_simps less_Suc_eq)

lemma nan32_fields:
  "isNaNF32UI a \<longleftrightarrow> expF32UI a = 0xFF \<and> fracF32UI a \<noteq> 0"
  "isNaNF32UI a \<and> isSigNaNF32UI a \<longleftrightarrow> expF32UI a = 0xFF \<and> fracF32UI a \<noteq> 0 \<and> \<not> bit a 22"
proof -
  have m: "(0x7F800000 :: u32) = push_bit 23 (mask 8)" "(0xFF :: u32) = mask 8"
    "(0x7FC00000 :: u32) = push_bit 22 (mask (Suc 8))" "(0x007FFFFF :: u32) = mask 23" "(0x003FFFFF :: u32) = mask 22"
    by (simp_all add: mask_eq_exp_minus_1)
  have e: "expF32UI a = take_bit 8 (drop_bit 23 a)" "fracF32UI a = take_bit 23 a"
    unfolding expF32UI_def fracF32UI_def m by (simp_all add: take_bit_eq_mask)
  have low: "take_bit 22 a \<noteq> 0" if "take_bit 23 a \<noteq> 0" "\<not> bit a 22"
  proof
    assume "take_bit 22 a = 0"
    moreover have "take_bit 23 a = take_bit 22 a"
      using take_bit_clear_top [OF that(2)] by simp
    ultimately show False using that(1) by simp
  qed
  show n: "isNaNF32UI a \<longleftrightarrow> expF32UI a = 0xFF \<and> fracF32UI a \<noteq> 0"
    unfolding isNaNF32UI_def e m by (subst all_ones_field) (simp_all add: take_bit_eq_mask)
  show "isNaNF32UI a \<and> isSigNaNF32UI a \<longleftrightarrow> expF32UI a = 0xFF \<and> fracF32UI a \<noteq> 0 \<and> \<not> bit a 22"
    unfolding n isSigNaNF32UI_def e m
    using split_field [of 8 22 a] low by (auto simp: take_bit_eq_mask)
qed

lemma nan64_fields:
  "isNaNF64UI a \<longleftrightarrow> expF64UI a = 0x7FF \<and> fracF64UI a \<noteq> 0"
  "isNaNF64UI a \<and> isSigNaNF64UI a \<longleftrightarrow> expF64UI a = 0x7FF \<and> fracF64UI a \<noteq> 0 \<and> \<not> bit a 51"
proof -
  have m: "(0x7FF0000000000000 :: u64) = push_bit 52 (mask 11)" "(0x7FF :: u64) = mask 11"
    "(0x7FF8000000000000 :: u64) = push_bit 51 (mask (Suc 11))" "(0x000FFFFFFFFFFFFF :: u64) = mask 52" "(0x0007FFFFFFFFFFFF :: u64) = mask 51"
    by (simp_all add: mask_eq_exp_minus_1)
  have e: "expF64UI a = take_bit 11 (drop_bit 52 a)" "fracF64UI a = take_bit 52 a"
    unfolding expF64UI_def fracF64UI_def m by (simp_all add: take_bit_eq_mask)
  have low: "take_bit 51 a \<noteq> 0" if "take_bit 52 a \<noteq> 0" "\<not> bit a 51"
  proof
    assume "take_bit 51 a = 0"
    moreover have "take_bit 52 a = take_bit 51 a"
      using take_bit_clear_top [OF that(2)] by simp
    ultimately show False using that(1) by simp
  qed
  show n: "isNaNF64UI a \<longleftrightarrow> expF64UI a = 0x7FF \<and> fracF64UI a \<noteq> 0"
    unfolding isNaNF64UI_def e m by (subst all_ones_field) (simp_all add: take_bit_eq_mask)
  show "isNaNF64UI a \<and> isSigNaNF64UI a \<longleftrightarrow> expF64UI a = 0x7FF \<and> fracF64UI a \<noteq> 0 \<and> \<not> bit a 51"
    unfolding n isSigNaNF64UI_def e m
    using split_field [of 11 51 a] low by (auto simp: take_bit_eq_mask)
qed

lemma f32_classify_spec:
  "f32_classify a = push_bit (fclass_spec (signF32UI a) (expF32UI a = 0xFF) (expF32UI a = 0)
     (fracF32UI a = 0) (bit a 22)) 1"
proof -
  have q: "isNaNF32UI a \<and> \<not> isSigNaNF32UI a \<longleftrightarrow> expF32UI a = 0xFF \<and> fracF32UI a \<noteq> 0 \<and> bit a 22"
    using nan32_fields [of a] by blast
  show ?thesis
    unfolding f32_classify_def Let_def fclass_spec_def nan32_fields(2) q
    by (cases "signF32UI a"; cases "expF32UI a = 0xFF"; cases "expF32UI a = 0"; cases "fracF32UI a = 0";
        cases "bit a 22") (simp_all del: push_bit_of_1)
qed

lemma f64_classify_spec:
  "f64_classify a = push_bit (fclass_spec (signF64UI a) (expF64UI a = 0x7FF) (expF64UI a = 0)
     (fracF64UI a = 0) (bit a 51)) 1"
proof -
  have q: "isNaNF64UI a \<and> \<not> isSigNaNF64UI a \<longleftrightarrow> expF64UI a = 0x7FF \<and> fracF64UI a \<noteq> 0 \<and> bit a 51"
    using nan64_fields [of a] by blast
  show ?thesis
    unfolding f64_classify_def Let_def fclass_spec_def nan64_fields(2) q
    by (cases "signF64UI a"; cases "expF64UI a = 0x7FF"; cases "expF64UI a = 0"; cases "fracF64UI a = 0";
        cases "bit a 51") (simp_all del: push_bit_of_1)
qed

subsection \<open>Properties of the arithmetic helpers\<close>

text \<open>
  C17. The three high-product helpers, which add partial products of 32-bit halves, return the
  upper 64 bits of the exact 128-bit product, for unsigned, signed and mixed operands.
\<close>
theorem mulh_family_correct:
  "mulhu a b = word_of_int (uint a * uint b div 2 ^ 64) \<and>
   mulh a b = word_of_int (sint a * sint b div 2 ^ 64) \<and>
   mulhsu a b = word_of_int (sint a * uint b div 2 ^ 64)"
  by (simp only: mulhu_int mulh_int mulhsu_int)

text \<open>
  C25. \<^verbatim>\<open>f32_classify\<close> and \<^verbatim>\<open>f64_classify\<close> set exactly one of ten bits, the one the manual assigns to
  the sign, exponent and fraction of the pattern.
\<close>
theorem classify_correct:
  "f32_classify a = push_bit (fclass_spec (signF32UI a) (expF32UI a = 0xFF) (expF32UI a = 0)
     (fracF32UI a = 0) (bit a 22)) 1 \<and>
   f64_classify b = push_bit (fclass_spec (signF64UI b) (expF64UI b = 0x7FF) (expF64UI b = 0)
     (fracF64UI b = 0) (bit b 51)) 1"
  by (simp only: f32_classify_spec f64_classify_spec)

text \<open>
  Sign injection keeps every bit of the first operand but the sign, which it takes from
  the second, negates, or combines by exclusive or.
\<close>
lemma fsgnj_correct:
  "bit (fsgnj32 a b n x) i = (if i = 31 then injected_sign (bit a 31) (bit b 31) n x else bit a i) \<and>
   bit (fsgnj64 c d n x) i = (if i = 63 then injected_sign (bit c 63) (bit d 63) n x else bit c i)"
  by (simp only: bit_fsgnj32 bit_fsgnj64)

end
