(* ===== verification/Ieee.thy ===== *)
theory Ieee
  imports Riscvemu_H
begin

text \<open>
  The C types \<^verbatim>\<open>float\<close> and \<^verbatim>\<open>double\<close> as the interpreter uses them on its x86-64 host: IEEE 754
  binary32 and binary64 in the default rounding mode (to nearest, ties to even), on bit
  patterns. A format is given by its number \<open>p\<close> of fraction bits and \<open>w\<close> of exponent bits.
  Finite values are unpacked to a significand and an exponent, combined exactly and rounded
  once. Which NaN an operation returns is left open by C; the model takes the SSE rule (the first
  NaN operand made quiet, or the default NaN).
\<close>

subsection \<open>Unpacking\<close>

datatype fval = NaN | Inf bool | Fin bool nat int

definition bias :: "nat \<Rightarrow> int" where
  "bias w = 2 ^ (w - 1) - 1"

definition emin :: "nat \<Rightarrow> nat \<Rightarrow> int" where
  "emin p w = 1 - bias w - int p"

definition inf_pat :: "nat \<Rightarrow> nat \<Rightarrow> nat" where
  "inf_pat p w = (2 ^ w - 1) * 2 ^ p"

definition sign_pat :: "nat \<Rightarrow> nat \<Rightarrow> bool \<Rightarrow> nat" where
  "sign_pat p w s = (if s then 2 ^ (p + w) else 0)"

definition unpack :: "nat \<Rightarrow> nat \<Rightarrow> nat \<Rightarrow> fval" where
  "unpack p w x =
     (let s = odd (x div 2 ^ (p + w)); e = x div 2 ^ p mod 2 ^ w; f = x mod 2 ^ p in
      if e = 2 ^ w - 1 then (if f = 0 then Inf s else NaN)
      else if e = 0 then Fin s f (emin p w)
      else Fin s (2 ^ p + f) (int e - 1 + emin p w))"

subsection \<open>Rounding\<close>

fun bitlen :: "nat \<Rightarrow> nat" where
  "bitlen n = (if n = 0 then 0 else Suc (bitlen (n div 2)))"

declare bitlen.simps [simp del]

text \<open>\<open>m\<close> divided by \<open>2 ^ k\<close> to nearest, ties to even; \<open>sticky\<close> tells that the exact value lies
  strictly between \<open>m\<close> and \<open>m + 1\<close>.\<close>

definition rne :: "nat \<Rightarrow> nat \<Rightarrow> bool \<Rightarrow> nat" where
  "rne m k sticky =
     (let q = m div 2 ^ k; r = m mod 2 ^ k; h = 2 ^ (k - 1) in
      if r > h \<or> (r = h \<and> (sticky \<or> odd q)) then q + 1 else q)"

definition round_pack :: "nat \<Rightarrow> nat \<Rightarrow> bool \<Rightarrow> nat \<Rightarrow> int \<Rightarrow> bool \<Rightarrow> nat" where
  "round_pack p w s m e sticky =
     (if m = 0 then sign_pat p w s
      else let q = max (e + int (bitlen m) - int (p + 1)) (emin p w);
               m' = (if q \<le> e then m * 2 ^ nat (e - q) else rne m (nat (q - e)) sticky);
               u = nat (q - emin p w) * 2 ^ p + m'
           in sign_pat p w s + min u (inf_pat p w))"

subsection \<open>Arithmetic\<close>

definition quiet :: "nat \<Rightarrow> nat \<Rightarrow> nat" where
  "quiet p x = (if odd (x div 2 ^ (p - 1)) then x else x + 2 ^ (p - 1))"

definition default_nan :: "nat \<Rightarrow> nat \<Rightarrow> nat" where
  "default_nan p w = 2 ^ (p + w) + inf_pat p w + 2 ^ (p - 1)"

definition nan_result :: "nat \<Rightarrow> nat \<Rightarrow> nat \<Rightarrow> nat \<Rightarrow> nat" where
  "nan_result p w x y = (if unpack p w x = NaN then quiet p x else quiet p y)"

definition signed_val :: "bool \<Rightarrow> nat \<Rightarrow> int" where
  "signed_val s m = (if s then - int m else int m)"

definition add_fin :: "nat \<Rightarrow> nat \<Rightarrow> bool \<Rightarrow> nat \<Rightarrow> int \<Rightarrow> bool \<Rightarrow> nat \<Rightarrow> int \<Rightarrow> nat" where
  "add_fin p w s1 m1 e1 s2 m2 e2 =
     (let e = min e1 e2;
          v = signed_val s1 m1 * 2 ^ nat (e1 - e) + signed_val s2 m2 * 2 ^ nat (e2 - e)
      in if v = 0 then sign_pat p w (s1 \<and> s2)
         else round_pack p w (v < 0) (nat \<bar>v\<bar>) e False)"

definition fadd :: "nat \<Rightarrow> nat \<Rightarrow> nat \<Rightarrow> nat \<Rightarrow> nat" where
  "fadd p w x y = (case (unpack p w x, unpack p w y) of
     (NaN, _) \<Rightarrow> nan_result p w x y
   | (_, NaN) \<Rightarrow> nan_result p w x y
   | (Inf a, Inf b) \<Rightarrow> if a = b then x else default_nan p w
   | (Inf _, Fin _ _ _) \<Rightarrow> x
   | (Fin _ _ _, Inf _) \<Rightarrow> y
   | (Fin s1 m1 e1, Fin s2 m2 e2) \<Rightarrow> add_fin p w s1 m1 e1 s2 m2 e2)"

definition fneg :: "nat \<Rightarrow> nat \<Rightarrow> nat \<Rightarrow> nat" where
  "fneg p w x = (if odd (x div 2 ^ (p + w)) then x - 2 ^ (p + w) else x + 2 ^ (p + w))"

definition fsub :: "nat \<Rightarrow> nat \<Rightarrow> nat \<Rightarrow> nat \<Rightarrow> nat" where
  "fsub p w x y = (if unpack p w y = NaN then nan_result p w x y else fadd p w x (fneg p w y))"

definition fmul :: "nat \<Rightarrow> nat \<Rightarrow> nat \<Rightarrow> nat \<Rightarrow> nat" where
  "fmul p w x y = (case (unpack p w x, unpack p w y) of
     (NaN, _) \<Rightarrow> nan_result p w x y
   | (_, NaN) \<Rightarrow> nan_result p w x y
   | (Inf a, Inf b) \<Rightarrow> sign_pat p w (a \<noteq> b) + inf_pat p w
   | (Inf a, Fin s m _) \<Rightarrow> if m = 0 then default_nan p w else sign_pat p w (a \<noteq> s) + inf_pat p w
   | (Fin s m _, Inf b) \<Rightarrow> if m = 0 then default_nan p w else sign_pat p w (s \<noteq> b) + inf_pat p w
   | (Fin s1 m1 e1, Fin s2 m2 e2) \<Rightarrow> round_pack p w (s1 \<noteq> s2) (m1 * m2) (e1 + e2) False)"

definition div_fin :: "nat \<Rightarrow> nat \<Rightarrow> bool \<Rightarrow> nat \<Rightarrow> int \<Rightarrow> nat \<Rightarrow> int \<Rightarrow> nat" where
  "div_fin p w s m1 e1 m2 e2 =
     (let k = p + 3 + bitlen m2; n = m1 * 2 ^ k
      in round_pack p w s (n div m2) (e1 - e2 - int k) (n mod m2 \<noteq> 0))"

definition fdiv :: "nat \<Rightarrow> nat \<Rightarrow> nat \<Rightarrow> nat \<Rightarrow> nat" where
  "fdiv p w x y = (case (unpack p w x, unpack p w y) of
     (NaN, _) \<Rightarrow> nan_result p w x y
   | (_, NaN) \<Rightarrow> nan_result p w x y
   | (Inf a, Inf b) \<Rightarrow> default_nan p w
   | (Inf a, Fin s _ _) \<Rightarrow> sign_pat p w (a \<noteq> s) + inf_pat p w
   | (Fin s _ _, Inf b) \<Rightarrow> sign_pat p w (s \<noteq> b)
   | (Fin s1 m1 e1, Fin s2 m2 e2) \<Rightarrow>
       if m2 = 0 then (if m1 = 0 then default_nan p w else sign_pat p w (s1 \<noteq> s2) + inf_pat p w)
       else if m1 = 0 then sign_pat p w (s1 \<noteq> s2)
       else div_fin p w (s1 \<noteq> s2) m1 e1 m2 e2)"

fun isqrt_bits :: "nat \<Rightarrow> nat \<Rightarrow> nat \<Rightarrow> nat" where
  "isqrt_bits 0 n r = r"
| "isqrt_bits (Suc b) n r = isqrt_bits b n (if (r + 2 ^ b) * (r + 2 ^ b) \<le> n then r + 2 ^ b else r)"

definition isqrt :: "nat \<Rightarrow> nat" where
  "isqrt n = isqrt_bits (bitlen n) n 0"

definition fsqrt :: "nat \<Rightarrow> nat \<Rightarrow> nat \<Rightarrow> nat" where
  "fsqrt p w x = (case unpack p w x of
     NaN \<Rightarrow> quiet p x
   | Inf s \<Rightarrow> if s then default_nan p w else x
   | Fin s m e \<Rightarrow>
       if m = 0 then x
       else if s then default_nan p w
       else let k = 2 * (p + 3) + (if even e then 0 else 1); n = m * 2 ^ k; r = isqrt n
            in round_pack p w False r ((e - int k) div 2) (r * r \<noteq> n))"

subsection \<open>Comparison\<close>

definition fval_lt :: "fval \<Rightarrow> fval \<Rightarrow> bool" where
  "fval_lt x y = (case (x, y) of
     (NaN, _) \<Rightarrow> False | (_, NaN) \<Rightarrow> False
   | (Inf a, Inf b) \<Rightarrow> a \<and> \<not> b
   | (Inf a, Fin _ _ _) \<Rightarrow> a
   | (Fin _ _ _, Inf b) \<Rightarrow> \<not> b
   | (Fin s1 m1 e1, Fin s2 m2 e2) \<Rightarrow> (let e = min e1 e2 in
       signed_val s1 m1 * 2 ^ nat (e1 - e) < signed_val s2 m2 * 2 ^ nat (e2 - e)))"

definition fval_eq :: "fval \<Rightarrow> fval \<Rightarrow> bool" where
  "fval_eq x y \<longleftrightarrow> x \<noteq> NaN \<and> y \<noteq> NaN \<and> \<not> fval_lt x y \<and> \<not> fval_lt y x"

definition flt :: "nat \<Rightarrow> nat \<Rightarrow> nat \<Rightarrow> nat \<Rightarrow> bool" where
  "flt p w x y = fval_lt (unpack p w x) (unpack p w y)"

definition feq :: "nat \<Rightarrow> nat \<Rightarrow> nat \<Rightarrow> nat \<Rightarrow> bool" where
  "feq p w x y = fval_eq (unpack p w x) (unpack p w y)"

definition fle :: "nat \<Rightarrow> nat \<Rightarrow> nat \<Rightarrow> nat \<Rightarrow> bool" where
  "fle p w x y \<longleftrightarrow> flt p w x y \<or> feq p w x y"

subsection \<open>Conversions\<close>

definition of_integer :: "nat \<Rightarrow> nat \<Rightarrow> int \<Rightarrow> nat" where
  "of_integer p w i = round_pack p w (i < 0) (nat \<bar>i\<bar>) 0 False"

definition llrint_pat :: "nat \<Rightarrow> nat \<Rightarrow> nat \<Rightarrow> i64" where
  "llrint_pat p w x = (case unpack p w x of
     Fin s m e \<Rightarrow>
       (let v = signed_val s (if 0 \<le> e then m * 2 ^ nat e else rne m (nat (- e)) False)
        in if - (2 ^ 63) \<le> v \<and> v < 2 ^ 63 then word_of_int v else 0x8000000000000000)
   | _ \<Rightarrow> 0x8000000000000000)"

definition refmt :: "nat \<Rightarrow> nat \<Rightarrow> nat \<Rightarrow> nat \<Rightarrow> nat \<Rightarrow> nat" where
  "refmt p w p' w' x = (case unpack p w x of
     NaN \<Rightarrow> quiet p' (sign_pat p' w' (odd (x div 2 ^ (p + w))) + inf_pat p' w' +
       (x mod 2 ^ p) * 2 ^ p' div 2 ^ p)
   | Inf s \<Rightarrow> sign_pat p' w' s + inf_pat p' w'
   | Fin s m e \<Rightarrow> round_pack p' w' s m e False)"

subsection \<open>On machine words\<close>

definition f32_op2 :: "(nat \<Rightarrow> nat \<Rightarrow> nat \<Rightarrow> nat \<Rightarrow> nat) \<Rightarrow> f32 \<Rightarrow> f32 \<Rightarrow> f32" where
  "f32_op2 f a b = of_nat (f 23 8 (unat a) (unat b))"

definition f64_op2 :: "(nat \<Rightarrow> nat \<Rightarrow> nat \<Rightarrow> nat \<Rightarrow> nat) \<Rightarrow> f64 \<Rightarrow> f64 \<Rightarrow> f64" where
  "f64_op2 f a b = of_nat (f 52 11 (unat a) (unat b))"

definition f32_op1 :: "(nat \<Rightarrow> nat \<Rightarrow> nat \<Rightarrow> nat) \<Rightarrow> f32 \<Rightarrow> f32" where
  "f32_op1 f a = of_nat (f 23 8 (unat a))"

definition f64_op1 :: "(nat \<Rightarrow> nat \<Rightarrow> nat \<Rightarrow> nat) \<Rightarrow> f64 \<Rightarrow> f64" where
  "f64_op1 f a = of_nat (f 52 11 (unat a))"

definition f32_rel :: "(nat \<Rightarrow> nat \<Rightarrow> nat \<Rightarrow> nat \<Rightarrow> bool) \<Rightarrow> f32 \<Rightarrow> f32 \<Rightarrow> bool" where
  "f32_rel f a b = f 23 8 (unat a) (unat b)"

definition f64_rel :: "(nat \<Rightarrow> nat \<Rightarrow> nat \<Rightarrow> nat \<Rightarrow> bool) \<Rightarrow> f64 \<Rightarrow> f64 \<Rightarrow> bool" where
  "f64_rel f a b = f 52 11 (unat a) (unat b)"

definition f32_of_int :: "int \<Rightarrow> f32" where
  "f32_of_int i = of_nat (of_integer 23 8 i)"

definition f64_of_int :: "int \<Rightarrow> f64" where
  "f64_of_int i = of_nat (of_integer 52 11 i)"

definition llrintf :: "f32 \<Rightarrow> i64" where
  "llrintf a = llrint_pat 23 8 (unat a)"

definition llrint :: "f64 \<Rightarrow> i64" where
  "llrint a = llrint_pat 52 11 (unat a)"

definition f32_of_f64 :: "f64 \<Rightarrow> f32" where
  "f32_of_f64 a = of_nat (refmt 52 11 23 8 (unat a))"

definition f64_of_f32 :: "f32 \<Rightarrow> f64" where
  "f64_of_f32 a = of_nat (refmt 23 8 52 11 (unat a))"

subsection \<open>Correctness of the building blocks\<close>

lemma bitlen_0 [simp]: "bitlen 0 = 0"
  by (simp add: bitlen.simps)

lemma bitlen_upper: "n < 2 ^ bitlen n"
proof (induction n rule: bitlen.induct)
  case (1 n)
  show ?case
  proof (cases "n = 0")
    case False
    with 1 have "n div 2 < 2 ^ bitlen (n div 2)" by simp
    then show ?thesis using False by (subst bitlen.simps) simp
  qed simp
qed

lemma bitlen_lower: "0 < n \<Longrightarrow> 2 ^ (bitlen n - 1) \<le> n"
proof (induction n rule: bitlen.induct)
  case (1 n)
  show ?case
  proof (cases "n div 2 = 0")
    case True
    then show ?thesis using 1(2) by (subst bitlen.simps) simp
  next
    case False
    with 1 have "2 ^ (bitlen (n div 2) - 1) \<le> n div 2" by simp
    moreover have "bitlen (n div 2) = Suc (bitlen (n div 2) - 1)"
      using False bitlen.simps [of "n div 2"] by simp
    ultimately have "2 ^ bitlen (n div 2) \<le> 2 * (n div 2)"
      by (metis mult_le_mono2 power_Suc)
    also have "\<dots> \<le> n" by simp
    finally show ?thesis using 1(2) by (subst bitlen.simps) simp
  qed
qed

lemma bitlen_le: "n < 2 ^ k \<Longrightarrow> bitlen n \<le> k"
proof (rule ccontr)
  assume "n < 2 ^ k" "\<not> bitlen n \<le> k"
  then have "0 < n" "k \<le> bitlen n - 1" by (auto intro: Nat.gr0I)
  from this(2) have "(2::nat) ^ k \<le> 2 ^ (bitlen n - 1)" by (rule power_increasing) simp
  with bitlen_lower [OF \<open>0 < n\<close>] \<open>n < 2 ^ k\<close> show False by linarith
qed

lemma bitlen_eq: "2 ^ k \<le> n \<Longrightarrow> n < 2 ^ Suc k \<Longrightarrow> bitlen n = Suc k"
proof -
  assume n: "2 ^ k \<le> n" "n < 2 ^ Suc k"
  have "\<not> bitlen n \<le> k"
  proof
    assume "bitlen n \<le> k"
    then have "(2::nat) ^ bitlen n \<le> 2 ^ k" by (rule power_increasing) simp
    with bitlen_upper [of n] n(1) show False by linarith
  qed
  with bitlen_le [OF n(2)] show ?thesis by simp
qed

lemma isqrt_bits_correct:
  assumes "r * r \<le> n" "n < (r + 2 ^ b) * (r + 2 ^ b)"
  shows "isqrt_bits b n r * isqrt_bits b n r \<le> n \<and> n < Suc (isqrt_bits b n r) * Suc (isqrt_bits b n r)"
  using assms
proof (induction b arbitrary: r)
  case (Suc b)
  have e: "r + 2 ^ b + 2 ^ b = r + 2 ^ Suc b" by simp
  show ?case
  proof (cases "(r + 2 ^ b) * (r + 2 ^ b) \<le> n")
    case True
    with Suc.IH [of "r + 2 ^ b"] Suc.prems(2) show ?thesis by (simp only: e isqrt_bits.simps if_True)
  next
    case False
    with Suc.IH [of r] Suc.prems(1) show ?thesis by simp
  qed
qed simp

lemma isqrt_correct: "isqrt n * isqrt n \<le> n \<and> n < Suc (isqrt n) * Suc (isqrt n)"
  unfolding isqrt_def
proof (rule isqrt_bits_correct)
  have "n < 2 ^ bitlen n" by (rule bitlen_upper)
  also have "\<dots> \<le> 2 ^ bitlen n * 2 ^ bitlen n" by simp
  finally show "n < (0 + 2 ^ bitlen n) * (0 + 2 ^ bitlen n)" by simp
qed simp

text \<open>The rounded quotient is within half a unit of the exact one.\<close>

lemma rne_error:
  assumes "0 < k"
  shows "2 * m \<le> 2 * (rne m k False * 2 ^ k) + 2 ^ k \<and> 2 * (rne m k False * 2 ^ k) \<le> 2 * m + 2 ^ k"
proof -
  define q r h where "q = m div 2 ^ k" "r = m mod 2 ^ k" "h = (2::nat) ^ (k - 1)"
  note d = this
  have h: "(2 :: nat) ^ k = 2 * h" using assms by (cases k) (auto simp: d)
  have m: "m = 2 * (q * h) + r" using div_mult_mod_eq [of m "2 ^ k"] by (simp add: d(1,2) h)
  have r: "r < 2 * h" unfolding d(2) h [symmetric] by simp
  have "rne m k False = (if r > h \<or> (r = h \<and> odd q) then q + 1 else q)"
    by (simp add: rne_def Let_def d)
  moreover have "(q + 1) * (2 * h) = 2 * (q * h) + 2 * h" "q * (2 * h) = 2 * (q * h)"
    by (simp_all add: algebra_simps)
  ultimately show ?thesis using m r unfolding h by (auto split: if_splits)
qed

text \<open>Packing an unpacked finite value gives the pattern back.\<close>

lemma round_pack_unpack:
  assumes "0 < w" "x < 2 ^ (p + w + 1)" "unpack p w x = Fin s m e"
  shows "round_pack p w s m e sticky = x"
proof -
  let ?E = "x div 2 ^ p mod 2 ^ w" and ?f = "x mod 2 ^ p"
  have top: "x div 2 ^ (p + w) < 2"
    using assms(2) by (simp add: less_mult_imp_div_less power_add mult.commute)
  have x: "x = sign_pat p w (odd (x div 2 ^ (p + w))) + ?E * 2 ^ p + ?f"
  proof -
    have "x = x div 2 ^ p * 2 ^ p + ?f" by (rule div_mult_mod_eq [symmetric])
    also have "x div 2 ^ p = x div 2 ^ p div 2 ^ w * 2 ^ w + ?E" by (rule div_mult_mod_eq [symmetric])
    also have "x div 2 ^ p div 2 ^ w = x div 2 ^ (p + w)" by (simp add: div_mult2_eq power_add)
    finally show ?thesis using top
      by (cases "x div 2 ^ (p + w) = 0") (auto simp: sign_pat_def power_add algebra_simps less_2_cases_iff)
  qed
  have f: "?f < 2 ^ p" by simp
  have E: "?E \<noteq> 2 ^ w - 1" "?E < 2 ^ w" using assms(3) by (auto simp: unpack_def Let_def split: if_splits)
  from E have "Suc ?E \<le> 2 ^ w - 1" by linarith
  then have "Suc ?E * 2 ^ p \<le> (2 ^ w - 1) * 2 ^ p" by (rule mult_le_mono1)
  then have lt: "?E * 2 ^ p + ?f < inf_pat p w" using f unfolding inf_pat_def mult_Suc by linarith
  show ?thesis
  proof (cases "?E = 0")
    case True
    with assms(3) E have *: "s = odd (x div 2 ^ (p + w))" "m = ?f" "e = emin p w"
      by (auto simp: unpack_def Let_def split: if_splits)
    have "max (e + int (bitlen m) - int (p + 1)) (emin p w) = emin p w"
      using bitlen_le [OF f] * by simp
    with * True lt x show ?thesis by (simp add: round_pack_def min_def)
  next
    case False
    with assms(3) E have *: "s = odd (x div 2 ^ (p + w))" "m = 2 ^ p + ?f" "e = int ?E - 1 + emin p w"
      by (auto simp: unpack_def Let_def split: if_splits)
    have "bitlen m = Suc p" using f * by (intro bitlen_eq) auto
    then have q: "max (e + int (bitlen m) - int (p + 1)) (emin p w) = e"
      using * False by simp
    have "nat (e - emin p w) = ?E - 1" using * False by simp
    then have "nat (e - emin p w) * 2 ^ p + m = ?E * 2 ^ p + ?f"
      using False * by (cases ?E) simp_all
    with q lt x * show ?thesis by (simp add: round_pack_def Let_def min_def)
  qed
qed

end
