(* ===== verification/Interfaces.thy ===== *)
theory Interfaces
  imports Prelude
begin

text \<open>
  The contracts between components, as locales. Each is interpreted on the model of the
  component that provides it (\<open>Hash_Set\<close>, \<open>Work_Stack\<close>, \<open>Code_Cache\<close>, \<open>Host_Memory\<close>), and the
  lemmas proved here once are used by the clients through those interpretations.
\<close>

subsection \<open>A set of visited program counters\<close>

text \<open>
  What \<^verbatim>\<open>machine_genblock\<close> relies on: adding an element reports whether it is new, and
  afterwards the set holds it. An operation may fail (the probe limit is an assertion).
\<close>

locale visited_set =
  fixes add :: "'s \<Rightarrow> u64 \<Rightarrow> (bool \<times> 's) result"
    and elems :: "'s \<Rightarrow> u64 set"
    and inv :: "'s \<Rightarrow> bool"
  assumes add_new: "inv s \<Longrightarrow> add s e = Inr (b, s') \<Longrightarrow> b \<longleftrightarrow> e \<notin> elems s"
    and add_elems: "inv s \<Longrightarrow> add s e = Inr (b, s') \<Longrightarrow> elems s' = insert e (elems s)"
    and add_inv: "inv s \<Longrightarrow> add s e = Inr (b, s') \<Longrightarrow> inv s'"
    and add_present: "inv s \<Longrightarrow> e \<in> elems s \<Longrightarrow> add s e = Inr (False, s)"
begin

lemma add_again:
  assumes "inv s" and "add s e = Inr (b, s')"
  shows "add s' e = Inr (False, s')"
  using add_present [OF add_inv [OF assms]] add_elems [OF assms] by simp

lemma add_two:
  assumes "inv s" and "add s e = Inr (b, s1)" and "add s1 f = Inr (c, s2)"
  shows "elems s2 = {e, f} \<union> elems s \<and> inv s2 \<and> (c \<longleftrightarrow> f \<noteq> e \<and> f \<notin> elems s)"
proof -
  note i1 = add_inv [OF assms(1,2)] and e1 = add_elems [OF assms(1,2)]
  from add_elems [OF i1 assms(3)] add_inv [OF i1 assms(3)] add_new [OF i1 assms(3)] e1
  show ?thesis by auto
qed

end

subsection \<open>A stack of program counters still to visit\<close>

locale work_stack =
  fixes push :: "'s \<Rightarrow> u64 \<Rightarrow> 's result"
    and pop :: "'s \<Rightarrow> (u64 \<times> 's) option"
    and elems :: "'s \<Rightarrow> u64 list"
    and inv :: "'s \<Rightarrow> bool"
  assumes push_elems: "inv s \<Longrightarrow> push s e = Inr s' \<Longrightarrow>
      elems s' = (if e \<in> set (elems s) then elems s else elems s @ [e])"
    and push_inv: "inv s \<Longrightarrow> push s e = Inr s' \<Longrightarrow> inv s'"
    and pop_None: "inv s \<Longrightarrow> pop s = None \<longleftrightarrow> elems s = []"
    and pop_Some: "inv s \<Longrightarrow> pop s = Some (e, s') \<Longrightarrow> elems s = elems s' @ [e]"
    and pop_inv: "inv s \<Longrightarrow> pop s = Some (e, s') \<Longrightarrow> inv s'"
begin

lemma push_set: "inv s \<Longrightarrow> push s e = Inr s' \<Longrightarrow> set (elems s') = insert e (set (elems s))"
  by (auto simp: push_elems)

lemma push_distinct:
  "inv s \<Longrightarrow> push s e = Inr s' \<Longrightarrow> distinct (elems s) \<Longrightarrow> distinct (elems s')"
  by (simp add: push_elems)

lemma push_pop_fresh:
  assumes "inv s" and "push s e = Inr s'" and "e \<notin> set (elems s)"
  shows "\<exists>t. pop s' = Some (e, t) \<and> elems t = elems s"
proof -
  from assms have i: "inv s'" and el: "elems s' = elems s @ [e]"
    by (auto simp: push_inv push_elems)
  with pop_None have "pop s' \<noteq> None" by auto
  then obtain f t where p: "pop s' = Some (f, t)" by auto
  from pop_Some [OF i p] el p show ?thesis by auto
qed

lemma pop_shrinks:
  "inv s \<Longrightarrow> pop s = Some (e, s') \<Longrightarrow> length (elems s') < length (elems s)"
  by (simp add: pop_Some)

end

subsection \<open>The code cache\<close>

text \<open>
  What \<^verbatim>\<open>machine_step\<close> and \<^verbatim>\<open>machine_compile\<close> rely on, stated over the view of the cache as a
  map from guest program counters to a heat count and a code offset: a lookup returns the code
  of an entry at or above the threshold and nothing else, \<^verbatim>\<open>cache_hot\<close> bumps one count,
  \<^verbatim>\<open>cache_add\<close> sets one offset. Outer \<^const>\<open>None\<close> of a lookup is a search that never ends.
\<close>

text \<open>Calls of a heat-counting operation on one program counter, one after another.\<close>

fun hot_calls :: "('c \<Rightarrow> u64 \<Rightarrow> (bool \<times> 'c) result) \<Rightarrow> nat \<Rightarrow> 'c \<Rightarrow> u64 \<Rightarrow> (bool \<times> 'c) result" where
  "hot_calls hot 0 c k = Inr (False, c)"
| "hot_calls hot (Suc n) c k = bindE (hot_calls hot n c k) (\<lambda>(b, c'). hot c' k)"

lemma hot_calls_Suc_left:
  "hot_calls hot (Suc n) c k =
     bindE (hot c k) (\<lambda>(b, c'). if n = 0 then Inr (b, c') else hot_calls hot n c' k)"
proof (induction n)
  case 0
  then show ?case by (cases "hot c k") auto
next
  case (Suc n)
  then show ?case
    by (cases "hot c k") (auto split: prod.splits if_splits)
qed

locale code_cache =
  fixes lookup :: "'c \<Rightarrow> u64 \<Rightarrow> u64 option result option"
    and hot :: "'c \<Rightarrow> u64 \<Rightarrow> (bool \<times> 'c) result"
    and add :: "'c \<Rightarrow> u64 \<Rightarrow> u8 list \<Rightarrow> u64 \<Rightarrow> (u64 \<times> 'c) result"
    and view :: "'c \<Rightarrow> u64 \<rightharpoonup> u64 \<times> u64"
    and base :: "'c \<Rightarrow> u64"
    and inv :: "'c \<Rightarrow> bool"
    and threshold :: u64
    and bump :: "u64 \<Rightarrow> u64"
  assumes lookup_hit: "inv c \<Longrightarrow> view c k = Some (h, off) \<Longrightarrow>
      lookup c k = Some (Inr (if threshold \<le> h then Some (base c + off) else None))"
    and lookup_miss: "inv c \<Longrightarrow> k \<noteq> 0 \<Longrightarrow> view c k = None \<Longrightarrow> lookup c k = Some (Inr r) \<Longrightarrow> r = None"
    and hot_hit: "inv c \<Longrightarrow> view c k = Some (h, off) \<Longrightarrow>
      \<exists>c'. hot c k = Inr (threshold \<le> bump h, c') \<and> inv c' \<and> base c' = base c \<and>
        view c' = (view c)(k \<mapsto> (bump h, off))"
    and hot_miss: "inv c \<Longrightarrow> k \<noteq> 0 \<Longrightarrow> view c k = None \<Longrightarrow> hot c k = Inr (b, c') \<Longrightarrow>
      \<not> b \<and> inv c' \<and> base c' = base c \<and> view c' = (view c)(k \<mapsto> (1, 0))"
    and add_view: "inv c \<Longrightarrow> k \<noteq> 0 \<Longrightarrow> add c k code al = Inr (p, c') \<Longrightarrow>
      inv c' \<and> base c' = base c \<and>
      view c' = (view c)(k \<mapsto> (case view c k of None \<Rightarrow> 0 | Some (h, off) \<Rightarrow> h, p - base c))"
begin

text \<open>Code added for a hot program counter is what the next lookup finds.\<close>

lemma add_then_lookup:
  assumes "inv c" and "view c k = Some (h, off)" and "threshold \<le> h" and "k \<noteq> 0"
    and "add c k code al = Inr (p, c')"
  shows "lookup c' k = Some (Inr (Some p))"
proof -
  from add_view [OF assms(1,4,5)] assms(2) have
    "inv c'" "base c' = base c" "view c' k = Some (h, p - base c)" by auto
  with lookup_hit [of c' k h "p - base c"] assms(3) show ?thesis by simp
qed

text \<open>Adding code for one program counter leaves every other one alone.\<close>

lemma add_lookup_other:
  assumes "inv c" and "k \<noteq> 0" and "add c k code al = Inr (p, c')" and "q \<noteq> k"
    and "view c q = Some e"
  shows "lookup c' q = lookup c q"
proof (cases e)
  case (Pair h off)
  with add_view [OF assms(1-3)] assms(4,5) have
    "inv c'" "base c' = base c" "view c' q = Some (h, off)" by auto
  with lookup_hit [of c' q h off] lookup_hit [of c q h off] assms(1,5) Pair
  show ?thesis by simp
qed

lemma hot_calls_present:
  assumes "inv c" and "view c k = Some (h, off)"
  shows "\<exists>c'. hot_calls hot (Suc n) c k = Inr (threshold \<le> (bump ^^ Suc n) h, c') \<and> inv c' \<and>
     base c' = base c \<and> view c' = (view c)(k \<mapsto> ((bump ^^ Suc n) h, off))"
proof (induction n)
  case 0
  from hot_hit [OF assms] show ?case by (simp del: fun_upd_apply)
next
  case (Suc n)
  then obtain c1 where c1: "hot_calls hot (Suc n) c k = Inr (threshold \<le> (bump ^^ Suc n) h, c1)"
    "inv c1" "base c1 = base c" "view c1 = (view c)(k \<mapsto> ((bump ^^ Suc n) h, off))" by blast
  then have "view c1 k = Some ((bump ^^ Suc n) h, off)" by simp
  from hot_hit [OF c1(2) this] obtain c2 where
    "hot c1 k = Inr (threshold \<le> bump ((bump ^^ Suc n) h), c2)" "inv c2" "base c2 = base c1"
    "view c2 = (view c1)(k \<mapsto> (bump ((bump ^^ Suc n) h), off))" by blast
  with c1 have "hot_calls hot (Suc (Suc n)) c k = Inr (threshold \<le> (bump ^^ Suc (Suc n)) h, c2) \<and> inv c2 \<and>
     base c2 = base c \<and> view c2 = (view c)(k \<mapsto> ((bump ^^ Suc (Suc n)) h, off))"
    by simp
  then show ?case by blast
qed

end

subsection \<open>Byte-addressed memory\<close>

text \<open>
  What the interpreter and the loader rely on: a successful store is what a later load of the
  same bytes reads, other bytes keep their value, and storing changes no access right, so a
  load that was possible stays possible.
\<close>

locale byte_memory =
  fixes load :: "'m \<Rightarrow> u64 \<Rightarrow> nat \<Rightarrow> u8 list result"
    and store :: "'m \<Rightarrow> u64 \<Rightarrow> u8 list \<Rightarrow> 'm result"
  assumes load_length: "load m a n = Inr bs \<Longrightarrow> length bs = n"
    and load_store_same: "length bs < 2 ^ 64 \<Longrightarrow> store m a bs = Inr m' \<Longrightarrow>
      load m a (length bs) = Inr old \<Longrightarrow> load m' a (length bs) = Inr bs"
    and load_store_other: "store m a bs = Inr m' \<Longrightarrow>
      (\<And>i j. i < n \<Longrightarrow> j < length bs \<Longrightarrow> b + of_nat i \<noteq> a + of_nat j) \<Longrightarrow>
      load m' b n = load m b n"
begin

text \<open>Two stores of the same bytes: the second wins.\<close>

lemma load_store_store:
  assumes "length bs < 2 ^ 64" and "length cs = length bs"
    and "store m a bs = Inr m1" and "store m1 a cs = Inr m2"
    and "load m a (length bs) = Inr old"
  shows "load m2 a (length bs) = Inr cs"
proof -
  from load_store_same [OF assms(1,3,5)] have "load m1 a (length cs) = Inr bs"
    using assms(2) by simp
  with load_store_same [of cs m1 a m2 bs] assms(1,2,4) show ?thesis by simp
qed

text \<open>Stores of disjoint ranges do not disturb each other.\<close>

lemma load_store_disjoint:
  assumes "length bs < 2 ^ 64" and "store m a bs = Inr m1" and "store m1 b cs = Inr m2"
    and "load m a (length bs) = Inr old"
    and "\<And>i j. i < length bs \<Longrightarrow> j < length cs \<Longrightarrow> a + of_nat i \<noteq> b + of_nat j"
  shows "load m2 a (length bs) = Inr bs"
  using load_store_same [OF assms(1,2,4)] load_store_other [OF assms(3,5)] by simp

end

subsection \<open>A text buffer\<close>

text \<open>
  What \<^verbatim>\<open>machine_genblock\<close> relies on while it emits source text: appending a non-empty piece
  succeeds while the text stays below a limit, and adds exactly that piece. The first argument
  stands for the bytes a reallocation adds.
\<close>

fun append_all :: "('j \<Rightarrow> 's \<Rightarrow> string \<Rightarrow> 's result) \<Rightarrow> 's \<Rightarrow> ('j \<times> string) list \<Rightarrow> 's result" where
  "append_all app s [] = Inr s"
| "append_all app s ((j, t) # ts) = bindE (app j s t) (\<lambda>s'. append_all app s' ts)"

locale text_buffer =
  fixes app :: "'j \<Rightarrow> 's \<Rightarrow> string \<Rightarrow> 's result"
    and contents :: "'s \<Rightarrow> string"
    and inv :: "'s \<Rightarrow> bool"
    and limit :: nat
  assumes app_ok: "inv s \<Longrightarrow> t \<noteq> [] \<Longrightarrow> length (contents s) + length t < limit \<Longrightarrow>
      \<exists>s'. app j s t = Inr s' \<and> inv s' \<and> contents s' = contents s @ t"
begin

lemma append_all_ok:
  assumes "inv s" and "\<forall>p\<in>set ps. snd p \<noteq> []"
    and "length (contents s) + length (concat (map snd ps)) < limit"
  shows "\<exists>s'. append_all app s ps = Inr s' \<and> inv s' \<and> contents s' = contents s @ concat (map snd ps)"
  using assms
proof (induction ps arbitrary: s)
  case (Cons p ps)
  obtain j t where p: "p = (j, t)" by (cases p)
  with Cons.prems have "length (contents s) + length t < limit" "t \<noteq> []" by auto
  with app_ok [OF Cons.prems(1)] obtain s1 where
    s1: "app j s t = Inr s1" "inv s1" "contents s1 = contents s @ t" by blast
  with Cons.prems p Cons.IH [of s1] show ?case by auto
qed simp

end

subsection \<open>Two machines in lock step\<close>

text \<open>
  \<open>drive step s\<close> repeats a step until it gives a result; \<^const>\<open>None\<close> is a run that does not end.
\<close>

partial_function (option) drive :: "('s \<Rightarrow> 'r + 's) \<Rightarrow> 's \<Rightarrow> 'r option" where
  "drive step s = (case step s of Inl r \<Rightarrow> Some r | Inr s' \<Rightarrow> drive step s')"

lemma drive_steps:
  "step s = Inl r \<Longrightarrow> drive step s = Some r" "step s = Inr s' \<Longrightarrow> drive step s = drive step s'"
  by (simp_all add: drive.simps [of step s])

lemma drive_induct [consumes 1, case_names result step]:
  assumes "drive step s = Some r" "\<And>s r. step s = Inl r \<Longrightarrow> P s r"
    and "\<And>s s' r. step s = Inr s' \<Longrightarrow> drive step s' = Some r \<Longrightarrow> P s' r \<Longrightarrow> P s r"
  shows "P s r"
proof -
  have "P s r \<and> drive step s = Some r"
    using assms(1)
  proof (rule drive.raw_induct [where P = "\<lambda>st s r. st = step \<longrightarrow> P s r \<and> drive step s = Some r", THEN mp, rotated], goal_cases)
    case 1
    show ?case ..
  next
    case (2 drv st s r)
    show ?case
    proof (intro impI)
      assume "st = step"
      with 2 assms(2,3) show "P s r \<and> drive step s = Some r"
        by (subst drive.simps) (auto split: sum.splits)
    qed
  qed
  then show ?thesis ..
qed

lemma drive_terminates:
  fixes size_of :: "'s \<Rightarrow> nat"
  assumes "I s" and "\<And>s s'. I s \<Longrightarrow> step s = Inr s' \<Longrightarrow> I s' \<and> size_of s' < size_of s"
  shows "\<exists>r. drive step s = Some r"
  using assms(1)
proof (induction "size_of s" arbitrary: s rule: less_induct)
  case less
  show ?case
  proof (cases "step s")
    case (Inr s')
    with less assms(2) [of s s'] show ?thesis by (subst drive.simps) simp
  qed (simp add: drive.simps)
qed

lemma drive_invariant:
  assumes "drive step s = Some r" and "I s" and "\<And>s s'. I s \<Longrightarrow> step s = Inr s' \<Longrightarrow> I s'"
  shows "\<exists>t. I t \<and> step t = Inl r"
  using assms(1,2) by (induction s r rule: drive_induct) (auto dest: assms(3))

text \<open>
  A relation that every pair of steps preserves, and whose results are related, relates the
  outcomes of the two runs: one ends exactly when the other does.
\<close>

locale lockstep =
  fixes step1 :: "'s \<Rightarrow> 'r + 's" and step2 :: "'t \<Rightarrow> 'q + 't"
    and match :: "'s \<Rightarrow> 't \<Rightarrow> bool" and agree :: "'r \<Rightarrow> 'q \<Rightarrow> bool"
  assumes matched: "match s t \<Longrightarrow> rel_sum agree match (step1 s) (step2 t)"
begin

lemma drive_forward:
  assumes "drive step1 s = Some r"
  shows "match s t \<Longrightarrow> \<exists>q. drive step2 t = Some q \<and> agree r q"
  using assms
proof (induction s r arbitrary: t rule: drive_induct)
  case (result s r)
  then show ?case using matched [of s t] by (cases "step2 t") (simp_all add: drive.simps [of step2])
next
  case (step s s' r)
  then show ?case using matched [of s t] by (cases "step2 t") (simp_all add: drive.simps [of step2])
qed

lemma drive_backward:
  assumes "drive step2 t = Some q"
  shows "match s t \<Longrightarrow> \<exists>r. drive step1 s = Some r \<and> agree r q"
  using assms
proof (induction t q arbitrary: s rule: drive_induct)
  case (result t q)
  then show ?case using matched [of s t] by (cases "step1 s") (simp_all add: drive.simps [of step1])
next
  case (step t t' q)
  then show ?case using matched [of s t] by (cases "step1 s") (simp_all add: drive.simps [of step1])
qed

lemma drive_agree: "match s t \<Longrightarrow> rel_option agree (drive step1 s) (drive step2 t)"
proof (cases "drive step1 s")
  case None
  assume "match s t"
  with None drive_backward [of t _ s] show ?thesis by (cases "drive step2 t") auto
next
  case (Some r)
  assume "match s t"
  with drive_forward [OF Some, of t] Some show ?thesis by auto
qed

end

end
