(* ===== verification/Host_Memory.thy ===== *)
theory Host_Memory
  imports Riscvemu_H Interfaces
begin

text \<open>
  The guest's memory as the emulator sees it: the host pages mapped for it, addressed by host
  address (\<^verbatim>\<open>TO_HOST\<close>), each byte with the protection of its page. An access outside a mapped
  page, or against its protection, is a fault of the host (\<^const>\<open>Segv\<close>). Multi-byte accesses are
  little-endian and may be unaligned, as on x86-64. Memory outside these pages (the
  emulator's own heap and stack) is not part of the model: an access there is a fault.
\<close>

subsection \<open>Bytes and words\<close>

fun le_val :: "u8 list \<Rightarrow> nat" where
  "le_val [] = 0"
| "le_val (b # bs) = unat b + 256 * le_val bs"

fun le_bytes :: "nat \<Rightarrow> nat \<Rightarrow> u8 list" where
  "le_bytes 0 v = []"
| "le_bytes (Suc n) v = of_nat v # le_bytes n (v div 256)"

lemma length_le_bytes [simp]: "length (le_bytes n v) = n"
  by (induction n arbitrary: v) simp_all

lemma le_val_bytes: "le_val (le_bytes n v) = v mod 256 ^ n"
proof (induction n arbitrary: v)
  case (Suc n)
  have "v mod (256 * 256 ^ n) = 256 * (v div 256 mod 256 ^ n) + v mod 256"
    by (simp add: mod_mult2_eq)
  with Suc show ?case by (simp add: unat_of_nat)
qed simp

lemma le_val_bound: "le_val bs < 256 ^ length bs"
proof (induction bs)
  case (Cons b bs)
  have "unat b < 256" by (rule unat_u8_lt)
  with Cons show ?case by simp
qed simp

lemma le_bytes_val: "length bs = n \<Longrightarrow> le_bytes n (le_val bs) = bs"
proof (induction bs arbitrary: n)
  case (Cons b bs)
  have b: "unat b < 256" by (rule unat_u8_lt)
  then have d: "(unat b + 256 * le_val bs) div 256 = le_val bs" by simp
  have z: "(256 :: u8) = 0" by simp
  have "(of_nat (unat b + 256 * le_val bs) :: u8) = b + 256 * of_nat (le_val bs)" by simp
  also have "\<dots> = b" by (subst z) simp
  finally have "(of_nat (unat b + 256 * le_val bs) :: u8) = b" .
  with Cons d show ?case by (cases n) auto
qed simp

subsection \<open>Pages\<close>

type_synonym prot = u32

abbreviation PROT_READ :: prot where "PROT_READ \<equiv> 1"
abbreviation PROT_WRITE :: prot where "PROT_WRITE \<equiv> 2"
abbreviation PROT_EXEC :: prot where "PROT_EXEC \<equiv> 4"

type_synonym mem = "u64 \<rightharpoonup> prot \<times> u8"

definition readable :: "prot \<Rightarrow> bool" where
  "readable p \<longleftrightarrow> p AND PROT_READ \<noteq> 0"

definition writable :: "prot \<Rightarrow> bool" where
  "writable p \<longleftrightarrow> p AND PROT_WRITE \<noteq> 0"

definition load_byte :: "mem \<Rightarrow> u64 \<Rightarrow> u8 result" where
  "load_byte m a = (case m a of
     None \<Rightarrow> Inl (Segv a)
   | Some (p, b) \<Rightarrow> if readable p then Inr b else Inl (Segv a))"

definition store_byte :: "mem \<Rightarrow> u64 \<Rightarrow> u8 \<Rightarrow> mem result" where
  "store_byte m a v = (case m a of
     None \<Rightarrow> Inl (Segv a)
   | Some (p, b) \<Rightarrow> if writable p then Inr (m(a \<mapsto> (p, v))) else Inl (Segv a))"

fun load_bytes :: "mem \<Rightarrow> u64 \<Rightarrow> nat \<Rightarrow> u8 list result" where
  "load_bytes m a 0 = Inr []"
| "load_bytes m a (Suc n) =
     bindE (load_byte m a) (\<lambda>b. bindE (load_bytes m (a + 1) n) (\<lambda>bs. Inr (b # bs)))"

fun store_bytes :: "mem \<Rightarrow> u64 \<Rightarrow> u8 list \<Rightarrow> mem result" where
  "store_bytes m a [] = Inr m"
| "store_bytes m a (b # bs) = bindE (store_byte m a b) (\<lambda>m'. store_bytes m' (a + 1) bs)"

text \<open>\<^verbatim>\<open>*(u8 *)a\<close> to \<^verbatim>\<open>*(u64 *)a\<close>, read and assigned.\<close>

definition load_u8 :: "mem \<Rightarrow> u64 \<Rightarrow> u8 result" where
  "load_u8 m a = bindE (load_bytes m a 1) (\<lambda>bs. Inr (of_nat (le_val bs)))"

definition load_u16 :: "mem \<Rightarrow> u64 \<Rightarrow> u16 result" where
  "load_u16 m a = bindE (load_bytes m a 2) (\<lambda>bs. Inr (of_nat (le_val bs)))"

definition load_u32 :: "mem \<Rightarrow> u64 \<Rightarrow> u32 result" where
  "load_u32 m a = bindE (load_bytes m a 4) (\<lambda>bs. Inr (of_nat (le_val bs)))"

definition load_u64 :: "mem \<Rightarrow> u64 \<Rightarrow> u64 result" where
  "load_u64 m a = bindE (load_bytes m a 8) (\<lambda>bs. Inr (of_nat (le_val bs)))"

definition store_u8 :: "mem \<Rightarrow> u64 \<Rightarrow> u8 \<Rightarrow> mem result" where
  "store_u8 m a v = store_bytes m a (le_bytes 1 (unat v))"

definition store_u16 :: "mem \<Rightarrow> u64 \<Rightarrow> u16 \<Rightarrow> mem result" where
  "store_u16 m a v = store_bytes m a (le_bytes 2 (unat v))"

definition store_u32 :: "mem \<Rightarrow> u64 \<Rightarrow> u32 \<Rightarrow> mem result" where
  "store_u32 m a v = store_bytes m a (le_bytes 4 (unat v))"

definition store_u64 :: "mem \<Rightarrow> u64 \<Rightarrow> u64 \<Rightarrow> mem result" where
  "store_u64 m a v = store_bytes m a (le_bytes 8 (unat v))"

subsection \<open>Reading back what was written\<close>

lemma load_bytes_length: "load_bytes m a n = Inr bs \<Longrightarrow> length bs = n"
  by (induction n arbitrary: a bs) (auto simp: bindE_eq_Inr)

lemma store_byte_Inr:
  "store_byte m a v = Inr m' \<longleftrightarrow> (\<exists>p b. m a = Some (p, b) \<and> writable p \<and> m' = m(a \<mapsto> (p, v)))"
  by (auto simp: store_byte_def split: option.splits if_splits)

lemma load_byte_store_other: "store_byte m a v = Inr m' \<Longrightarrow> c \<noteq> a \<Longrightarrow> load_byte m' c = load_byte m c"
  by (auto simp: store_byte_Inr load_byte_def)

lemma load_byte_store_same:
  "store_byte m a v = Inr m' \<Longrightarrow> load_byte m a = Inr b \<Longrightarrow> load_byte m' a = Inr v"
  by (auto simp: store_byte_Inr load_byte_def split: if_splits)

lemma load_byte_store_bytes_other:
  assumes "store_bytes m a bs = Inr m'" and "\<And>j. j < length bs \<Longrightarrow> c \<noteq> a + of_nat j"
  shows "load_byte m' c = load_byte m c"
  using assms
proof (induction bs arbitrary: m a)
  case (Cons b bs)
  then obtain m1 where m1: "store_byte m a b = Inr m1" "store_bytes m1 (a + 1) bs = Inr m'"
    by (auto simp: bindE_eq_Inr)
  have "c \<noteq> a + 1 + of_nat j" if "j < length bs" for j
    using Cons.prems(2) [of "Suc j"] that by (simp add: add.assoc)
  with Cons.IH [OF m1(2)] have "load_byte m' c = load_byte m1 c" by blast
  with load_byte_store_other [OF m1(1)] Cons.prems(2) [of 0] show ?case by simp
qed simp

lemma load_bytes_cong:
  assumes "\<And>i. i < n \<Longrightarrow> load_byte m' (b + of_nat i) = load_byte m (b + of_nat i)"
  shows "load_bytes m' b n = load_bytes m b n"
  using assms
proof (induction n arbitrary: b)
  case (Suc n)
  have "load_byte m' (b + 1 + of_nat i) = load_byte m (b + 1 + of_nat i)" if "i < n" for i
    using Suc.prems [of "Suc i"] that by (simp add: add.assoc)
  from Suc.IH [OF this] Suc.prems [of 0] show ?case by simp
qed simp

lemma of_nat_u64_nonzero:
  assumes "0 < (j::nat)" and "j < 2 ^ 64"
  shows "(of_nat j :: u64) \<noteq> 0"
proof
  assume "(of_nat j :: u64) = 0"
  then have "unat (of_nat j :: u64) = 0" by simp
  with assms show False by (simp add: unat_of_nat)
qed

lemma load_store_bytes_same:
  assumes "length bs < 2 ^ 64" and "store_bytes m a bs = Inr m'"
    and "load_bytes m a (length bs) = Inr old"
  shows "load_bytes m' a (length bs) = Inr bs"
  using assms
proof (induction bs arbitrary: m a old)
  case (Cons b bs)
  then obtain m1 where m1: "store_byte m a b = Inr m1" "store_bytes m1 (a + 1) bs = Inr m'"
    by (auto simp: bindE_eq_Inr)
  from Cons.prems(3) obtain v vs where v: "load_byte m a = Inr v"
    "load_bytes m (a + 1) (length bs) = Inr vs" by (auto simp: bindE_eq_Inr)
  have neq: "a + 1 + of_nat i \<noteq> a" if "i < length bs" for i
    using of_nat_u64_nonzero [of "Suc i"] that Cons.prems(1) by (simp add: add.assoc)
  have "load_bytes m1 (a + 1) (length bs) = load_bytes m (a + 1) (length bs)"
    by (rule load_bytes_cong) (use neq load_byte_store_other [OF m1(1)] in blast)
  with Cons.IH [OF _ m1(2)] v Cons.prems(1)
  have tl: "load_bytes m' (a + 1) (length bs) = Inr bs" by simp
  have "load_byte m' a = load_byte m1 a"
    by (rule load_byte_store_bytes_other [OF m1(2)]) (use neq in metis)
  with load_byte_store_same [OF m1(1) v(1)] tl show ?case by simp
qed simp

interpretation hmem: byte_memory load_bytes store_bytes
proof (unfold_locales, goal_cases)
  case (1 m a n bs)
  then show ?case by (rule load_bytes_length)
next
  case (2 bs m a m' old)
  then show ?case by (rule load_store_bytes_same)
next
  case (3 m a bs m' n b)
  then show ?case
    by (intro load_bytes_cong load_byte_store_bytes_other [OF 3(1)]) blast
qed

text \<open>Accesses within mapped bytes succeed.\<close>

lemma load_bytes_mapped:
  assumes "\<And>i. i < n \<Longrightarrow> \<exists>p b. m (a + of_nat i) = Some (p, b) \<and> readable p"
  shows "\<exists>bs. load_bytes m a n = Inr bs"
  using assms
proof (induction n arbitrary: a)
  case (Suc n)
  have "\<exists>p b. m (a + 1 + of_nat i) = Some (p, b) \<and> readable p" if "i < n" for i
    using Suc.prems [of "Suc i"] that by (simp add: add.assoc)
  from Suc.IH [OF this] Suc.prems [of 0] show ?case by (auto simp: load_byte_def)
qed simp

lemma store_bytes_mapped:
  assumes "\<And>i. i < length bs \<Longrightarrow> \<exists>p b. m (a + of_nat i) = Some (p, b) \<and> writable p"
  shows "\<exists>m'. store_bytes m a bs = Inr m'"
  using assms
proof (induction bs arbitrary: a m)
  case (Cons x bs)
  from Cons.prems [of 0] obtain p b where 0: "m a = Some (p, b)" "writable p" by auto
  have "\<exists>m'. store_bytes (m(a \<mapsto> (p, x))) (a + 1) bs = Inr m'"
  proof (rule Cons.IH)
    fix i assume "i < length bs"
    with Cons.prems [of "Suc i"] 0 show "\<exists>q c. (m(a \<mapsto> (p, x))) (a + 1 + of_nat i) = Some (q, c) \<and> writable q"
      by (auto simp: add.assoc)
  qed
  with 0 show ?case by (simp add: store_byte_def del: fun_upd_apply)
qed simp

text \<open>Part of a range that loads.\<close>

lemma load_bytes_split:
  "load_bytes m a (i + n) = bindE (load_bytes m a i) (\<lambda>xs. bindE (load_bytes m (a + of_nat i) n) (\<lambda>ys. Inr (xs @ ys)))"
proof (induction i arbitrary: a)
  case (Suc i)
  from Suc [of "a + 1"] show ?case
    by (simp add: add.assoc bindE_def split: sum.splits)
next
  case 0
  show ?case by (simp add: bindE_def split: sum.splits)
qed

lemma load_bytes_slice:
  assumes "load_bytes m a n = Inr bs" and "i + k \<le> n"
  shows "load_bytes m (a + of_nat i) k = Inr (take k (drop i bs))"
proof -
  define r where "r = n - (i + k)"
  have "load_bytes m a (i + (k + r)) = Inr bs" using assms by (simp add: r_def)
  then obtain xs ys zs where "load_bytes m a i = Inr xs" "load_bytes m (a + of_nat i) k = Inr ys"
    "bs = xs @ ys @ zs"
    unfolding load_bytes_split [of m a i] load_bytes_split [of m "a + of_nat i" k]
    by (auto simp: bindE_eq_Inr)
  then show ?thesis by (auto dest!: load_bytes_length)
qed

text \<open>Typed round trips.\<close>

lemma le_val_unat:
  "of_nat (le_val (le_bytes 1 (unat (v8::u8)))) = v8"
  "of_nat (le_val (le_bytes 2 (unat (v16::u16)))) = v16"
  "of_nat (le_val (le_bytes 4 (unat (v32::u32)))) = v32"
  "of_nat (le_val (le_bytes 8 (unat (v64::u64)))) = v64"
  by (simp_all add: le_val_bytes unat_lt del: le_bytes.simps)

lemma load_store_u64:
  assumes "store_u64 m a v = Inr m'" and "load_u64 m a = Inr old"
  shows "load_u64 m' a = Inr v"
  using hmem.load_store_same [of "le_bytes 8 (unat v)" m a m'] assms
  by (auto simp: store_u64_def load_u64_def bindE_eq_Inr le_val_unat)

lemma load_store_u32:
  assumes "store_u32 m a v = Inr m'" and "load_u32 m a = Inr old"
  shows "load_u32 m' a = Inr v"
  using hmem.load_store_same [of "le_bytes 4 (unat v)" m a m'] assms
  by (auto simp: store_u32_def load_u32_def bindE_eq_Inr le_val_unat)

text \<open>Storing does not change which bytes are mapped or their protection.\<close>

lemma store_byte_prot:
  "store_byte m a v = Inr m' \<Longrightarrow> map_option fst (m' c) = map_option fst (m c)"
  by (auto simp: store_byte_Inr)

lemma store_bytes_prot:
  "store_bytes m a bs = Inr m' \<Longrightarrow> map_option fst (m' c) = map_option fst (m c)"
proof (induction bs arbitrary: m a)
  case (Cons b bs)
  then obtain m1 where m1: "store_byte m a b = Inr m1" "store_bytes m1 (a + 1) bs = Inr m'"
    by (auto simp: bindE_eq_Inr)
  from Cons.IH [OF m1(2)] store_byte_prot [OF m1(1)] show ?case by metis
qed simp

end
