(* ===== verification/Interpret.thy ===== *)
theory Interpret
  imports Decode_Props Interp_Utils Ieee Host_Memory "HOL-Library.Signed_Division"
begin

unbundle bit_operations_syntax

text \<open>
  \<^verbatim>\<open>src/interpret.c\<close>: one handler per instruction, the dispatch table \<^verbatim>\<open>funcs\<close> and the block
  interpreter \<^verbatim>\<open>exec_block_interp\<close>. A handler takes the CPU state, the guest memory and the decoded
  instruction and returns all three updated (the taken branches set \<^verbatim>\<open>insn->cont\<close>), or the fault
  it raises. The \<^verbatim>\<open>FUNC\<close> macro of each section of the file is a definition of its own, its
  \<^verbatim>\<open>expr\<close> argument a function of the operands.
\<close>

type_synonym func_t = "state_t \<Rightarrow> mem \<Rightarrow> insn_t \<Rightarrow> (state_t \<times> mem \<times> insn_t) result"

subsection \<open>The \<^verbatim>\<open>FUNC\<close> macros\<close>

text \<open>\<^verbatim>\<open>(i64)insn->imm\<close>\<close>

definition imm64 :: "insn_t \<Rightarrow> i64" where
  "imm64 insn = scast (insn_imm insn)"

definition FUNC_load :: "(mem \<Rightarrow> u64 \<Rightarrow> 'a::len word result) \<Rightarrow> ('a word \<Rightarrow> u64) \<Rightarrow> func_t" where
  "FUNC_load ld ext state m insn =
     (let addr = gp state (insn_rs1 insn) + imm64 insn in
      bindE (ld m (TO_HOST addr)) (\<lambda>x. Inr (set_gp (insn_rd insn) (ext x) state, m, insn)))"

definition FUNC_imm :: "(u64 \<Rightarrow> i64 \<Rightarrow> u64) \<Rightarrow> func_t" where
  "FUNC_imm expr state m insn =
     (let rs1 = gp state (insn_rs1 insn); imm = imm64 insn in
      Inr (set_gp (insn_rd insn) (expr rs1 imm) state, m, insn))"

definition FUNC_store :: "(mem \<Rightarrow> u64 \<Rightarrow> 'a::len word \<Rightarrow> mem result) \<Rightarrow> func_t" where
  "FUNC_store st state m insn =
     (let rs1 = gp state (insn_rs1 insn); rs2 = gp state (insn_rs2 insn) in
      bindE (st m (TO_HOST (rs1 + imm64 insn)) (ucast rs2)) (\<lambda>m'. Inr (state, m', insn)))"

definition FUNC_alu :: "(u64 \<Rightarrow> u64 \<Rightarrow> u64 result) \<Rightarrow> func_t" where
  "FUNC_alu expr state m insn =
     (let rs1 = gp state (insn_rs1 insn); rs2 = gp state (insn_rs2 insn) in
      bindE (expr rs1 rs2) (\<lambda>v. Inr (set_gp (insn_rd insn) v state, m, insn)))"

definition FUNC_branch :: "(u64 \<Rightarrow> u64 \<Rightarrow> bool) \<Rightarrow> func_t" where
  "FUNC_branch expr state m insn =
     (let rs1 = gp state (insn_rs1 insn); rs2 = gp state (insn_rs2 insn);
          target_addr = pc state + imm64 insn in
      if expr rs1 rs2 then
        Inr (state\<lparr>pc := target_addr, reenter_pc := target_addr, exit_reason := direct_branch\<rparr>, m,
             insn\<lparr>insn_cont := True\<rparr>)
      else Inr (state, m, insn))"

definition FUNC_csr :: func_t where
  "FUNC_csr state m insn =
     (if insn_csr insn = csr_fflags \<or> insn_csr insn = csr_frm \<or> insn_csr insn = csr_fcsr
      then Inr (set_gp (insn_rd insn) 0 state, m, insn)
      else Inl (Fatal ''unsupported csr''))"

definition FUNC_fstore :: "(mem \<Rightarrow> u64 \<Rightarrow> 'a::len word \<Rightarrow> mem result) \<Rightarrow> func_t" where
  "FUNC_fstore st state m insn =
     (let rs1 = gp state (insn_rs1 insn); rs2 = fp state (insn_rs2 insn) in
      bindE (st m (TO_HOST (rs1 + imm64 insn)) (ucast rs2)) (\<lambda>m'. Inr (state, m', insn)))"

text \<open>\<^verbatim>\<open>state->fp_regs[insn->rd].f = v\<close> and \<^verbatim>\<open>.d = v\<close>\<close>

definition set_f :: "insn_t \<Rightarrow> f32 \<Rightarrow> state_t \<Rightarrow> state_t" where
  "set_f insn v state = set_fp (insn_rd insn) (fp_set_w (fp state (insn_rd insn)) v) state"

definition set_d :: "insn_t \<Rightarrow> f64 \<Rightarrow> state_t \<Rightarrow> state_t" where
  "set_d insn v state = set_fp (insn_rd insn) v state"

definition FUNC_fma_s :: "(f32 \<Rightarrow> f32 \<Rightarrow> f32 \<Rightarrow> f32) \<Rightarrow> func_t" where
  "FUNC_fma_s expr state m insn =
     (let rs1 = fp_w (fp state (insn_rs1 insn)); rs2 = fp_w (fp state (insn_rs2 insn));
          rs3 = fp_w (fp state (insn_rs3 insn)) in
      Inr (set_f insn (expr rs1 rs2 rs3) state, m, insn))"

definition FUNC_fma_d :: "(f64 \<Rightarrow> f64 \<Rightarrow> f64 \<Rightarrow> f64) \<Rightarrow> func_t" where
  "FUNC_fma_d expr state m insn =
     (let rs1 = fp state (insn_rs1 insn); rs2 = fp state (insn_rs2 insn); rs3 = fp state (insn_rs3 insn) in
      Inr (set_d insn (expr rs1 rs2 rs3) state, m, insn))"

definition FUNC_fp_s :: "(f32 \<Rightarrow> f32 \<Rightarrow> f32) \<Rightarrow> func_t" where
  "FUNC_fp_s expr state m insn =
     (let rs1 = fp_w (fp state (insn_rs1 insn)); rs2 = fp_w (fp state (insn_rs2 insn)) in
      Inr (set_f insn (expr rs1 rs2) state, m, insn))"

definition FUNC_fp_d :: "(f64 \<Rightarrow> f64 \<Rightarrow> f64) \<Rightarrow> func_t" where
  "FUNC_fp_d expr state m insn =
     (let rs1 = fp state (insn_rs1 insn); rs2 = fp state (insn_rs2 insn) in
      Inr (set_d insn (expr rs1 rs2) state, m, insn))"

definition FUNC_sgnj_s :: "bool \<Rightarrow> bool \<Rightarrow> func_t" where
  "FUNC_sgnj_s n x state m insn =
     (let rs1 = fp_w (fp state (insn_rs1 insn)); rs2 = fp_w (fp state (insn_rs2 insn)) in
      Inr (set_fp (insn_rd insn) (ucast (fsgnj32 rs1 rs2 n x) OR push_bit 32 (- 1)) state, m, insn))"

definition FUNC_sgnj_d :: "bool \<Rightarrow> bool \<Rightarrow> func_t" where
  "FUNC_sgnj_d n x state m insn =
     (let rs1 = fp state (insn_rs1 insn); rs2 = fp state (insn_rs2 insn) in
      Inr (set_fp (insn_rd insn) (fsgnj64 rs1 rs2 n x) state, m, insn))"

definition FUNC_fcmp_s :: "(f32 \<Rightarrow> f32 \<Rightarrow> bool) \<Rightarrow> func_t" where
  "FUNC_fcmp_s expr state m insn =
     (let rs1 = fp_w (fp state (insn_rs1 insn)); rs2 = fp_w (fp state (insn_rs2 insn)) in
      Inr (set_gp (insn_rd insn) (of_bool (expr rs1 rs2)) state, m, insn))"

definition FUNC_fcmp_d :: "(f64 \<Rightarrow> f64 \<Rightarrow> bool) \<Rightarrow> func_t" where
  "FUNC_fcmp_d expr state m insn =
     (let rs1 = fp state (insn_rs1 insn); rs2 = fp state (insn_rs2 insn) in
      Inr (set_gp (insn_rd insn) (of_bool (expr rs1 rs2)) state, m, insn))"

text \<open>Handlers written out without a macro that only write one register.\<close>

definition put_gp :: "(state_t \<Rightarrow> insn_t \<Rightarrow> u64) \<Rightarrow> func_t" where
  "put_gp v state m insn = Inr (set_gp (insn_rd insn) (v state insn) state, m, insn)"

definition put_f :: "(state_t \<Rightarrow> insn_t \<Rightarrow> f32) \<Rightarrow> func_t" where
  "put_f v state m insn = Inr (set_f insn (v state insn) state, m, insn)"

definition put_d :: "(state_t \<Rightarrow> insn_t \<Rightarrow> f64) \<Rightarrow> func_t" where
  "put_d v state m insn = Inr (set_d insn (v state insn) state, m, insn)"

text \<open>\<^verbatim>\<open>(i64)(i32)x\<close> of a 64-bit and of a 32-bit value, \<^verbatim>\<open>(u32)x\<close>, and the truth values of C.\<close>

definition sx32 :: "u64 \<Rightarrow> u64" where
  "sx32 x = scast (ucast x :: i32)"

definition lo32 :: "u64 \<Rightarrow> u32" where
  "lo32 x = ucast x"

definition sh6 :: "u64 \<Rightarrow> nat" where
  "sh6 x = unat (x AND 0x3f)"

definition sh5 :: "u64 \<Rightarrow> nat" where
  "sh5 x = unat (x AND 0x1f)"

text \<open>Signed quotient and remainder of C, rounding towards zero.\<close>

definition sdiv64 :: "i64 \<Rightarrow> i64 \<Rightarrow> i64" where
  "sdiv64 a b = word_of_int (sint a sdiv sint b)"

definition smod64 :: "i64 \<Rightarrow> i64 \<Rightarrow> i64" where
  "smod64 a b = word_of_int (sint a smod sint b)"

subsection \<open>Handlers\<close>

definition func_lb :: func_t where [alu_defs]: "func_lb = FUNC_load load_u8 scast"
definition func_lh :: func_t where [alu_defs]: "func_lh = FUNC_load load_u16 scast"
definition func_lw :: func_t where [alu_defs]: "func_lw = FUNC_load load_u32 scast"
definition func_ld :: func_t where [alu_defs]: "func_ld = FUNC_load load_u64 id"
definition func_lbu :: func_t where [alu_defs]: "func_lbu = FUNC_load load_u8 ucast"
definition func_lhu :: func_t where [alu_defs]: "func_lhu = FUNC_load load_u16 ucast"
definition func_lwu :: func_t where [alu_defs]: "func_lwu = FUNC_load load_u32 ucast"
definition func_addi :: func_t where [alu_defs]: "func_addi = FUNC_imm (\<lambda>rs1 imm. rs1 + imm)"
definition func_slli :: func_t where [alu_defs]:
  "func_slli = FUNC_imm (\<lambda>rs1 imm. push_bit (sh6 imm) rs1)"
definition func_slti :: func_t where [alu_defs]:
  "func_slti = FUNC_imm (\<lambda>rs1 imm. of_bool (rs1 <s imm))"
definition func_sltiu :: func_t where [alu_defs]:
  "func_sltiu = FUNC_imm (\<lambda>rs1 imm. of_bool (rs1 < imm))"
definition func_xori :: func_t where [alu_defs]: "func_xori = FUNC_imm (\<lambda>rs1 imm. rs1 XOR imm)"
definition func_srli :: func_t where [alu_defs]:
  "func_srli = FUNC_imm (\<lambda>rs1 imm. drop_bit (sh6 imm) rs1)"
definition func_srai :: func_t where [alu_defs]:
  "func_srai = FUNC_imm (\<lambda>rs1 imm. signed_drop_bit (sh6 imm) rs1)"
definition func_ori :: func_t where [alu_defs]: "func_ori = FUNC_imm (\<lambda>rs1 imm. rs1 OR imm)"
definition func_andi :: func_t where [alu_defs]: "func_andi = FUNC_imm (\<lambda>rs1 imm. rs1 AND imm)"
definition func_addiw :: func_t where [alu_defs]: "func_addiw = FUNC_imm (\<lambda>rs1 imm. sx32 (rs1 + imm))"
definition func_slliw :: func_t where [alu_defs]:
  "func_slliw = FUNC_imm (\<lambda>rs1 imm. sx32 (push_bit (sh5 imm) rs1))"
definition func_srliw :: func_t where [alu_defs]:
  "func_srliw = FUNC_imm (\<lambda>rs1 imm. scast (drop_bit (sh5 imm) (lo32 rs1)))"
definition func_sraiw :: func_t where [alu_defs]:
  "func_sraiw = FUNC_imm (\<lambda>rs1 imm. scast (signed_drop_bit (sh5 imm) (lo32 rs1)))"
definition func_auipc :: func_t where [alu_defs]:
  "func_auipc = put_gp (\<lambda>state insn. pc state + imm64 insn)"
definition func_sb :: func_t where [alu_defs]: "func_sb = FUNC_store store_u8"
definition func_sh :: func_t where [alu_defs]: "func_sh = FUNC_store store_u16"
definition func_sw :: func_t where [alu_defs]: "func_sw = FUNC_store store_u32"
definition func_sd :: func_t where [alu_defs]: "func_sd = FUNC_store store_u64"
definition func_add :: func_t where [alu_defs]: "func_add = FUNC_alu (\<lambda>rs1 rs2. Inr (rs1 + rs2))"
definition func_sll :: func_t where [alu_defs]:
  "func_sll = FUNC_alu (\<lambda>rs1 rs2. Inr (push_bit (sh6 rs2) rs1))"
definition func_slt :: func_t where [alu_defs]:
  "func_slt = FUNC_alu (\<lambda>rs1 rs2. Inr (of_bool (rs1 <s rs2)))"
definition func_sltu :: func_t where [alu_defs]:
  "func_sltu = FUNC_alu (\<lambda>rs1 rs2. Inr (of_bool (rs1 < rs2)))"
definition func_xor :: func_t where [alu_defs]: "func_xor = FUNC_alu (\<lambda>rs1 rs2. Inr (rs1 XOR rs2))"
definition func_srl :: func_t where [alu_defs]:
  "func_srl = FUNC_alu (\<lambda>rs1 rs2. Inr (drop_bit (sh6 rs2) rs1))"
definition func_or :: func_t where [alu_defs]: "func_or = FUNC_alu (\<lambda>rs1 rs2. Inr (rs1 OR rs2))"
definition func_and :: func_t where [alu_defs]: "func_and = FUNC_alu (\<lambda>rs1 rs2. Inr (rs1 AND rs2))"
definition func_mul :: func_t where [alu_defs]: "func_mul = FUNC_alu (\<lambda>rs1 rs2. Inr (rs1 * rs2))"
definition func_mulh :: func_t where [alu_defs]: "func_mulh = FUNC_alu (\<lambda>rs1 rs2. Inr (mulh rs1 rs2))"
definition func_mulhsu :: func_t where [alu_defs]:
  "func_mulhsu = FUNC_alu (\<lambda>rs1 rs2. Inr (mulhsu rs1 rs2))"
definition func_mulhu :: func_t where [alu_defs]:
  "func_mulhu = FUNC_alu (\<lambda>rs1 rs2. Inr (mulhu rs1 rs2))"
definition func_sub :: func_t where [alu_defs]: "func_sub = FUNC_alu (\<lambda>rs1 rs2. Inr (rs1 - rs2))"
definition func_sra :: func_t where [alu_defs]:
  "func_sra = FUNC_alu (\<lambda>rs1 rs2. Inr (signed_drop_bit (sh6 rs2) rs1))"
definition func_remu :: func_t where [alu_defs]:
  "func_remu = FUNC_alu (\<lambda>rs1 rs2. Inr (if rs2 = 0 then rs1 else rs1 mod rs2))"
definition func_addw :: func_t where [alu_defs]:
  "func_addw = FUNC_alu (\<lambda>rs1 rs2. Inr (sx32 (rs1 + rs2)))"
definition func_sllw :: func_t where [alu_defs]:
  "func_sllw = FUNC_alu (\<lambda>rs1 rs2. Inr (sx32 (push_bit (sh5 rs2) rs1)))"
definition func_srlw :: func_t where [alu_defs]:
  "func_srlw = FUNC_alu (\<lambda>rs1 rs2. Inr (scast (drop_bit (sh5 rs2) (lo32 rs1))))"
definition func_mulw :: func_t where [alu_defs]:
  "func_mulw = FUNC_alu (\<lambda>rs1 rs2. Inr (sx32 (rs1 * rs2)))"
definition func_divw :: func_t where [alu_defs]:
  "func_divw = FUNC_alu (\<lambda>rs1 rs2. 
    if rs2 = 0 then Inr 0xFFFFFFFFFFFFFFFF
    else if lo32 rs2 = 0 then Inl Sigfpe
    else Inr (sx32 (sdiv64 (sx32 rs1) (sx32 rs2))))"
definition func_divuw :: func_t where [alu_defs]:
  "func_divuw = FUNC_alu (\<lambda>rs1 rs2. 
    if rs2 = 0 then Inr 0xFFFFFFFFFFFFFFFF
    else if lo32 rs2 = 0 then Inl Sigfpe
    else Inr (scast (lo32 rs1 div lo32 rs2)))"
definition func_remw :: func_t where [alu_defs]:
  "func_remw = FUNC_alu (\<lambda>rs1 rs2. 
    if rs2 = 0 then Inr (sx32 rs1)
    else if lo32 rs2 = 0 then Inl Sigfpe
    else Inr (sx32 (smod64 (sx32 rs1) (sx32 rs2))))"
definition func_remuw :: func_t where [alu_defs]:
  "func_remuw = FUNC_alu (\<lambda>rs1 rs2. 
    if rs2 = 0 then Inr (scast (lo32 rs1))
    else if lo32 rs2 = 0 then Inl Sigfpe
    else Inr (scast (lo32 rs1 mod lo32 rs2)))"
definition func_subw :: func_t where [alu_defs]:
  "func_subw = FUNC_alu (\<lambda>rs1 rs2. Inr (sx32 (rs1 - rs2)))"
definition func_sraw :: func_t where [alu_defs]:
  "func_sraw = FUNC_alu (\<lambda>rs1 rs2. Inr (scast (signed_drop_bit (sh5 rs2) (lo32 rs1))))"
definition func_div :: func_t where [alu_defs]:
  "func_div = FUNC_alu (\<lambda>rs1 rs2. Inr (
    if rs2 = 0 then 0xFFFFFFFFFFFFFFFF
    else if rs1 = 0x8000000000000000 \<and> rs2 = 0xFFFFFFFFFFFFFFFF then 0x8000000000000000
    else sdiv64 rs1 rs2))"
definition func_divu :: func_t where [alu_defs]:
  "func_divu = FUNC_alu (\<lambda>rs1 rs2. Inr (if rs2 = 0 then 0xFFFFFFFFFFFFFFFF else rs1 div rs2))"
definition func_rem :: func_t where [alu_defs]:
  "func_rem = FUNC_alu (\<lambda>rs1 rs2. Inr (
    if rs2 = 0 then rs1
    else if rs1 = 0x8000000000000000 \<and> rs2 = 0xFFFFFFFFFFFFFFFF then 0
    else smod64 rs1 rs2))"
definition func_lui :: func_t where [alu_defs]: "func_lui = put_gp (\<lambda>state insn. imm64 insn)"
definition func_beq :: func_t where [alu_defs]: "func_beq = FUNC_branch (\<lambda>rs1 rs2. rs1 = rs2)"
definition func_bne :: func_t where [alu_defs]: "func_bne = FUNC_branch (\<lambda>rs1 rs2. rs1 \<noteq> rs2)"
definition func_blt :: func_t where [alu_defs]: "func_blt = FUNC_branch (\<lambda>rs1 rs2. rs1 <s rs2)"
definition func_bge :: func_t where [alu_defs]: "func_bge = FUNC_branch (\<lambda>rs1 rs2. rs2 \<le>s rs1)"
definition func_bltu :: func_t where [alu_defs]: "func_bltu = FUNC_branch (\<lambda>rs1 rs2. rs1 < rs2)"
definition func_bgeu :: func_t where [alu_defs]: "func_bgeu = FUNC_branch (\<lambda>rs1 rs2. rs1 \<ge> rs2)"
definition func_jalr :: func_t where
  "func_jalr = (\<lambda>state m insn.
     let rs1 = gp state (insn_rs1 insn);
         state = set_gp (insn_rd insn) (pc state + (if insn_rvc insn then 2 else 4)) state
     in Inr (state\<lparr>exit_reason := indirect_branch,
               reenter_pc := (rs1 + imm64 insn) AND NOT 1\<rparr>, m, insn))"
definition func_jal :: func_t where
  "func_jal = (\<lambda>state m insn.
     let state = set_gp (insn_rd insn) (pc state + (if insn_rvc insn then 2 else 4)) state;
         target = pc state + imm64 insn
     in Inr (state\<lparr>pc := target, reenter_pc := target, exit_reason := direct_branch\<rparr>, m, insn))"
definition func_ecall :: func_t where
  "func_ecall = (\<lambda>state m insn. Inr (state\<lparr>exit_reason := ecall, reenter_pc := pc state + 4\<rparr>, m, insn))"
definition func_empty :: func_t where "func_empty = (\<lambda>state m insn. Inr (state, m, insn))"
definition func_csrrw :: func_t where [alu_defs]: "func_csrrw = FUNC_csr"
definition func_csrrs :: func_t where [alu_defs]: "func_csrrs = FUNC_csr"
definition func_csrrc :: func_t where [alu_defs]: "func_csrrc = FUNC_csr"
definition func_csrrwi :: func_t where [alu_defs]: "func_csrrwi = FUNC_csr"
definition func_csrrsi :: func_t where [alu_defs]: "func_csrrsi = FUNC_csr"
definition func_csrrci :: func_t where [alu_defs]: "func_csrrci = FUNC_csr"
definition func_flw :: func_t where
  "func_flw = (\<lambda>state m insn.
     let addr = gp state (insn_rs1 insn) + imm64 insn in
     bindE (load_u32 m (TO_HOST addr)) (\<lambda>x.
       Inr (set_fp (insn_rd insn) (ucast x OR push_bit 32 (- 1)) state, m, insn)))"
definition func_fld :: func_t where
  "func_fld = (\<lambda>state m insn.
     let addr = gp state (insn_rs1 insn) + imm64 insn in
     bindE (load_u64 m (TO_HOST addr)) (\<lambda>x. Inr (set_fp (insn_rd insn) x state, m, insn)))"
definition func_fsw :: func_t where [alu_defs]: "func_fsw = FUNC_fstore store_u32"
definition func_fsd :: func_t where [alu_defs]: "func_fsd = FUNC_fstore store_u64"
definition func_fmadd_s :: func_t where [alu_defs]:
  "func_fmadd_s = FUNC_fma_s (\<lambda>rs1 rs2 rs3. f32_op2 fadd (f32_op2 fmul rs1 rs2) rs3)"
definition func_fmsub_s :: func_t where [alu_defs]:
  "func_fmsub_s = FUNC_fma_s (\<lambda>rs1 rs2 rs3. f32_op2 fsub (f32_op2 fmul rs1 rs2) rs3)"
definition func_fnmsub_s :: func_t where [alu_defs]:
  "func_fnmsub_s = FUNC_fma_s (\<lambda>rs1 rs2 rs3. f32_op2 fadd (f32_op1 fneg (f32_op2 fmul rs1 rs2)) rs3)"
definition func_fnmadd_s :: func_t where [alu_defs]:
  "func_fnmadd_s = FUNC_fma_s (\<lambda>rs1 rs2 rs3. f32_op2 fsub (f32_op1 fneg (f32_op2 fmul rs1 rs2)) rs3)"
definition func_fmadd_d :: func_t where [alu_defs]:
  "func_fmadd_d = FUNC_fma_d (\<lambda>rs1 rs2 rs3. f64_op2 fadd (f64_op2 fmul rs1 rs2) rs3)"
definition func_fmsub_d :: func_t where [alu_defs]:
  "func_fmsub_d = FUNC_fma_d (\<lambda>rs1 rs2 rs3. f64_op2 fsub (f64_op2 fmul rs1 rs2) rs3)"
definition func_fnmsub_d :: func_t where [alu_defs]:
  "func_fnmsub_d = FUNC_fma_d (\<lambda>rs1 rs2 rs3. f64_op2 fadd (f64_op1 fneg (f64_op2 fmul rs1 rs2)) rs3)"
definition func_fnmadd_d :: func_t where [alu_defs]:
  "func_fnmadd_d = FUNC_fma_d (\<lambda>rs1 rs2 rs3. f64_op2 fsub (f64_op1 fneg (f64_op2 fmul rs1 rs2)) rs3)"
definition func_fadd_s :: func_t where [alu_defs]: "func_fadd_s = FUNC_fp_s (f32_op2 fadd)"
definition func_fsub_s :: func_t where [alu_defs]: "func_fsub_s = FUNC_fp_s (f32_op2 fsub)"
definition func_fmul_s :: func_t where [alu_defs]: "func_fmul_s = FUNC_fp_s (f32_op2 fmul)"
definition func_fdiv_s :: func_t where [alu_defs]: "func_fdiv_s = FUNC_fp_s (f32_op2 fdiv)"
definition func_fsqrt_s :: func_t where [alu_defs]:
  "func_fsqrt_s = FUNC_fp_s (\<lambda>rs1 rs2. f32_op1 fsqrt rs1)"
definition func_fmin_s :: func_t where [alu_defs]:
  "func_fmin_s = FUNC_fp_s (\<lambda>rs1 rs2. if f32_rel flt rs1 rs2 then rs1 else rs2)"
definition func_fmax_s :: func_t where [alu_defs]:
  "func_fmax_s = FUNC_fp_s (\<lambda>rs1 rs2. if f32_rel flt rs2 rs1 then rs1 else rs2)"
definition func_fadd_d :: func_t where [alu_defs]: "func_fadd_d = FUNC_fp_d (f64_op2 fadd)"
definition func_fsub_d :: func_t where [alu_defs]: "func_fsub_d = FUNC_fp_d (f64_op2 fsub)"
definition func_fmul_d :: func_t where [alu_defs]: "func_fmul_d = FUNC_fp_d (f64_op2 fmul)"
definition func_fdiv_d :: func_t where [alu_defs]: "func_fdiv_d = FUNC_fp_d (f64_op2 fdiv)"
definition func_fsqrt_d :: func_t where [alu_defs]:
  "func_fsqrt_d = FUNC_fp_d (\<lambda>rs1 rs2. f64_op1 fsqrt rs1)"
definition func_fmin_d :: func_t where [alu_defs]:
  "func_fmin_d = FUNC_fp_d (\<lambda>rs1 rs2. if f64_rel flt rs1 rs2 then rs1 else rs2)"
definition func_fmax_d :: func_t where [alu_defs]:
  "func_fmax_d = FUNC_fp_d (\<lambda>rs1 rs2. if f64_rel flt rs2 rs1 then rs1 else rs2)"
definition func_fsgnj_s :: func_t where [alu_defs]: "func_fsgnj_s = FUNC_sgnj_s False False"
definition func_fsgnjn_s :: func_t where [alu_defs]: "func_fsgnjn_s = FUNC_sgnj_s True False"
definition func_fsgnjx_s :: func_t where [alu_defs]: "func_fsgnjx_s = FUNC_sgnj_s False True"
definition func_fsgnj_d :: func_t where [alu_defs]: "func_fsgnj_d = FUNC_sgnj_d False False"
definition func_fsgnjn_d :: func_t where [alu_defs]: "func_fsgnjn_d = FUNC_sgnj_d True False"
definition func_fsgnjx_d :: func_t where [alu_defs]: "func_fsgnjx_d = FUNC_sgnj_d False True"
definition func_fcvt_w_s :: func_t where [alu_defs]:
  "func_fcvt_w_s = put_gp (\<lambda>state insn. sx32 (llrintf (fp_w (fp state (insn_rs1 insn)))))"
definition func_fcvt_wu_s :: func_t where [alu_defs]:
  "func_fcvt_wu_s = put_gp (\<lambda>state insn. scast (lo32 (llrintf (fp_w (fp state (insn_rs1 insn))))))"
definition func_fcvt_w_d :: func_t where [alu_defs]:
  "func_fcvt_w_d = put_gp (\<lambda>state insn. sx32 (llrint (fp state (insn_rs1 insn))))"
definition func_fcvt_wu_d :: func_t where [alu_defs]:
  "func_fcvt_wu_d = put_gp (\<lambda>state insn. scast (lo32 (llrint (fp state (insn_rs1 insn)))))"
definition func_fcvt_s_w :: func_t where [alu_defs]:
  "func_fcvt_s_w = put_f (\<lambda>state insn. f32_of_int (sint (lo32 (gp state (insn_rs1 insn)))))"
definition func_fcvt_s_wu :: func_t where [alu_defs]:
  "func_fcvt_s_wu = put_f (\<lambda>state insn. f32_of_int (uint (lo32 (gp state (insn_rs1 insn)))))"
definition func_fcvt_d_w :: func_t where [alu_defs]:
  "func_fcvt_d_w = put_d (\<lambda>state insn. f64_of_int (sint (lo32 (gp state (insn_rs1 insn)))))"
definition func_fcvt_d_wu :: func_t where [alu_defs]:
  "func_fcvt_d_wu = put_d (\<lambda>state insn. f64_of_int (uint (lo32 (gp state (insn_rs1 insn)))))"
definition func_fmv_x_w :: func_t where [alu_defs]:
  "func_fmv_x_w = put_gp (\<lambda>state insn. scast (fp_w (fp state (insn_rs1 insn))))"
definition func_fmv_w_x :: func_t where [alu_defs]:
  "func_fmv_w_x = put_f (\<lambda>state insn. lo32 (gp state (insn_rs1 insn)))"
definition func_fmv_x_d :: func_t where [alu_defs]:
  "func_fmv_x_d = put_gp (\<lambda>state insn. fp state (insn_rs1 insn))"
definition func_fmv_d_x :: func_t where [alu_defs]:
  "func_fmv_d_x = put_d (\<lambda>state insn. gp state (insn_rs1 insn))"
definition func_feq_s :: func_t where [alu_defs]: "func_feq_s = FUNC_fcmp_s (f32_rel feq)"
definition func_flt_s :: func_t where [alu_defs]: "func_flt_s = FUNC_fcmp_s (f32_rel flt)"
definition func_fle_s :: func_t where [alu_defs]: "func_fle_s = FUNC_fcmp_s (f32_rel fle)"
definition func_feq_d :: func_t where [alu_defs]: "func_feq_d = FUNC_fcmp_d (f64_rel feq)"
definition func_flt_d :: func_t where [alu_defs]: "func_flt_d = FUNC_fcmp_d (f64_rel flt)"
definition func_fle_d :: func_t where [alu_defs]: "func_fle_d = FUNC_fcmp_d (f64_rel fle)"
definition func_fclass_s :: func_t where [alu_defs]:
  "func_fclass_s = put_gp (\<lambda>state insn. ucast (f32_classify (fp_w (fp state (insn_rs1 insn)))))"
definition func_fclass_d :: func_t where [alu_defs]:
  "func_fclass_d = put_gp (\<lambda>state insn. ucast (f64_classify (fp state (insn_rs1 insn))))"
definition func_fcvt_l_s :: func_t where [alu_defs]:
  "func_fcvt_l_s = put_gp (\<lambda>state insn. llrintf (fp_w (fp state (insn_rs1 insn))))"
definition func_fcvt_lu_s :: func_t where [alu_defs]:
  "func_fcvt_lu_s = put_gp (\<lambda>state insn. llrintf (fp_w (fp state (insn_rs1 insn))))"
definition func_fcvt_l_d :: func_t where [alu_defs]:
  "func_fcvt_l_d = put_gp (\<lambda>state insn. llrint (fp state (insn_rs1 insn)))"
definition func_fcvt_lu_d :: func_t where [alu_defs]:
  "func_fcvt_lu_d = put_gp (\<lambda>state insn. llrint (fp state (insn_rs1 insn)))"
definition func_fcvt_s_l :: func_t where [alu_defs]:
  "func_fcvt_s_l = put_f (\<lambda>state insn. f32_of_int (sint (gp state (insn_rs1 insn))))"
definition func_fcvt_s_lu :: func_t where [alu_defs]:
  "func_fcvt_s_lu = put_f (\<lambda>state insn. f32_of_int (uint (gp state (insn_rs1 insn))))"
definition func_fcvt_d_l :: func_t where [alu_defs]:
  "func_fcvt_d_l = put_d (\<lambda>state insn. f64_of_int (sint (gp state (insn_rs1 insn))))"
definition func_fcvt_d_lu :: func_t where [alu_defs]:
  "func_fcvt_d_lu = put_d (\<lambda>state insn. f64_of_int (uint (gp state (insn_rs1 insn))))"
definition func_fcvt_s_d :: func_t where [alu_defs]:
  "func_fcvt_s_d = put_f (\<lambda>state insn. f32_of_f64 (fp state (insn_rs1 insn)))"
definition func_fcvt_d_s :: func_t where [alu_defs]:
  "func_fcvt_d_s = put_d (\<lambda>state insn. f64_of_f32 (fp_w (fp state (insn_rs1 insn))))"

subsection \<open>Dispatch\<close>

definition funcs :: "func_t list" where
  "funcs = [
    func_lb, func_lh, func_lw, func_ld, func_lbu, func_lhu, func_lwu, func_empty, func_empty,
    func_addi, func_slli, func_slti, func_sltiu, func_xori, func_srli, func_srai, func_ori,
    func_andi, func_auipc, func_addiw, func_slliw, func_srliw, func_sraiw, func_sb, func_sh,
    func_sw, func_sd, func_add, func_sll, func_slt, func_sltu, func_xor, func_srl, func_or,
    func_and, func_mul, func_mulh, func_mulhsu, func_mulhu, func_div, func_divu, func_rem,
    func_remu, func_sub, func_sra, func_lui, func_addw, func_sllw, func_srlw, func_mulw, func_divw,
    func_divuw, func_remw, func_remuw, func_subw, func_sraw, func_beq, func_bne, func_blt,
    func_bge, func_bltu, func_bgeu, func_jalr, func_jal, func_ecall, func_csrrc, func_csrrci,
    func_csrrs, func_csrrsi, func_csrrw, func_csrrwi, func_flw, func_fsw, func_fmadd_s,
    func_fmsub_s, func_fnmsub_s, func_fnmadd_s, func_fadd_s, func_fsub_s, func_fmul_s, func_fdiv_s,
    func_fsqrt_s, func_fsgnj_s, func_fsgnjn_s, func_fsgnjx_s, func_fmin_s, func_fmax_s,
    func_fcvt_w_s, func_fcvt_wu_s, func_fmv_x_w, func_feq_s, func_flt_s, func_fle_s, func_fclass_s,
    func_fcvt_s_w, func_fcvt_s_wu, func_fmv_w_x, func_fcvt_l_s, func_fcvt_lu_s, func_fcvt_s_l,
    func_fcvt_s_lu, func_fld, func_fsd, func_fmadd_d, func_fmsub_d, func_fnmsub_d, func_fnmadd_d,
    func_fadd_d, func_fsub_d, func_fmul_d, func_fdiv_d, func_fsqrt_d, func_fsgnj_d, func_fsgnjn_d,
    func_fsgnjx_d, func_fmin_d, func_fmax_d, func_fcvt_s_d, func_fcvt_d_s, func_feq_d, func_flt_d,
    func_fle_d, func_fclass_d, func_fcvt_w_d, func_fcvt_wu_d, func_fcvt_d_w, func_fcvt_d_wu,
    func_fcvt_l_d, func_fcvt_lu_d, func_fmv_x_d, func_fcvt_d_l, func_fcvt_d_lu, func_fmv_d_x]"

subsection \<open>The block interpreter\<close>

text \<open>
  One round of the loop of \<^verbatim>\<open>exec_block_interp\<close>: the flag tells that the round ended with
  \<^verbatim>\<open>break\<close>.
\<close>

definition interp_step :: "state_t \<Rightarrow> mem \<Rightarrow> (bool \<times> state_t \<times> mem) result" where
  "interp_step state m =
     (if pc state = 0 then Inr (True, state\<lparr>exit_reason := halt, reenter_pc := 0\<rparr>, m)
      else
        bindE (load_u32 m (TO_HOST (pc state))) (\<lambda>data.
        bindE (insn_decode zero_insn data) (\<lambda>insn.
        if insn_type insn \<ge> num_insns then Inl (Fatal ''invalid insn type'')
        else bindE ((funcs ! insn_type insn) state m insn) (\<lambda>(state, m, insn).
          let state = set_gp reg_zero 0 state in
          if insn_cont insn then Inr (True, state, m)
          else Inr (False, state\<lparr>pc := pc state + (if insn_rvc insn then 2 else 4)\<rparr>, m)))))"

partial_function (option) exec_block_interp :: "state_t \<Rightarrow> mem \<Rightarrow> (state_t \<times> mem) result option" where
  "exec_block_interp state m = (case interp_step state m of
     Inl e \<Rightarrow> Some (Inl e)
   | Inr (stop, state, m) \<Rightarrow> if stop then Some (Inr (state, m)) else exec_block_interp state m)"

subsection \<open>What every handler preserves\<close>

text \<open>
  A handler keeps the register files well-formed, leaves the instruction as it was up to
  \<^verbatim>\<open>cont\<close>, and does not change which bytes are mapped.
\<close>

definition same_pages :: "mem \<Rightarrow> mem \<Rightarrow> bool" where
  "same_pages m m' \<longleftrightarrow> (\<forall>a. map_option fst (m' a) = map_option fst (m a))"

definition handler_ok :: "func_t \<Rightarrow> bool" where
  "handler_ok f \<longleftrightarrow> (\<forall>s m i s' m' i'. f s m i = Inr (s', m', i') \<longrightarrow>
     (wf_state s \<longrightarrow> wf_state s') \<and> (i' = i \<or> i' = i\<lparr>insn_cont := True\<rparr>) \<and> same_pages m m')"

lemma same_pages_refl [simp]: "same_pages m m"
  by (simp add: same_pages_def)

lemma same_pages_trans: "same_pages m m1 \<Longrightarrow> same_pages m1 m2 \<Longrightarrow> same_pages m m2"
  by (simp add: same_pages_def)

lemma same_pages_stores:
  "store_u8 m a v8 = Inr m' \<Longrightarrow> same_pages m m'"
  "store_u16 m a v16 = Inr m' \<Longrightarrow> same_pages m m'"
  "store_u32 m a v32 = Inr m' \<Longrightarrow> same_pages m m'"
  "store_u64 m a v64 = Inr m' \<Longrightarrow> same_pages m m'"
  unfolding same_pages_def store_u8_def store_u16_def store_u32_def store_u64_def
  by (auto dest: store_bytes_prot simp del: le_bytes.simps)

lemma wf_set_f [simp]: "wf_state (set_f i v s) = wf_state s"
  by (simp add: set_f_def)

lemma wf_set_d [simp]: "wf_state (set_d i v s) = wf_state s"
  by (simp add: set_d_def)

lemma handler_ok_macros [simp]:
  "handler_ok (FUNC_load ld ext)" "handler_ok (FUNC_imm e2)" "handler_ok (FUNC_alu e3)"
  "handler_ok (FUNC_branch e4)" "handler_ok FUNC_csr" "handler_ok (FUNC_fma_s e5)"
  "handler_ok (FUNC_fma_d e6)" "handler_ok (FUNC_fp_s e7)" "handler_ok (FUNC_fp_d e8)"
  "handler_ok (FUNC_sgnj_s n x)" "handler_ok (FUNC_sgnj_d n x)" "handler_ok (FUNC_fcmp_s e9)"
  "handler_ok (FUNC_fcmp_d e10)" "handler_ok (put_gp e11)" "handler_ok (put_f e12)" "handler_ok (put_d e13)"
  by (auto simp: handler_ok_def FUNC_load_def FUNC_imm_def FUNC_alu_def FUNC_branch_def FUNC_csr_def
      FUNC_fma_s_def FUNC_fma_d_def FUNC_fp_s_def FUNC_fp_d_def FUNC_sgnj_s_def FUNC_sgnj_d_def
      FUNC_fcmp_s_def FUNC_fcmp_d_def put_gp_def put_f_def put_d_def Let_def bindE_eq_Inr split: if_splits)

lemma handler_ok_stores [simp]:
  assumes "\<And>m a v m'. st m a v = Inr m' \<Longrightarrow> same_pages m m'"
  shows "handler_ok (FUNC_store st)" "handler_ok (FUNC_fstore st)"
  using assms by (auto simp: handler_ok_def FUNC_store_def FUNC_fstore_def Let_def bindE_eq_Inr)

lemma handler_ok_others [simp]:
  "handler_ok func_empty" "handler_ok func_jalr" "handler_ok func_jal" "handler_ok func_ecall"
  "handler_ok func_flw" "handler_ok func_fld"
  by (auto simp: handler_ok_def func_empty_def func_jalr_def func_jal_def func_ecall_def func_flw_def
      func_fld_def Let_def bindE_eq_Inr)

lemma length_funcs [simp]: "length funcs = num_insns"
  by (simp add: funcs_def)

lemma funcs_ok: "f \<in> set funcs \<Longrightarrow> handler_ok f"
proof -
  have "list_all handler_ok funcs"
    unfolding funcs_def list.pred_inject
    by (intro conjI TrueI) (simp_all add: alu_defs same_pages_stores)
  then show "f \<in> set funcs \<Longrightarrow> handler_ok f" by (simp add: list_all_iff)
qed

subsection \<open>How control leaves a handler\<close>

text \<open>
  A handler other than those of JALR, JAL and ECALL either leaves the program counter and
  the exit fields alone, or is a taken branch.
\<close>

definition straight_or_branch :: "func_t \<Rightarrow> bool" where
  "straight_or_branch f \<longleftrightarrow> (\<forall>s m i s' m' i'. f s m i = Inr (s', m', i') \<longrightarrow>
     (i' = i \<and> pc s' = pc s \<and> exit_reason s' = exit_reason s \<and> reenter_pc s' = reenter_pc s) \<or>
     (i' = i\<lparr>insn_cont := True\<rparr> \<and> exit_reason s' = direct_branch \<and> reenter_pc s' = pc s'))"

lemma set_f_fields [simp]:
  "pc (set_f i v s) = pc s" "exit_reason (set_f i v s) = exit_reason s"
  "reenter_pc (set_f i v s) = reenter_pc s" "gp_regs (set_f i v s) = gp_regs s"
  by (simp_all add: set_f_def)

lemma set_d_fields [simp]:
  "pc (set_d i v s) = pc s" "exit_reason (set_d i v s) = exit_reason s"
  "reenter_pc (set_d i v s) = reenter_pc s" "gp_regs (set_d i v s) = gp_regs s"
  by (simp_all add: set_d_def)

lemma straight_macros [simp]:
  "straight_or_branch (FUNC_load ld ext)" "straight_or_branch (FUNC_imm e2)" "straight_or_branch (FUNC_alu e3)"
  "straight_or_branch (FUNC_branch e4)" "straight_or_branch FUNC_csr" "straight_or_branch (FUNC_fma_s e5)"
  "straight_or_branch (FUNC_fma_d e6)" "straight_or_branch (FUNC_fp_s e7)" "straight_or_branch (FUNC_fp_d e8)"
  "straight_or_branch (FUNC_sgnj_s n x)" "straight_or_branch (FUNC_sgnj_d n x)"
  "straight_or_branch (FUNC_fcmp_s e9)" "straight_or_branch (FUNC_fcmp_d e10)" "straight_or_branch (put_gp e11)"
  "straight_or_branch (put_f e12)" "straight_or_branch (put_d e13)" "straight_or_branch (FUNC_store st)"
  "straight_or_branch (FUNC_fstore st')"
  by (auto simp: straight_or_branch_def FUNC_load_def FUNC_imm_def FUNC_alu_def FUNC_branch_def FUNC_csr_def
      FUNC_fma_s_def FUNC_fma_d_def FUNC_fp_s_def FUNC_fp_d_def FUNC_sgnj_s_def FUNC_sgnj_d_def
      FUNC_fcmp_s_def FUNC_fcmp_d_def put_gp_def put_f_def put_d_def FUNC_store_def FUNC_fstore_def
      Let_def bindE_eq_Inr split: if_splits)

lemma straight_others [simp]:
  "straight_or_branch func_empty" "straight_or_branch func_flw" "straight_or_branch func_fld"
  by (auto simp: straight_or_branch_def func_empty_def func_flw_def func_fld_def Let_def bindE_eq_Inr)

lemma funcs_jumps:
  "funcs ! insn_jalr = func_jalr" "funcs ! insn_jal = func_jal" "funcs ! insn_ecall = func_ecall"
  by (simp_all add: funcs_def)

lemma straight_below:
  "list_all straight_or_branch (take insn_jalr funcs)" "list_all straight_or_branch (drop (Suc insn_ecall) funcs)"
  unfolding funcs_def by (simp_all add: alu_defs)

lemma funcs_straight:
  assumes "t < num_insns" "t \<notin> {insn_jalr, insn_jal, insn_ecall}"
  shows "straight_or_branch (funcs ! t)"
proof (cases "t < insn_jalr")
  case True
  then have "take insn_jalr funcs ! t \<in> set (take insn_jalr funcs)" by (intro nth_mem) simp
  with straight_below(1) True show ?thesis by (simp add: list_all_iff)
next
  case False
  with assms have "t - 65 < length (drop (Suc insn_ecall) funcs)" "65 + (t - 65) = t" by auto
  with straight_below(2) nth_mem [of "t - 65" "drop (Suc insn_ecall) funcs"] show ?thesis
    by (auto simp: list_all_iff)
qed

lemma funcs_handler_ok: "t < num_insns \<Longrightarrow> handler_ok (funcs ! t)"
  by (rule funcs_ok) simp

end
