(* ===== verification/Interp_Props.thy ===== *)
theory Interp_Props
  imports Interpret
begin

unbundle bit_operations_syntax

text \<open>
  The block interpreter of \<^verbatim>\<open>src/interpret.c\<close>: what a round of its loop preserves, the exit
  protocol it leaves in \<^verbatim>\<open>exit_reason\<close> and \<^verbatim>\<open>reenter_pc\<close>, and that it always returns.
\<close>

subsection \<open>One round of the loop\<close>

lemma interp_step_Inr:
  assumes "interp_step s m = Inr (stop, s', m')"
  obtains (halt) "pc s = 0" "stop" "s' = s\<lparr>exit_reason := halt, reenter_pc := 0\<rparr>" "m' = m"
  | (insn) data insn s1 i1 where "pc s \<noteq> 0" "load_u32 m (TO_HOST (pc s)) = Inr data"
      "insn_decode zero_insn data = Inr insn" "good (QUADRANT data \<noteq> 3) insn"
      "(funcs ! insn_type insn) s m insn = Inr (s1, m', i1)" "stop = insn_cont i1"
      "s' = (if insn_cont i1 then set_gp 0 0 s1
             else (set_gp 0 0 s1)\<lparr>pc := pc s1 + (if insn_rvc i1 then 2 else 4)\<rparr>)"
proof (cases "pc s = 0")
  case True
  with assms that(1) show ?thesis by (simp add: interp_step_def)
next
  case False
  from assms False obtain data insn s1 m1 i1 where
    *: "load_u32 m (TO_HOST (pc s)) = Inr data" "insn_decode zero_insn data = Inr insn"
      "(funcs ! insn_type insn) s m insn = Inr (s1, m1, i1)"
    and **: "(stop, s', m') = (if insn_cont i1 then (True, set_gp 0 0 s1, m1)
       else (False, (set_gp 0 0 s1)\<lparr>pc := pc s1 + (if insn_rvc i1 then 2 else 4)\<rparr>, m1))"
    by (auto simp: interp_step_def bindE_eq_Inr Let_def split: if_splits)
  have "good (QUADRANT data \<noteq> 3) insn" by (rule decode_good [OF *(2)]) simp
  with * ** False show ?thesis by (intro that(2)) (auto split: if_splits)
qed

lemma good_type: "good rv i \<Longrightarrow> insn_type i < num_insns"
  by (simp add: good_def wf_insn_def)

lemma handler_okD:
  assumes "handler_ok f" "f s m i = Inr (s', m', i')"
  shows "wf_state s \<Longrightarrow> wf_state s'" "i' = i \<or> i' = i\<lparr>insn_cont := True\<rparr>" "same_pages m m'"
  using assms unfolding handler_ok_def by blast+

lemma gp_set_zero [simp]: "wf_state s \<Longrightarrow> gp (set_gp 0 0 s) 0 = 0"
  by (simp add: gp_set_gp)

text \<open>The register files keep their size, the mapping of the guest its shape, and \<^verbatim>\<open>x0\<close> reads
  zero after every executed instruction.\<close>

lemma interp_step_inv:
  assumes "interp_step s m = Inr (stop, s', m')" "wf_state s"
  shows "wf_state s'" "same_pages m m'" "pc s \<noteq> 0 \<or> gp s 0 = 0 \<Longrightarrow> gp s' 0 = 0"
proof -
  have "wf_state s' \<and> same_pages m m' \<and> (pc s \<noteq> 0 \<or> gp s 0 = 0 \<longrightarrow> gp s' 0 = 0)"
    using assms(1)
  proof (cases rule: interp_step_Inr)
    case halt
    with assms(2) show ?thesis by simp
  next
    case (insn data insn s1 i1)
    note h = handler_okD [OF funcs_handler_ok [OF good_type [OF insn(4)]] insn(5)]
    from h(1) [OF assms(2)] h(3) insn(7) show ?thesis by simp
  qed
  then show "wf_state s'" "same_pages m m'" "pc s \<noteq> 0 \<or> gp s 0 = 0 \<Longrightarrow> gp s' 0 = 0" by auto
qed

text \<open>
  How a round ends: by falling through, or with one of the four exits. \<open>block_exit\<close> is the
  protocol between the interpreter and \<^verbatim>\<open>machine_step\<close>.
\<close>

definition block_exit :: "state_t \<Rightarrow> bool" where
  "block_exit s \<longleftrightarrow> (exit_reason s = halt \<and> pc s = 0 \<and> reenter_pc s = 0) \<or>
     (exit_reason s = direct_branch \<and> reenter_pc s = pc s) \<or>
     (exit_reason s = indirect_branch \<and> even (reenter_pc s)) \<or>
     (exit_reason s = ecall \<and> reenter_pc s = pc s + 4)"

definition falls_through :: "mem \<Rightarrow> state_t \<Rightarrow> state_t \<Rightarrow> bool" where
  "falls_through m s s' \<longleftrightarrow> (\<exists>data. load_u32 m (TO_HOST (pc s)) = Inr data \<and>
     pc s' = pc s + (if QUADRANT data \<noteq> 3 then 2 else 4) \<and>
     exit_reason s' = exit_reason s \<and> reenter_pc s' = reenter_pc s)"

lemma even_and_not_1: "even ((x::u64) AND - 2)"
  by (simp add: even_and_iff)

lemma interp_step_exit:
  assumes "interp_step s m = Inr (stop, s', m')"
  shows "if stop then block_exit s' else falls_through m s s'"
  using assms
proof (cases rule: interp_step_Inr)
  case halt
  then show ?thesis by (simp add: block_exit_def)
next
  case (insn data insn s1 i1)
  consider "insn_type insn = insn_jalr" | "insn_type insn = insn_jal" | "insn_type insn = insn_ecall"
    | "insn_type insn \<notin> {insn_jalr, insn_jal, insn_ecall}" by blast
  then show ?thesis
  proof cases
    case 4
    from insn(4) 4 have nc: "\<not> insn_cont insn" and rv: "insn_rvc insn = (QUADRANT data \<noteq> 3)"
      by (auto simp: good_def)
    from funcs_straight [OF good_type [OF insn(4)] 4] insn(5) have
      "(i1 = insn \<and> pc s1 = pc s \<and> exit_reason s1 = exit_reason s \<and> reenter_pc s1 = reenter_pc s) \<or>
       (i1 = insn\<lparr>insn_cont := True\<rparr> \<and> exit_reason s1 = direct_branch \<and> reenter_pc s1 = pc s1)"
      unfolding straight_or_branch_def by blast
    with insn nc rv show ?thesis by (auto simp: block_exit_def falls_through_def)
  qed (use insn in \<open>auto simp: funcs_jumps func_jalr_def func_jal_def func_ecall_def
      good_def Let_def block_exit_def even_and_not_1\<close>)
qed

subsection \<open>Whole blocks\<close>

lemma exec_block_induct:
  assumes "exec_block_interp s m = Some (Inr (s', m'))" "P s m"
    and step: "\<And>s m s1 m1. P s m \<Longrightarrow> interp_step s m = Inr (False, s1, m1) \<Longrightarrow> P s1 m1"
    and stop: "\<And>s m s1 m1. P s m \<Longrightarrow> interp_step s m = Inr (True, s1, m1) \<Longrightarrow> Q s1 m1"
  shows "Q s' m'"
proof -
  have "P s m \<longrightarrow> (\<forall>s' m'. r = Inr (s', m') \<longrightarrow> Q s' m')" if "exec_block_interp s m = Some r" for r
    using that
  proof (rule exec_block_interp.raw_induct [where P = "\<lambda>s m r. P s m \<longrightarrow> (\<forall>s' m'. r = Inr (s', m') \<longrightarrow> Q s' m')", rotated], goal_cases)
    case (1 exec s m r)
    then show ?case
      by (auto split: sum.splits prod.splits if_splits dest: step stop)
  qed
  with assms(1,2) show ?thesis by blast
qed

text \<open>A block that returns leaves well-formed registers, the same mapping and a valid exit.\<close>

lemma exec_block_inv:
  assumes "exec_block_interp s m = Some (Inr (s', m'))" "wf_state s" "gp s 0 = 0"
  shows "wf_state s' \<and> gp s' 0 = 0 \<and> same_pages m m' \<and> block_exit s'"
proof (rule exec_block_induct [OF assms(1), where P = "\<lambda>s1 m1. wf_state s1 \<and> gp s1 0 = 0 \<and> same_pages m m1"])
  show "wf_state s \<and> gp s 0 = 0 \<and> same_pages m m" using assms by simp
next
  fix s1 m1 s2 m2 assume *: "wf_state s1 \<and> gp s1 0 = 0 \<and> same_pages m m1"
    "interp_step s1 m1 = Inr (False, s2, m2)"
  with interp_step_inv [OF *(2)] show "wf_state s2 \<and> gp s2 0 = 0 \<and> same_pages m m2"
    by (blast intro: same_pages_trans)
next
  fix s1 m1 s2 m2 assume *: "wf_state s1 \<and> gp s1 0 = 0 \<and> same_pages m m1"
    "interp_step s1 m1 = Inr (True, s2, m2)"
  with interp_step_inv [OF *(2)] interp_step_exit [OF *(2)]
  show "wf_state s2 \<and> gp s2 0 = 0 \<and> same_pages m m2 \<and> block_exit s2"
    by (auto intro: same_pages_trans)
qed

text \<open>
  The interpreter always returns: a block without a branch runs into the first unmapped
  address after it.
\<close>

lemma loaded_is_mapped: "load_bytes m a n = Inr bs \<Longrightarrow> i < n \<Longrightarrow> m (a + of_nat i) \<noteq> None"
proof (induction n arbitrary: a bs i)
  case (Suc n)
  then obtain bs' where "load_bytes m (a + 1) n = Inr bs'" "m a \<noteq> None"
    by (auto simp: bindE_eq_Inr load_byte_def split: option.splits)
  with Suc.IH [of "a + 1" bs' "i - 1"] Suc.prems(2) show ?case by (cases i) (auto simp: add.assoc)
qed simp

lemma load_u32_mapped: "load_u32 m a = Inr d \<Longrightarrow> i < 4 \<Longrightarrow> m (a + of_nat i) \<noteq> None"
  by (auto simp: load_u32_def bindE_eq_Inr simp del: load_bytes.simps dest: loaded_is_mapped)

lemma fetch_distance:
  assumes "m h = None" "load_u32 m a = Inr d"
  shows "unat (h - (a + 2)) < unat (h - a)" "unat (h - (a + 4)) < unat (h - a)"
proof -
  have "h - a \<noteq> of_nat i" if "i < 4" for i
    using load_u32_mapped [OF assms(2) that] assms(1) by (metis diff_add_cancel add.commute)
  then have "\<not> unat (h - a) < 4" by (metis of_nat_unat ucast_id)
  then have ge: "4 \<le> unat (h - a)" by simp
  have "unat (h - a - k) < unat (h - a)" if "unat k \<le> 4" "k \<noteq> 0" for k
  proof -
    have "unat (h - a - k) = unat (h - a) - unat k"
      using that ge by (simp add: unat_sub word_le_nat_alt)
    moreover have "0 < unat k" using that(2) by (simp add: unat_gt_0)
    ultimately show ?thesis using ge by linarith
  qed
  from this [of 2] this [of 4]
  show "unat (h - (a + 2)) < unat (h - a)" "unat (h - (a + 4)) < unat (h - a)"
    by (simp_all add: diff_diff_eq)
qed

lemma interp_step_pages: "interp_step s m = Inr (stop, s', m') \<Longrightarrow> same_pages m m'"
  by (elim interp_step_Inr) (auto intro: handler_okD(3) [OF funcs_handler_ok] good_type)

lemma exec_block_returns:
  assumes "m h = None"
  shows "\<exists>r. exec_block_interp s m = Some r"
  using assms
proof (induction "unat (h - TO_HOST (pc s))" arbitrary: s m rule: less_induct)
  case less
  show ?case
  proof (cases "interp_step s m")
    case (Inl e)
    then show ?thesis by (subst exec_block_interp.simps) simp
  next
    case (Inr t)
    obtain stop s1 m1 where t: "t = (stop, s1, m1)" by (cases t)
    show ?thesis
    proof (cases stop)
      case True
      then show ?thesis using Inr t by (subst exec_block_interp.simps) simp
    next
      case False
      with interp_step_exit [of s m stop s1 m1] Inr t obtain d where
        d: "load_u32 m (TO_HOST (pc s)) = Inr d" "pc s1 = pc s + (if QUADRANT d \<noteq> 3 then 2 else 4)"
        by (auto simp: falls_through_def)
      have "unat (h - TO_HOST (pc s1)) < unat (h - TO_HOST (pc s))"
        using fetch_distance [of m h "TO_HOST (pc s)" d] less.prems d(1)
        by (simp add: d(2) TO_HOST_def algebra_simps)
      moreover have "m1 h = None"
        using interp_step_pages [of s m stop s1 m1] Inr t less.prems
        by (metis same_pages_def map_option_is_None)
      ultimately obtain r where "exec_block_interp s1 m1 = Some r" using less.hyps by blast
      with False Inr t show ?thesis by (subst exec_block_interp.simps) simp
    qed
  qed
qed

subsection \<open>Properties of the block interpreter\<close>

text \<open>A page of one address and a CPU state, for concrete runs.\<close>

definition demo_mem :: "u64 \<Rightarrow> u8 list \<Rightarrow> mem" where
  "demo_mem a bs = (\<lambda>b. if unat (b - TO_HOST a) < length bs then Some (7, bs ! unat (b - TO_HOST a)) else None)"

lemma demo_byte: "unat k < length bs \<Longrightarrow> load_byte (demo_mem a bs) (TO_HOST a + k) = Inr (bs ! unat k)"
  by (simp add: demo_mem_def load_byte_def readable_def)

lemma load_bytes_4:
  "load_bytes m a 4 = bindE (load_byte m a) (\<lambda>b0. bindE (load_byte m (a + 1)) (\<lambda>b1.
     bindE (load_byte m (a + 2)) (\<lambda>b2. bindE (load_byte m (a + 3)) (\<lambda>b3. Inr [b0, b1, b2, b3]))))"
  by (simp add: eval_nat_numeral add.assoc)

lemma demo_load_u32:
  "load_u32 (demo_mem a [b0, b1, b2, b3]) (TO_HOST a) = Inr (of_nat (le_val [b0, b1, b2, b3]))"
  unfolding load_u32_def load_bytes_4
  using demo_byte [of 0 "[b0, b1, b2, b3]" a] demo_byte [of 1 "[b0, b1, b2, b3]" a]
    demo_byte [of 2 "[b0, b1, b2, b3]" a] demo_byte [of 3 "[b0, b1, b2, b3]" a]
  by simp

definition demo_state :: "u64 \<Rightarrow> (nat \<Rightarrow> u64) \<Rightarrow> state_t" where
  "demo_state p r = \<lparr>exit_reason = none, reenter_pc = 0, gp_regs = map r [0..<32],
     fp_regs = replicate 32 0, pc = p\<rparr>"

text \<open>
  C9. The block interpreter returns whenever some host address is unmapped: a block either
  reaches a control transfer, a fault or \<^verbatim>\<open>pc\<close> zero, or runs into that address. Its loop has no
  other bound.
\<close>
theorem block_returns:
  "m h = None \<Longrightarrow> \<exists>r. exec_block_interp s m = Some r"
  by (rule exec_block_returns)

lemma block_returns_witness:
  "\<exists>r. exec_block_interp (demo_state 0x1000 (\<lambda>_. 0)) (demo_mem 0x1000 [0x13, 0, 0, 0]) = Some r"
  by (rule block_returns [of _ 0]) (simp add: demo_mem_def TO_HOST_def GUEST_MEMORY_OFFSET_def)

text \<open>
  C6. A block that returns hands back register files of the right size with \<^verbatim>\<open>x0\<close> zero, memory
  with the same pages mapped, and one of the exits \<^verbatim>\<open>machine_step\<close> handles: a direct branch
  re-entered at \<^verbatim>\<open>pc\<close>, an indirect one at an even address, an ECALL re-entered after it, or a
  halt; never \<^verbatim>\<open>none\<close> or \<^verbatim>\<open>interp\<close>.
\<close>
theorem block_invariant:
  "exec_block_interp s m = Some (Inr (s', m')) \<Longrightarrow> wf_state s \<Longrightarrow> gp s 0 = 0 \<Longrightarrow>
   wf_state s' \<and> gp s' 0 = 0 \<and> same_pages m m' \<and> block_exit s'"
  by (rule exec_block_inv)

lemma demo_wf [simp]: "wf_state (demo_state p r)"
  by (simp add: wf_state_def demo_state_def)

lemma demo_gp: "unat q < 32 \<Longrightarrow> gp (demo_state p r) q = r (unat q)"
  by (simp add: gp_def demo_state_def)

lemma demo_halt:
  "exec_block_interp (demo_state 0 r) m = Some (Inr ((demo_state 0 r)\<lparr>exit_reason := halt, reenter_pc := 0\<rparr>, m))"
  by (subst exec_block_interp.simps) (simp add: interp_step_def demo_state_def)

lemma block_invariant_witness:
  "block_exit ((demo_state 0 (\<lambda>_. 0))\<lparr>exit_reason := halt, reenter_pc := 0\<rparr>)"
  using block_invariant [OF demo_halt [of "\<lambda>_. 0" "\<lambda>_. None"]] by (simp add: demo_gp)

text \<open>
  C18. One round of the loop on a well-formed state keeps it well-formed and writes zero to
  \<^verbatim>\<open>x0\<close> whatever the instruction did, and when the block goes on, \<^verbatim>\<open>pc\<close> advances by the length of
  the instruction read there while the exit fields stay as they were.
\<close>
theorem step_invariant:
  "interp_step s m = Inr (stop, s', m') \<Longrightarrow> wf_state s \<Longrightarrow> pc s \<noteq> 0 \<Longrightarrow>
   wf_state s' \<and> gp s' 0 = 0 \<and> same_pages m m' \<and> (if stop then block_exit s' else falls_through m s s')"
  using interp_step_inv [of s m stop s' m'] interp_step_exit [of s m stop s' m'] by simp

lemma demo_nop:
  "\<exists>s'. interp_step (demo_state 0x1000 (\<lambda>_. 0)) (demo_mem 0x1000 [0x13, 0, 0, 0]) =
     Inr (False, s', demo_mem 0x1000 [0x13, 0, 0, 0])"
proof -
  have d: "insn_decode zero_insn 0x13 = Inr (zero_insn\<lparr>insn_type := insn_addi\<rparr>)"
    by (simp add: decode_eval)
  have f: "funcs ! insn_addi = func_addi" by (simp add: funcs_def)
  have p: "pc (demo_state 0x1000 (\<lambda>_. 0)) = 0x1000" by (simp add: demo_state_def)
  show ?thesis using d f
    by (simp add: interp_step_def p demo_load_u32 func_addi_def FUNC_imm_def Let_def zero_insn_def)
qed

lemma step_invariant_witness:
  "\<exists>s'. interp_step (demo_state 0x1000 (\<lambda>_. 0)) (demo_mem 0x1000 [0x13, 0, 0, 0]) =
     Inr (False, s', demo_mem 0x1000 [0x13, 0, 0, 0]) \<and> wf_state s' \<and> gp s' 0 = 0 \<and>
     falls_through (demo_mem 0x1000 [0x13, 0, 0, 0]) (demo_state 0x1000 (\<lambda>_. 0)) s'"
proof -
  from demo_nop obtain s' where s': "interp_step (demo_state 0x1000 (\<lambda>_. 0)) (demo_mem 0x1000 [0x13, 0, 0, 0]) =
     Inr (False, s', demo_mem 0x1000 [0x13, 0, 0, 0])" by blast
  have "pc (demo_state 0x1000 (\<lambda>_. 0)) \<noteq> 0" by (simp add: demo_state_def)
  from step_invariant [OF s' demo_wf this] s' show ?thesis by auto
qed

text \<open>
  C22. The four 32-bit divisions test the whole 64-bit divisor for zero and then divide by its
  low half: with a non-zero divisor whose low half is zero the host raises SIGFPE.
\<close>
theorem wdiv_fault:
  "t \<in> {insn_divw, insn_divuw, insn_remw, insn_remuw} \<Longrightarrow>
   gp s (insn_rs2 i) \<noteq> 0 \<Longrightarrow> lo32 (gp s (insn_rs2 i)) = 0 \<Longrightarrow> (funcs ! t) s m i = Inl Sigfpe"
  by (auto simp: funcs_def func_divw_def func_divuw_def func_remw_def func_remuw_def FUNC_alu_def Let_def)

lemma wdiv_fault_witness:
  "(funcs ! insn_divw) (demo_state 0x1000 (\<lambda>_. 0x100000000)) (\<lambda>_. None) zero_insn = Inl Sigfpe"
  by (rule wdiv_fault) (simp_all add: demo_gp zero_insn_def lo32_def)

end
