(* ===== verification/Isa_Spec.thy ===== *)
theory Isa_Spec
  imports Encode Interp_Props
begin

unbundle bit_operations_syntax

text \<open>
  An abstract RV64IM machine, after the RISC-V manual: registers as a function that is zero at
  \<^verbatim>\<open>x0\<close>, operations as arithmetic on integers, instructions with their operands
  (\<^typ>\<open>asm\<close>) instead of machine words. \<open>interp_simulates\<close> shows that one round of the
  block interpreter, which fetches, decodes and dispatches a machine word, performs the step of
  this machine.
\<close>

subsection \<open>Operations\<close>

definition sw :: "u64 \<Rightarrow> int" where "sw a = sint (lo32 a)"
definition uw :: "u64 \<Rightarrow> int" where "uw a = uint (lo32 a)"
definition ext32 :: "int \<Rightarrow> u64" where "ext32 i = scast (word_of_int i :: i32)"

definition isa_alu :: "(insn_type_t \<times> (u64 \<Rightarrow> u64 \<Rightarrow> u64)) list" where
  "isa_alu =
    [(insn_add, \<lambda>a b. word_of_int (sint a + sint b)),
     (insn_sub, \<lambda>a b. word_of_int (sint a - sint b)),
     (insn_sll, \<lambda>a b. word_of_int (uint a * 2 ^ (unat b mod 64))),
     (insn_slt, \<lambda>a b. if sint a < sint b then 1 else 0),
     (insn_sltu, \<lambda>a b. if uint a < uint b then 1 else 0),
     (insn_xor, \<lambda>a b. a XOR b), (insn_or, \<lambda>a b. a OR b), (insn_and, \<lambda>a b. a AND b),
     (insn_srl, \<lambda>a b. word_of_int (uint a div 2 ^ (unat b mod 64))),
     (insn_sra, \<lambda>a b. word_of_int (sint a div 2 ^ (unat b mod 64))),
     (insn_mul, \<lambda>a b. word_of_int (sint a * sint b)),
     (insn_mulh, \<lambda>a b. word_of_int (sint a * sint b div 2 ^ 64)),
     (insn_mulhsu, \<lambda>a b. word_of_int (sint a * uint b div 2 ^ 64)),
     (insn_mulhu, \<lambda>a b. word_of_int (uint a * uint b div 2 ^ 64)),
     (insn_div, \<lambda>a b. word_of_int (if sint b = 0 then - 1 else sint a sdiv sint b)),
     (insn_divu, \<lambda>a b. word_of_int (if uint b = 0 then - 1 else uint a div uint b)),
     (insn_rem, \<lambda>a b. word_of_int (if sint b = 0 then sint a else sint a smod sint b)),
     (insn_remu, \<lambda>a b. word_of_int (if uint b = 0 then uint a else uint a mod uint b)),
     (insn_addw, \<lambda>a b. ext32 (sw a + sw b)),
     (insn_subw, \<lambda>a b. ext32 (sw a - sw b)),
     (insn_sllw, \<lambda>a b. ext32 (uw a * 2 ^ (unat b mod 32))),
     (insn_srlw, \<lambda>a b. ext32 (uw a div 2 ^ (unat b mod 32))),
     (insn_sraw, \<lambda>a b. ext32 (sw a div 2 ^ (unat b mod 32))),
     (insn_mulw, \<lambda>a b. ext32 (sw a * sw b)),
     (insn_divw, \<lambda>a b. ext32 (if sw b = 0 then - 1 else sw a sdiv sw b)),
     (insn_divuw, \<lambda>a b. ext32 (if uw b = 0 then - 1 else uw a div uw b)),
     (insn_remw, \<lambda>a b. ext32 (if sw b = 0 then sw a else sw a smod sw b)),
     (insn_remuw, \<lambda>a b. ext32 (if uw b = 0 then uw a else uw a mod uw b))]"

text \<open>The immediate instructions are the register ones on the sign-extended immediate.\<close>

definition isa_imm :: "(insn_type_t \<times> insn_type_t) list" where
  "isa_imm =
    [(insn_addi, insn_add), (insn_slti, insn_slt), (insn_sltiu, insn_sltu), (insn_xori, insn_xor),
     (insn_ori, insn_or), (insn_andi, insn_and), (insn_slli, insn_sll), (insn_srli, insn_srl),
     (insn_srai, insn_sra), (insn_addiw, insn_addw), (insn_slliw, insn_sllw), (insn_srliw, insn_srlw),
     (insn_sraiw, insn_sraw)]"

subsection \<open>The handlers compute the operations\<close>

lemma word_of_sint_add: "word_of_int (sint a + sint b) = a + (b::'a::len word)"
  "word_of_int (sint a - sint b) = a - b" "word_of_int (sint a * sint b) = a * b"
  by simp_all

lemma sh6_mod: "sh6 b = unat b mod 64"
proof -
  have "b AND 0x3f = take_bit 6 b" by (simp add: take_bit_eq_mask mask_eq_exp_minus_1)
  then show ?thesis by (simp only: sh6_def) (simp add: unsigned_take_bit_eq take_bit_eq_mod unat_mod_distrib)
qed

lemma sh5_mod: "sh5 b = unat b mod 32"
proof -
  have "b AND 0x1f = take_bit 5 b" by (simp add: take_bit_eq_mask mask_eq_exp_minus_1)
  then show ?thesis by (simp only: sh5_def) (simp add: unsigned_take_bit_eq take_bit_eq_mod unat_mod_distrib)
qed

lemma push_bit_int: "push_bit n (a::'a::len word) = word_of_int (uint a * 2 ^ n)"
  by (simp add: push_bit_eq_mult)

lemma drop_bit_int: "drop_bit n (a::'a::len word) = word_of_int (uint a div 2 ^ n)"
proof -
  have "word_of_int (uint (drop_bit n a)) = drop_bit n a" by simp
  moreover have "take_bit LENGTH('a) (uint a) = uint a" by (simp add: take_bit_int_eq_self)
  ultimately show ?thesis by (simp only: unsigned_drop_bit_eq) (simp add: drop_bit_eq_div)
qed

lemma signed_drop_bit_int: "signed_drop_bit n (a::'a::len word) = word_of_int (sint a div 2 ^ n)"
proof -
  have "word_of_int (sint (signed_drop_bit n a)) = signed_drop_bit n a" by simp
  then show ?thesis by (simp only: sint_signed_drop_bit_eq) (simp add: drop_bit_eq_div)
qed

text \<open>Sign-extending the low half of a 64-bit result loses nothing of the 32-bit one.\<close>

lemma lo32_of_int: "lo32 (word_of_int i) = word_of_int i"
  unfolding lo32_def by (rule bit_word_eqI) (auto simp: bit_simps)

lemma lo32_arith:
  "lo32 (a + b) = word_of_int (sw a + sw b)" "lo32 (a - b) = word_of_int (sw a - sw b)"
  "lo32 (a * b) = word_of_int (sw a * sw b)" "lo32 (push_bit n a) = word_of_int (uw a * 2 ^ n)"
proof -
  have l: "lo32 x = word_of_int (uint x)" for x by (simp add: lo32_def)
  have "lo32 (a + b) = lo32 a + lo32 b"
    using lo32_of_int [of "uint a + uint b"] by (simp add: l)
  then show "lo32 (a + b) = word_of_int (sw a + sw b)" by (simp add: sw_def)
  have "lo32 (a - b) = lo32 a - lo32 b"
    using lo32_of_int [of "uint a - uint b"] by (simp add: l)
  then show "lo32 (a - b) = word_of_int (sw a - sw b)" by (simp add: sw_def)
  have "lo32 (a * b) = lo32 a * lo32 b"
    using lo32_of_int [of "uint a * uint b"] by (simp add: l)
  then show "lo32 (a * b) = word_of_int (sw a * sw b)" by (simp add: sw_def)
  have "lo32 (push_bit n a) = push_bit n (lo32 a)"
    unfolding lo32_def by (rule bit_word_eqI) (auto simp: bit_simps)
  then show "lo32 (push_bit n a) = word_of_int (uw a * 2 ^ n)" by (simp only: push_bit_int uw_def)
qed

lemma sx32_arith:
  "sx32 (a + b) = ext32 (sw a + sw b)" "sx32 (a - b) = ext32 (sw a - sw b)"
  "sx32 (a * b) = ext32 (sw a * sw b)" "sx32 (push_bit n a) = ext32 (uw a * 2 ^ n)"
  by (simp_all only: sx32_def ext32_def lo32_arith lo32_def [symmetric])

lemma sx32_of_int: "sx32 (word_of_int i) = ext32 i"
  by (simp only: sx32_def ext32_def lo32_of_int lo32_def [symmetric])

lemma sint_sx32: "sint (sx32 a) = sw a"
  unfolding sx32_def sw_def lo32_def by (rule sint_up_scast) (simp add: is_up)

lemma scast_lo32_int:
  "scast (drop_bit n (lo32 a)) = ext32 (uw a div 2 ^ n)"
  "scast (signed_drop_bit n (lo32 a)) = ext32 (sw a div 2 ^ n)"
  "scast (lo32 a div lo32 b) = ext32 (uw a div uw b)"
  "scast (lo32 a mod lo32 b) = ext32 (uw a mod uw b)"
  "scast (lo32 a) = ext32 (uw a)"
  by (simp_all only: ext32_def uw_def sw_def drop_bit_int signed_drop_bit_int word_div_def word_mod_def sx32_def
      lo32_def [symmetric] of_int_uint of_int_sint scast_id ucast_id)

lemma sx32_self: "sx32 a = ext32 (sw a)"
  by (simp add: sx32_def ext32_def sw_def lo32_def)

lemma w_zero: "sw b = 0 \<longleftrightarrow> lo32 b = 0" "uw b = 0 \<longleftrightarrow> lo32 b = 0"
  by (simp_all add: sw_def uw_def signed_eq_0_iff unsigned_eq_0_iff)

lemma div_int:
  "(if b = 0 then 0xFFFFFFFFFFFFFFFF
    else if a = 0x8000000000000000 \<and> b = 0xFFFFFFFFFFFFFFFF then 0x8000000000000000 else sdiv64 a b) =
   (word_of_int (if sint b = 0 then - 1 else sint a sdiv sint b) :: u64)"
  by (auto simp: sdiv64_def signed_eq_0_iff)

lemma rem_int:
  "(if b = 0 then a else if a = 0x8000000000000000 \<and> b = 0xFFFFFFFFFFFFFFFF then 0 else smod64 a b) =
   (word_of_int (if sint b = 0 then sint a else sint a smod sint b) :: u64)"
  by (auto simp: smod64_def signed_eq_0_iff signed_modulo_int_def)

lemma divu_int: "(if b = 0 then 0xFFFFFFFFFFFFFFFF else a div b) =
   (word_of_int (if uint b = 0 then - 1 else uint a div uint b) :: u64)"
  by (simp add: word_div_def unsigned_eq_0_iff)

lemma remu_int: "(if b = 0 then a else a mod b) =
   (word_of_int (if uint b = 0 then uint a else uint a mod uint b) :: u64)"
  by (simp add: word_mod_def unsigned_eq_0_iff)

definition w_div :: "insn_type_t \<Rightarrow> bool" where
  "w_div t \<longleftrightarrow> t \<in> {insn_divw, insn_divuw, insn_remw, insn_remuw}"

text \<open>
  The handlers of the 32-bit divisions test the whole divisor for zero: the low half has to
  agree with that test.
\<close>

definition div_pre :: "insn_type_t \<Rightarrow> u64 \<Rightarrow> bool" where
  "div_pre t b \<longleftrightarrow> (w_div t \<longrightarrow> lo32 b = 0 \<longrightarrow> b = 0)"

definition computes :: "insn_type_t \<Rightarrow> func_t \<Rightarrow> (u64 \<Rightarrow> u64 \<Rightarrow> u64) \<Rightarrow> bool" where
  "computes t h f \<longleftrightarrow> (\<forall>s m i. div_pre t (gp s (insn_rs2 i)) \<longrightarrow>
     h s m i = Inr (set_gp (insn_rd i) (f (gp s (insn_rs1 i)) (gp s (insn_rs2 i))) s, m, i))"

lemma computes_alu:
  "(\<And>a b. div_pre t b \<Longrightarrow> e a b = Inr (f a b)) \<Longrightarrow> computes t (FUNC_alu e) f"
  by (simp add: computes_def FUNC_alu_def)

lemma lo32_zero [simp]: "lo32 0 = 0"
  by (simp add: lo32_def)

lemmas alu_int = word_of_sint_add sh6_mod sh5_mod push_bit_int drop_bit_int signed_drop_bit_int
  mulhu_int mulh_int mulhsu_int div_int divu_int rem_int remu_int word_sless_alt word_less_def

lemma computes_64:
  "computes insn_add func_add (\<lambda>a b. word_of_int (sint a + sint b))"
  "computes insn_sub func_sub (\<lambda>a b. word_of_int (sint a - sint b))"
  "computes insn_sll func_sll (\<lambda>a b. word_of_int (uint a * 2 ^ (unat b mod 64)))"
  "computes insn_slt func_slt (\<lambda>a b. if sint a < sint b then 1 else 0)"
  "computes insn_sltu func_sltu (\<lambda>a b. if uint a < uint b then 1 else 0)"
  "computes insn_xor func_xor (\<lambda>a b. a XOR b)"
  "computes insn_or func_or (\<lambda>a b. a OR b)"
  "computes insn_and func_and (\<lambda>a b. a AND b)"
  "computes insn_srl func_srl (\<lambda>a b. word_of_int (uint a div 2 ^ (unat b mod 64)))"
  "computes insn_sra func_sra (\<lambda>a b. word_of_int (sint a div 2 ^ (unat b mod 64)))"
  "computes insn_mul func_mul (\<lambda>a b. word_of_int (sint a * sint b))"
  unfolding alu_defs
  by (rule computes_alu, simp only: alu_int of_bool_def)+

lemma computes_div:
  "computes insn_mulh func_mulh (\<lambda>a b. word_of_int (sint a * sint b div 2 ^ 64))"
  "computes insn_mulhsu func_mulhsu (\<lambda>a b. word_of_int (sint a * uint b div 2 ^ 64))"
  "computes insn_mulhu func_mulhu (\<lambda>a b. word_of_int (uint a * uint b div 2 ^ 64))"
  "computes insn_div func_div (\<lambda>a b. word_of_int (if sint b = 0 then - 1 else sint a sdiv sint b))"
  "computes insn_divu func_divu (\<lambda>a b. word_of_int (if uint b = 0 then - 1 else uint a div uint b))"
  "computes insn_rem func_rem (\<lambda>a b. word_of_int (if sint b = 0 then sint a else sint a smod sint b))"
  "computes insn_remu func_remu (\<lambda>a b. word_of_int (if uint b = 0 then uint a else uint a mod uint b))"
  unfolding alu_defs
  by (rule computes_alu, simp only: alu_int)+

lemma computes_32:
  "computes insn_addw func_addw (\<lambda>a b. ext32 (sw a + sw b))"
  "computes insn_subw func_subw (\<lambda>a b. ext32 (sw a - sw b))"
  "computes insn_sllw func_sllw (\<lambda>a b. ext32 (uw a * 2 ^ (unat b mod 32)))"
  "computes insn_srlw func_srlw (\<lambda>a b. ext32 (uw a div 2 ^ (unat b mod 32)))"
  "computes insn_sraw func_sraw (\<lambda>a b. ext32 (sw a div 2 ^ (unat b mod 32)))"
  "computes insn_mulw func_mulw (\<lambda>a b. ext32 (sw a * sw b))"
  unfolding alu_defs
  by (rule computes_alu, simp only: sx32_arith scast_lo32_int sh5_mod)+

lemma ext32_m1: "ext32 (- 1) = 0xFFFFFFFFFFFFFFFF"
  by (simp add: ext32_def)

lemma computes_wdiv:
  "computes insn_divw func_divw (\<lambda>a b. ext32 (if sw b = 0 then - 1 else sw a sdiv sw b))"
  "computes insn_divuw func_divuw (\<lambda>a b. ext32 (if uw b = 0 then - 1 else uw a div uw b))"
  "computes insn_remw func_remw (\<lambda>a b. ext32 (if sw b = 0 then sw a else sw a smod sw b))"
  "computes insn_remuw func_remuw (\<lambda>a b. ext32 (if uw b = 0 then uw a else uw a mod uw b))"
  unfolding alu_defs
  by (rule computes_alu, auto simp: div_pre_def w_div_def w_zero ext32_m1 sdiv64_def smod64_def sint_sx32
      sx32_of_int scast_lo32_int sx32_self [symmetric])+

lemma funcs_alu:
  "funcs ! insn_add = func_add"
  "funcs ! insn_sub = func_sub"
  "funcs ! insn_sll = func_sll"
  "funcs ! insn_slt = func_slt"
  "funcs ! insn_sltu = func_sltu"
  "funcs ! insn_xor = func_xor"
  "funcs ! insn_or = func_or"
  "funcs ! insn_and = func_and"
  "funcs ! insn_srl = func_srl"
  "funcs ! insn_sra = func_sra"
  "funcs ! insn_mul = func_mul"
  "funcs ! insn_mulh = func_mulh"
  "funcs ! insn_mulhsu = func_mulhsu"
  "funcs ! insn_mulhu = func_mulhu"
  "funcs ! insn_div = func_div"
  "funcs ! insn_divu = func_divu"
  "funcs ! insn_rem = func_rem"
  "funcs ! insn_remu = func_remu"
  "funcs ! insn_addw = func_addw"
  "funcs ! insn_subw = func_subw"
  "funcs ! insn_sllw = func_sllw"
  "funcs ! insn_srlw = func_srlw"
  "funcs ! insn_sraw = func_sraw"
  "funcs ! insn_mulw = func_mulw"
  "funcs ! insn_divw = func_divw"
  "funcs ! insn_divuw = func_divuw"
  "funcs ! insn_remw = func_remw"
  "funcs ! insn_remuw = func_remuw"
  by (simp_all add: funcs_def)

lemma isa_alu_computes: "(t, f) \<in> set isa_alu \<Longrightarrow> computes t (funcs ! t) f"
proof -
  have "list_all (\<lambda>(t, f). computes t (funcs ! t) f) isa_alu"
    unfolding isa_alu_def list.pred_inject prod.case funcs_alu
    by (intro conjI list.pred_inject(1) computes_64 computes_div computes_32 computes_wdiv)
  then show "(t, f) \<in> set isa_alu \<Longrightarrow> computes t (funcs ! t) f" by (auto simp: list_all_iff)
qed

text \<open>The same for the immediate instructions.\<close>

definition computes_imm :: "func_t \<Rightarrow> (u64 \<Rightarrow> u64 \<Rightarrow> u64) \<Rightarrow> bool" where
  "computes_imm h f \<longleftrightarrow> (\<forall>s m i. h s m i = Inr (set_gp (insn_rd i) (f (gp s (insn_rs1 i)) (imm64 i)) s, m, i))"

lemma computes_immI: "(\<And>a b. e a b = f a b) \<Longrightarrow> computes_imm (FUNC_imm e) f"
  by (simp add: computes_imm_def FUNC_imm_def)

lemma computes_imm_64:
  "computes_imm func_addi (\<lambda>a b. word_of_int (sint a + sint b))"
  "computes_imm func_slti (\<lambda>a b. if sint a < sint b then 1 else 0)"
  "computes_imm func_sltiu (\<lambda>a b. if uint a < uint b then 1 else 0)"
  "computes_imm func_xori (\<lambda>a b. a XOR b)"
  "computes_imm func_ori (\<lambda>a b. a OR b)"
  "computes_imm func_andi (\<lambda>a b. a AND b)"
  "computes_imm func_slli (\<lambda>a b. word_of_int (uint a * 2 ^ (unat b mod 64)))"
  "computes_imm func_srli (\<lambda>a b. word_of_int (uint a div 2 ^ (unat b mod 64)))"
  "computes_imm func_srai (\<lambda>a b. word_of_int (sint a div 2 ^ (unat b mod 64)))"
  unfolding alu_defs
  by (rule computes_immI, simp only: alu_int of_bool_def)+

lemma computes_imm_32:
  "computes_imm func_addiw (\<lambda>a b. ext32 (sw a + sw b))"
  "computes_imm func_slliw (\<lambda>a b. ext32 (uw a * 2 ^ (unat b mod 32)))"
  "computes_imm func_srliw (\<lambda>a b. ext32 (uw a div 2 ^ (unat b mod 32)))"
  "computes_imm func_sraiw (\<lambda>a b. ext32 (sw a div 2 ^ (unat b mod 32)))"
  unfolding alu_defs
  by (rule computes_immI, simp only: sx32_arith scast_lo32_int sh5_mod)+

lemma funcs_imm:
  "funcs ! insn_addi = func_addi" "funcs ! insn_slti = func_slti" "funcs ! insn_sltiu = func_sltiu"
  "funcs ! insn_xori = func_xori" "funcs ! insn_ori = func_ori" "funcs ! insn_andi = func_andi"
  "funcs ! insn_slli = func_slli" "funcs ! insn_srli = func_srli" "funcs ! insn_srai = func_srai"
  "funcs ! insn_addiw = func_addiw" "funcs ! insn_slliw = func_slliw" "funcs ! insn_srliw = func_srliw"
  "funcs ! insn_sraiw = func_sraiw" "funcs ! insn_lui = func_lui" "funcs ! insn_auipc = func_auipc"
  by (simp_all add: funcs_def)

lemma isa_imm_alu:
  "list_all (\<lambda>(t, rt). \<exists>f. map_of isa_alu rt = Some f \<and> computes_imm (funcs ! t) f) isa_imm"
  unfolding isa_imm_def list.pred_inject prod.case funcs_imm isa_alu_def
  by (intro conjI list.pred_inject(1) exI; (rule computes_imm_64 computes_imm_32)?; simp)

lemma isa_imm_computes:
  "map_of isa_imm t = Some rt \<Longrightarrow> map_of isa_alu rt = Some f \<Longrightarrow> computes_imm (funcs ! t) f"
  using isa_imm_alu by (fastforce simp: list_all_iff dest: map_of_SomeD)

subsection \<open>The abstract machine\<close>

record isa_t =
  isa_x :: "i8 \<Rightarrow> u64"
  isa_pc :: u64

definition isa_wr :: "i8 \<Rightarrow> u64 \<Rightarrow> isa_t \<Rightarrow> isa_t" where
  "isa_wr rd v st = st\<lparr>isa_x := (isa_x st)(rd := if rd = 0 then 0 else v)\<rparr>"

definition isa_next :: "isa_t \<Rightarrow> isa_t" where
  "isa_next st = st\<lparr>isa_pc := isa_pc st + 4\<rparr>"

definition isa_load :: "(insn_type_t \<times> (mem \<Rightarrow> u64 \<Rightarrow> u64 result)) list" where
  "isa_load =
    [(insn_lb, \<lambda>m a. bindE (load_u8 m a) (\<lambda>x. Inr (scast x))),
     (insn_lh, \<lambda>m a. bindE (load_u16 m a) (\<lambda>x. Inr (scast x))),
     (insn_lw, \<lambda>m a. bindE (load_u32 m a) (\<lambda>x. Inr (scast x))),
     (insn_ld, load_u64),
     (insn_lbu, \<lambda>m a. bindE (load_u8 m a) (\<lambda>x. Inr (ucast x))),
     (insn_lhu, \<lambda>m a. bindE (load_u16 m a) (\<lambda>x. Inr (ucast x))),
     (insn_lwu, \<lambda>m a. bindE (load_u32 m a) (\<lambda>x. Inr (ucast x)))]"

definition isa_store :: "(insn_type_t \<times> (mem \<Rightarrow> u64 \<Rightarrow> u64 \<Rightarrow> mem result)) list" where
  "isa_store =
    [(insn_sb, \<lambda>m a v. store_u8 m a (ucast v)), (insn_sh, \<lambda>m a v. store_u16 m a (ucast v)),
     (insn_sw, \<lambda>m a v. store_u32 m a (ucast v)), (insn_sd, store_u64)]"

definition isa_branch :: "(insn_type_t \<times> (u64 \<Rightarrow> u64 \<Rightarrow> bool)) list" where
  "isa_branch =
    [(insn_beq, \<lambda>a b. a = b), (insn_bne, \<lambda>a b. a \<noteq> b),
     (insn_blt, \<lambda>a b. sint a < sint b), (insn_bge, \<lambda>a b. sint b \<le> sint a),
     (insn_bltu, \<lambda>a b. uint a < uint b), (insn_bgeu, \<lambda>a b. uint b \<le> uint a)]"

definition isa_immop :: "insn_type_t \<Rightarrow> i8 \<Rightarrow> i8 \<Rightarrow> u64 \<Rightarrow> isa_t \<Rightarrow> isa_t option" where
  "isa_immop t rd r1 v st =
     (case map_of isa_imm t of None \<Rightarrow> None
      | Some rt \<Rightarrow> map_option (\<lambda>f. isa_next (isa_wr rd (f (isa_x st r1) v) st)) (map_of isa_alu rt))"

text \<open>One instruction; \<^const>\<open>None\<close> for what is outside RV64IM.\<close>

fun isa_step :: "asm \<Rightarrow> isa_t \<Rightarrow> mem \<Rightarrow> (isa_t \<times> mem) result option" where
  "isa_step (AR t rd r1 r2) st m =
     map_option (\<lambda>f. Inr (isa_next (isa_wr rd (f (isa_x st r1) (isa_x st r2)) st), m)) (map_of isa_alu t)"
| "isa_step (AI t rd r1 imm) st m = (case map_of isa_load t of
     Some ld \<Rightarrow> Some (bindE (ld m (TO_HOST (isa_x st r1 + scast imm))) (\<lambda>v.
       Inr (isa_next (isa_wr rd v st), m)))
   | None \<Rightarrow> map_option (\<lambda>st'. Inr (st', m)) (isa_immop t rd r1 (scast imm) st))"
| "isa_step (ASh t rd r1 sh) st m = map_option (\<lambda>st'. Inr (st', m)) (isa_immop t rd r1 (ucast sh) st)"
| "isa_step (AS t r1 r2 imm) st m = map_option (\<lambda>sto.
     bindE (sto m (TO_HOST (isa_x st r1 + scast imm)) (isa_x st r2)) (\<lambda>m'. Inr (isa_next st, m')))
     (map_of isa_store t)"
| "isa_step (AB t r1 r2 imm) st m = map_option (\<lambda>c.
     Inr (if c (isa_x st r1) (isa_x st r2) then st\<lparr>isa_pc := isa_pc st + scast imm\<rparr> else isa_next st, m))
     (map_of isa_branch t)"
| "isa_step (AU t rd imm) st m =
     (if t = insn_lui then Some (Inr (isa_next (isa_wr rd (scast imm) st), m))
      else if t = insn_auipc then Some (Inr (isa_next (isa_wr rd (isa_pc st + scast imm) st), m))
      else None)"
| "isa_step (AJ rd imm) st m =
     Some (Inr ((isa_wr rd (isa_pc st + 4) st)\<lparr>isa_pc := isa_pc st + scast imm\<rparr>, m))"
| "isa_step (AJalr rd r1 imm) st m =
     Some (Inr ((isa_wr rd (isa_pc st + 4) st)\<lparr>isa_pc := (isa_x st r1 + scast imm) AND NOT 1\<rparr>, m))"
| "isa_step AEcall st m = Some (Inr (isa_next st, m))"
| "isa_step _ st m = None"

subsection \<open>Simulation\<close>

text \<open>
  The abstract state of the interpreter: after a round that ended the block, execution goes
  on at \<^verbatim>\<open>reenter_pc\<close>, otherwise at \<^verbatim>\<open>pc\<close>.
\<close>

definition isa_abs :: "state_t \<Rightarrow> u64 \<Rightarrow> isa_t" where
  "isa_abs s p = \<lparr>isa_x = gp s, isa_pc = p\<rparr>"

definition next_pc :: "bool \<Rightarrow> state_t \<Rightarrow> u64" where
  "next_pc stop s = (if stop then reenter_pc s else pc s)"

definition simulates :: "state_t \<Rightarrow> mem \<Rightarrow> (isa_t \<times> mem) result \<Rightarrow> bool" where
  "simulates s m r \<longleftrightarrow> (case r of
     Inl e \<Rightarrow> interp_step s m = Inl e
   | Inr (st', m') \<Rightarrow> \<exists>stop s'. interp_step s m = Inr (stop, s', m') \<and> isa_abs s' (next_pc stop s') = st')"

text \<open>A fetched and decoded instruction is run by its handler.\<close>

definition fetches :: "state_t \<Rightarrow> mem \<Rightarrow> insn_t \<Rightarrow> bool" where
  "fetches s m i \<longleftrightarrow> wf_state s \<and> gp s 0 = 0 \<and> pc s \<noteq> 0 \<and> wf_insn i \<and>
     (\<exists>w. load_u32 m (TO_HOST (pc s)) = Inr w \<and> insn_decode zero_insn w = Inr i)"

lemma fetches_step:
  assumes "fetches s m i"
  shows "interp_step s m = bindE ((funcs ! insn_type i) s m i) (\<lambda>(state, m, insn).
          let state = set_gp reg_zero 0 state in
          if insn_cont insn then Inr (True, state, m)
          else Inr (False, state\<lparr>pc := pc state + (if insn_rvc insn then 2 else 4)\<rparr>, m))"
  using assms by (auto simp: fetches_def interp_step_def wf_insn_def)

lemma abs_wr:
  assumes "wf_state s" "gp s 0 = 0" "unat rd < 32"
  shows "gp (set_gp 0 0 (set_gp rd v s)) = (gp s)(rd := if rd = 0 then 0 else v)"
  using assms by (auto simp: gp_set_gp fun_eq_iff)

lemma abs_idle: "wf_state s \<Longrightarrow> gp s 0 = 0 \<Longrightarrow> gp (set_gp 0 0 s) = gp s"
  by (auto simp: gp_set_gp fun_eq_iff)

lemma simulatesI:
  "interp_step s m = Inr (stop, s', m') \<Longrightarrow> isa_abs s' (next_pc stop s') = st' \<Longrightarrow> simulates s m (Inr (st', m'))"
  by (auto simp: simulates_def)

text \<open>A handler that only writes a register.\<close>

lemma simulates_put:
  assumes "fetches s m i" "(funcs ! insn_type i) s m i = Inr (set_gp (insn_rd i) v s, m, i)"
    and "\<not> insn_cont i" "\<not> insn_rvc i"
  shows "simulates s m (Inr (isa_next (isa_wr (insn_rd i) v (isa_abs s (pc s))), m))"
proof -
  have "interp_step s m = Inr (False, (set_gp 0 0 (set_gp (insn_rd i) v s))\<lparr>pc := pc s + 4\<rparr>, m)"
    using fetches_step [OF assms(1)] assms(2-4) by simp
  moreover have "gp (set_gp 0 0 (set_gp (insn_rd i) v s)) = (gp s)(insn_rd i := if insn_rd i = 0 then 0 else v)"
    using assms(1) by (intro abs_wr) (auto simp: fetches_def wf_insn_def)
  ultimately show ?thesis
    by (intro simulatesI) (auto simp: isa_abs_def isa_wr_def isa_next_def next_pc_def fun_eq_iff)
qed

lemma simulates_fault:
  assumes "fetches s m i" "(funcs ! insn_type i) s m i = Inl e"
  shows "simulates s m (Inl e)"
  using fetches_step [OF assms(1)] assms(2) by (simp add: simulates_def)

lemma simulates_idle:
  assumes "fetches s m i" "(funcs ! insn_type i) s m i = Inr (s, m', i)"
    and "\<not> insn_cont i" "\<not> insn_rvc i"
  shows "simulates s m (Inr (isa_next (isa_abs s (pc s)), m'))"
proof -
  have "interp_step s m = Inr (False, (set_gp 0 0 s)\<lparr>pc := pc s + 4\<rparr>, m')"
    using fetches_step [OF assms(1)] assms(2-4) by simp
  moreover have "gp (set_gp 0 0 s) = gp s" using assms(1) by (intro abs_idle) (auto simp: fetches_def)
  ultimately show ?thesis
    by (intro simulatesI) (auto simp: isa_abs_def isa_next_def next_pc_def fun_eq_iff)
qed

text \<open>A handler that ends the block, having set the link register \<open>rd\<close> or none.\<close>

lemma simulates_jump:
  assumes "fetches s m i" "(funcs ! insn_type i) s m i = Inr (s1, m, i1)" "insn_cont i1"
    and "gp_regs s1 = gp_regs (set_gp rd v s)" "unat rd < 32"
  shows "simulates s m (Inr ((isa_wr rd v (isa_abs s (pc s)))\<lparr>isa_pc := reenter_pc s1\<rparr>, m))"
proof -
  have "interp_step s m = Inr (True, set_gp 0 0 s1, m)"
    using fetches_step [OF assms(1)] assms(2,3) by simp
  moreover have "gp (set_gp 0 0 (set_gp rd v s)) = (gp s)(rd := if rd = 0 then 0 else v)"
    using assms(1,5) by (intro abs_wr) (auto simp: fetches_def)
  then have "gp (set_gp 0 0 s1) = (gp s)(rd := if rd = 0 then 0 else v)"
    using assms(4) by (simp add: gp_def set_gp_def fun_eq_iff)
  ultimately show ?thesis
    by (intro simulatesI) (auto simp: isa_abs_def isa_wr_def next_pc_def fun_eq_iff)
qed

lemma isa_wr_zero: "gp s 0 = 0 \<Longrightarrow> isa_wr 0 v (isa_abs s p) = isa_abs s p"
  by (auto simp: isa_wr_def isa_abs_def)

lemma simulates_leave:
  assumes "fetches s m i" "(funcs ! insn_type i) s m i = Inr (s1, m, i1)" "insn_cont i1"
    and "gp_regs s1 = gp_regs s"
  shows "simulates s m (Inr ((isa_abs s (pc s))\<lparr>isa_pc := reenter_pc s1\<rparr>, m))"
proof -
  have z: "gp s 0 = 0" and "length (gp_regs s) = 32" using assms(1) by (simp_all add: fetches_def)
  then have "(gp_regs s)[0 := 0] = gp_regs s" by (simp add: gp_def list_update_same_conv)
  then have "gp_regs s1 = gp_regs (set_gp 0 0 s)" using assms(4) by (simp add: set_gp_def)
  from simulates_jump [OF assms(1-3) this] show ?thesis by (simp add: isa_wr_zero [OF z])
qed

subsection \<open>Simulation, by format\<close>

lemma funcs_mem:
  "funcs ! insn_lb = func_lb" "funcs ! insn_lh = func_lh" "funcs ! insn_lw = func_lw"
  "funcs ! insn_ld = func_ld" "funcs ! insn_lbu = func_lbu" "funcs ! insn_lhu = func_lhu"
  "funcs ! insn_lwu = func_lwu" "funcs ! insn_sb = func_sb" "funcs ! insn_sh = func_sh"
  "funcs ! insn_sw = func_sw" "funcs ! insn_sd = func_sd" "funcs ! insn_beq = func_beq"
  "funcs ! insn_bne = func_bne" "funcs ! insn_blt = func_blt" "funcs ! insn_bge = func_bge"
  "funcs ! insn_bltu = func_bltu" "funcs ! insn_bgeu = func_bgeu"
  by (simp_all add: funcs_def)

lemma load_handler:
  "(t, ld) \<in> set isa_load \<Longrightarrow> (funcs ! t) s m i =
     bindE (ld m (TO_HOST (gp s (insn_rs1 i) + imm64 i))) (\<lambda>v. Inr (set_gp (insn_rd i) v s, m, i))"
  unfolding isa_load_def
  by (simp only: list.set insert_iff prod.inject empty_iff, elim disjE conjE FalseE;
      simp only: funcs_mem alu_defs; simp add: FUNC_load_def Let_def)

lemma store_handler:
  "(t, st) \<in> set isa_store \<Longrightarrow> (funcs ! t) s m i =
     bindE (st m (TO_HOST (gp s (insn_rs1 i) + imm64 i)) (gp s (insn_rs2 i))) (\<lambda>m'. Inr (s, m', i))"
  unfolding isa_store_def
  by (simp only: list.set insert_iff prod.inject empty_iff, elim disjE conjE FalseE;
      simp only: funcs_mem alu_defs; simp add: FUNC_store_def Let_def)

lemma branch_handler:
  "(t, c) \<in> set isa_branch \<Longrightarrow> (funcs ! t) s m i =
     (if c (gp s (insn_rs1 i)) (gp s (insn_rs2 i)) then
        Inr (s\<lparr>pc := pc s + imm64 i, reenter_pc := pc s + imm64 i, exit_reason := direct_branch\<rparr>, m,
             i\<lparr>insn_cont := True\<rparr>)
      else Inr (s, m, i))"
  unfolding isa_branch_def
  by (simp only: list.set insert_iff prod.inject empty_iff, elim disjE conjE FalseE;
      simp only: funcs_mem alu_defs; simp add: FUNC_branch_def Let_def word_sless_alt word_sle_eq
        word_less_def word_le_def)

lemma shift_amount:
  assumes "w \<le> 6"
  shows "unat (scast (push_bit w hb OR sh :: i32) :: u64) mod 2 ^ w = unat (ucast sh :: u64) mod 2 ^ w"
proof -
  have "take_bit w (scast (push_bit w hb OR sh :: i32) :: u64) = take_bit w (ucast sh)"
    by (rule bit_word_eqI) (use assms in \<open>auto simp: bit_simps\<close>)
  then have "unat (take_bit w (scast (push_bit w hb OR sh :: i32) :: u64)) = unat (take_bit w (ucast sh :: u64))"
    by (rule arg_cong)
  then show ?thesis unfolding unsigned_take_bit_eq by (simp add: take_bit_eq_mod)
qed

lemma shift_imm:
  assumes "map_of sh_table t = Some (opc, f3, w, hb)" "map_of isa_imm t = Some rt" "map_of isa_alu rt = Some f"
  shows "f a (scast (push_bit w hb OR sh)) = f a (ucast sh)"
proof -
  have "(t, opc, f3, w, hb) \<in> set sh_table" using assms(1) by (rule map_of_SomeD)
  then consider "t = insn_slli" "w = 6" | "t = insn_srli" "w = 6" | "t = insn_srai" "w = 6"
    | "t = insn_slliw" "w = 5" | "t = insn_srliw" "w = 5" | "t = insn_sraiw" "w = 5"
    unfolding sh_table_def by auto
  then show ?thesis
    using shift_amount [of w hb sh] assms(2,3)
    by cases (auto simp: isa_imm_def isa_alu_def)
qed

lemma isa_immop_cong:
  assumes "\<And>rt f. map_of isa_imm t = Some rt \<Longrightarrow> map_of isa_alu rt = Some f \<Longrightarrow>
     f (isa_x st r1) v = f (isa_x st r1) v'"
  shows "isa_immop t rd r1 v st = isa_immop t rd r1 v' st"
proof (cases "map_of isa_imm t")
  case (Some rt)
  note rt = this
  show ?thesis
  proof (cases "map_of isa_alu rt")
    case (Some f)
    show ?thesis by (simp add: isa_immop_def rt Some assms [OF rt Some])
  qed (simp add: isa_immop_def rt)
qed (simp add: isa_immop_def)

definition asm_div_ok :: "asm \<Rightarrow> state_t \<Rightarrow> bool" where
  "asm_div_ok a s = (case a of AR t rd r1 r2 \<Rightarrow> div_pre t (gp s r2) | _ \<Rightarrow> True)"

lemma asm_fetches:
  assumes "wf_state s" "gp s 0 = 0" "pc s \<noteq> 0" "asm_ok a" "encode a = Some w"
    "load_u32 m (TO_HOST (pc s)) = Inr w"
  shows "fetches s m (asm_insn a)"
proof -
  have d: "insn_decode zero_insn w = Inr (asm_insn a)" by (rule decode_encode_all [OF assms(4,5)])
  have "good (QUADRANT w \<noteq> 3) (asm_insn a)" by (rule decode_good [OF d]) simp
  with d assms show ?thesis by (simp add: fetches_def good_def)
qed

lemma sim_R:
  assumes "fetches s m (asm_insn (AR t rd r1 r2))" "div_pre t (gp s r2)" "map_of isa_alu t = Some f"
  shows "simulates s m (Inr (isa_next (isa_wr rd (f (gp s r1) (gp s r2)) (isa_abs s (pc s))), m))"
  using simulates_put [OF assms(1)] isa_alu_computes [OF map_of_SomeD [OF assms(3)]] assms(2)
  by (simp add: computes_def zero_insn_def)

lemma sim_imm:
  assumes "fetches s m i" "\<not> insn_cont i" "\<not> insn_rvc i"
    and "isa_immop (insn_type i) (insn_rd i) (insn_rs1 i) (imm64 i) (isa_abs s (pc s)) = Some st'"
  shows "simulates s m (Inr (st', m))"
proof -
  from assms(4) obtain rt f where f: "map_of isa_imm (insn_type i) = Some rt" "map_of isa_alu rt = Some f"
    "st' = isa_next (isa_wr (insn_rd i) (f (gp s (insn_rs1 i)) (imm64 i)) (isa_abs s (pc s)))"
    by (auto simp: isa_immop_def isa_abs_def split: option.splits)
  with isa_imm_computes [OF f(1,2)] simulates_put [OF assms(1) _ assms(2,3)] show ?thesis
    by (simp add: computes_imm_def)
qed

lemma sim_mem:
  assumes "fetches s m i" "\<not> insn_cont i" "\<not> insn_rvc i"
  shows "map_of isa_load (insn_type i) = Some ld \<Longrightarrow> simulates s m
      (bindE (ld m (TO_HOST (gp s (insn_rs1 i) + imm64 i))) (\<lambda>v.
        Inr (isa_next (isa_wr (insn_rd i) v (isa_abs s (pc s))), m)))"
    "map_of isa_store (insn_type i) = Some sto \<Longrightarrow> simulates s m
      (bindE (sto m (TO_HOST (gp s (insn_rs1 i) + imm64 i)) (gp s (insn_rs2 i))) (\<lambda>m'.
        Inr (isa_next (isa_abs s (pc s)), m')))"
proof -
  assume "map_of isa_load (insn_type i) = Some ld"
  note h = load_handler [OF map_of_SomeD [OF this], of s m i]
  show "simulates s m (bindE (ld m (TO_HOST (gp s (insn_rs1 i) + imm64 i))) (\<lambda>v.
        Inr (isa_next (isa_wr (insn_rd i) v (isa_abs s (pc s))), m)))"
    using h simulates_put [OF assms(1) _ assms(2,3)] simulates_fault [OF assms(1)]
    by (cases "ld m (TO_HOST (gp s (insn_rs1 i) + imm64 i))") simp_all
next
  assume "map_of isa_store (insn_type i) = Some sto"
  note h = store_handler [OF map_of_SomeD [OF this], of s m i]
  show "simulates s m (bindE (sto m (TO_HOST (gp s (insn_rs1 i) + imm64 i)) (gp s (insn_rs2 i))) (\<lambda>m'.
        Inr (isa_next (isa_abs s (pc s)), m')))"
    using h simulates_idle [OF assms(1) _ assms(2,3)] simulates_fault [OF assms(1)]
    by (cases "sto m (TO_HOST (gp s (insn_rs1 i) + imm64 i)) (gp s (insn_rs2 i))") simp_all
qed

lemma sim_branch:
  assumes "fetches s m i" "\<not> insn_cont i" "\<not> insn_rvc i" "map_of isa_branch (insn_type i) = Some c"
  shows "simulates s m (Inr (if c (gp s (insn_rs1 i)) (gp s (insn_rs2 i))
     then (isa_abs s (pc s))\<lparr>isa_pc := pc s + imm64 i\<rparr> else isa_next (isa_abs s (pc s)), m))"
proof -
  note h = branch_handler [OF map_of_SomeD [OF assms(4)], of s m i]
  show ?thesis
  proof (cases "c (gp s (insn_rs1 i)) (gp s (insn_rs2 i))")
    case True
    with h simulates_leave [OF assms(1)] show ?thesis by simp
  next
    case False
    with h simulates_idle [OF assms(1) _ assms(2,3)] show ?thesis by simp
  qed
qed

lemma imm64_simps [simp]:
  "imm64 (i\<lparr>insn_type := t\<rparr>) = imm64 i" "imm64 (i\<lparr>insn_cont := c\<rparr>) = imm64 i"
  "imm64 (i\<lparr>insn_imm := v\<rparr>) = scast v" "imm64 (i\<lparr>insn_rd := r\<rparr>) = imm64 i"
  "imm64 (i\<lparr>insn_rs1 := r\<rparr>) = imm64 i" "imm64 (i\<lparr>insn_rs2 := r\<rparr>) = imm64 i"
  by (simp_all add: imm64_def)

lemma zero_insn_fields:
  "insn_rd zero_insn = 0" "insn_rs1 zero_insn = 0" "insn_rs2 zero_insn = 0" "insn_rvc zero_insn = False"
  "insn_cont zero_insn = False" "insn_imm zero_insn = 0"
  by (simp_all add: zero_insn_def)

lemma asm_insn_flags [simp]: "\<not> insn_rvc (asm_insn a)"
  by (cases a) (simp_all add: zero_insn_def)

lemma sim_U:
  assumes "fetches s m (asm_insn (AU t rd imm))" "isa_step (AU t rd imm) (isa_abs s (pc s)) m = Some r"
  shows "simulates s m r"
proof -
  have "t = insn_lui \<and> r = Inr (isa_next (isa_wr rd (scast imm) (isa_abs s (pc s))), m) \<or>
    t = insn_auipc \<and> r = Inr (isa_next (isa_wr rd (pc s + scast imm) (isa_abs s (pc s))), m)"
    using assms(2) by (auto simp: isa_abs_def split: if_splits)
  then show ?thesis
    using simulates_put [OF assms(1), of "scast imm"] simulates_put [OF assms(1), of "pc s + scast imm"]
      funcs_imm(14,15)
    by (auto simp: func_lui_def func_auipc_def put_gp_def zero_insn_fields)
qed

lemma sim_jumps:
  "fetches s m (asm_insn (AJ rd imm)) \<Longrightarrow> simulates s m
     (Inr ((isa_wr rd (pc s + 4) (isa_abs s (pc s)))\<lparr>isa_pc := pc s + scast imm\<rparr>, m))"
  "fetches s m (asm_insn (AJalr rd r1 imm)) \<Longrightarrow> simulates s m
     (Inr ((isa_wr rd (pc s + 4) (isa_abs s (pc s)))\<lparr>isa_pc := (gp s r1 + scast imm) AND NOT 1\<rparr>, m))"
  "fetches s m (asm_insn AEcall) \<Longrightarrow> simulates s m (Inr (isa_next (isa_abs s (pc s)), m))"
proof -
  assume f: "fetches s m (asm_insn (AJ rd imm))"
  then have "unat rd < 32" by (simp add: fetches_def wf_insn_def)
  with simulates_jump [OF f, of _ _ rd "pc s + 4"] show "simulates s m
     (Inr ((isa_wr rd (pc s + 4) (isa_abs s (pc s)))\<lparr>isa_pc := pc s + scast imm\<rparr>, m))"
    by (simp add: funcs_jumps func_jal_def Let_def zero_insn_fields)
next
  assume f: "fetches s m (asm_insn (AJalr rd r1 imm))"
  then have "unat rd < 32" by (simp add: fetches_def wf_insn_def)
  with simulates_jump [OF f, of _ _ rd "pc s + 4"] show "simulates s m
     (Inr ((isa_wr rd (pc s + 4) (isa_abs s (pc s)))\<lparr>isa_pc := (gp s r1 + scast imm) AND NOT 1\<rparr>, m))"
    by (simp add: funcs_jumps func_jalr_def Let_def zero_insn_fields)
next
  assume f: "fetches s m (asm_insn AEcall)"
  from simulates_leave [OF f] show "simulates s m (Inr (isa_next (isa_abs s (pc s)), m))"
    by (simp add: funcs_jumps func_ecall_def isa_next_def isa_abs_def)
qed

text \<open>Every instruction of the abstract machine.\<close>

lemma interp_simulates_all:
  assumes "wf_state s" "gp s 0 = 0" "pc s \<noteq> 0" "asm_ok a" "encode a = Some w"
    and "load_u32 m (TO_HOST (pc s)) = Inr w" "asm_div_ok a s"
    and "isa_step a (isa_abs s (pc s)) m = Some r"
  shows "simulates s m r"
proof -
  note f = asm_fetches [OF assms(1-6)]
  have x: "isa_x (isa_abs s p) = gp s" "isa_pc (isa_abs s p) = p" for p by (simp_all add: isa_abs_def)
  note st = assms(8)
  show ?thesis
  proof (cases a)
    case (AR t rd r1 r2)
    with st f sim_R [of s m t rd r1 r2] assms(7) show ?thesis by (auto simp: x asm_div_ok_def)
  next
    case (AI t rd r1 imm)
    then have c: "\<not> insn_cont (asm_insn a)" by (simp add: zero_insn_fields)
    from st AI show ?thesis
      using sim_mem(1) [OF f c asm_insn_flags] sim_imm [OF f c asm_insn_flags]
      by (auto simp: x zero_insn_fields split: option.splits)
  next
    case (ASh t rd r1 sh)
    then have c: "\<not> insn_cont (asm_insn a)" by (simp add: zero_insn_fields)
    from assms(5) ASh obtain opc f3 w' hb where t: "map_of sh_table t = Some (opc, f3, w', hb)" by auto
    from st ASh obtain st' where st': "isa_immop t rd r1 (ucast sh) (isa_abs s (pc s)) = Some st'" "r = Inr (st', m)"
      by auto
    have "isa_immop t rd r1 (scast (push_bit w' hb OR sh)) (isa_abs s (pc s)) =
        isa_immop t rd r1 (ucast sh) (isa_abs s (pc s))"
      by (rule isa_immop_cong, rule shift_imm [OF t])
    with st'(1) have "isa_immop t rd r1 (scast (push_bit w' hb OR sh)) (isa_abs s (pc s)) = Some st'" by simp
    with sim_imm [OF f c asm_insn_flags] ASh t st'(2) show ?thesis by (simp add: zero_insn_fields)
  next
    case (AS t r1 r2 imm)
    then have c: "\<not> insn_cont (asm_insn a)" by (simp add: zero_insn_fields)
    from st AS show ?thesis
      using sim_mem(2) [OF f c asm_insn_flags] by (auto simp: x zero_insn_fields)
  next
    case (AB t r1 r2 imm)
    then have c: "\<not> insn_cont (asm_insn a)" by (simp add: zero_insn_fields)
    from st AB obtain cnd where cnd: "map_of isa_branch t = Some cnd"
      "r = Inr (if cnd (gp s r1) (gp s r2) then (isa_abs s (pc s))\<lparr>isa_pc := pc s + scast imm\<rparr>
        else isa_next (isa_abs s (pc s)), m)" by (auto simp: x)
    have e: "imm64 (asm_insn a) = scast imm" using AB by simp
    show ?thesis
      unfolding cnd(2) using sim_branch [OF f c asm_insn_flags, of cnd, unfolded e] AB cnd(1)
      by (simp add: zero_insn_fields split del: if_split)
  next
    case (AU t rd imm)
    with st f sim_U show ?thesis by blast
  next
    case (AJ rd imm)
    with st f sim_jumps(1) show ?thesis by (auto simp: x)
  next
    case (AJalr rd r1 imm)
    with st f sim_jumps(2) show ?thesis by (auto simp: x)
  next
    case AEcall
    with st f sim_jumps(3) show ?thesis by auto
  qed (use st in simp_all)
qed

subsection \<open>Property of the interpreter against the manual\<close>

text \<open>
  C1. Fetch, decode, dispatch and execution together implement RV64IM: when the word at \<^verbatim>\<open>pc\<close>
  encodes an instruction, a round of the block interpreter performs the step of the abstract
  machine, faults included. The 32-bit divisions are excluded when the low half of the divisor
  alone is zero.
\<close>
theorem interp_simulates:
  "wf_state s \<Longrightarrow> gp s 0 = 0 \<Longrightarrow> pc s \<noteq> 0 \<Longrightarrow> asm_ok a \<Longrightarrow> encode a = Some w \<Longrightarrow>
   load_u32 m (TO_HOST (pc s)) = Inr w \<Longrightarrow> asm_div_ok a s \<Longrightarrow>
   isa_step a (isa_abs s (pc s)) m = Some r \<Longrightarrow> simulates s m r"
  by (rule interp_simulates_all)

lemma demo_pc: "pc (demo_state p r) = p"
  by (simp add: demo_state_def)

lemma demo_load: "load_u32 (demo_mem 0x1000 [0xb3, 0x00, 0x31, 0x02]) (TO_HOST 0x1000) = Inr 0x023100b3"
  by (simp add: demo_load_u32)

lemma interp_simulates_witness:
  "simulates (demo_state 0x1000 of_nat) (demo_mem 0x1000 [0xb3, 0x00, 0x31, 0x02])
     (Inr (isa_next (isa_wr 1 6 (isa_abs (demo_state 0x1000 of_nat) 0x1000)),
       demo_mem 0x1000 [0xb3, 0x00, 0x31, 0x02]))"
proof (rule interp_simulates [where a = "AR insn_mul 1 2 3" and w = "0x023100b3"])
  show "encode (AR insn_mul 1 2 3) = Some 0x023100b3"
    by (simp add: r_table_def pack_def mask_eq_exp_minus_1)
  show "load_u32 (demo_mem 0x1000 [0xb3, 0x00, 0x31, 0x02]) (TO_HOST (pc (demo_state 0x1000 of_nat))) =
      Inr 0x023100b3"
    using demo_load by (simp only: demo_pc)
  show "isa_step (AR insn_mul 1 2 3) (isa_abs (demo_state 0x1000 of_nat) (pc (demo_state 0x1000 of_nat)))
      (demo_mem 0x1000 [0xb3, 0x00, 0x31, 0x02]) =
    Some (Inr (isa_next (isa_wr 1 6 (isa_abs (demo_state 0x1000 of_nat) 0x1000)),
       demo_mem 0x1000 [0xb3, 0x00, 0x31, 0x02]))"
    by (simp add: isa_alu_def isa_abs_def demo_gp demo_pc)
qed (simp_all add: demo_gp demo_pc asm_div_ok_def div_pre_def w_div_def)

end
