(* ===== verification/Mmu.thy ===== *)
theory Mmu
  imports Host_Memory
begin

unbundle bit_operations_syntax

text \<open>
  \<^verbatim>\<open>src/mmu.c\<close> with the structures of \<^verbatim>\<open>inc/elfdef.h\<close>: the ELF loader and the guest's heap. The
  file is the list of its bytes. The host kernel maps and unmaps pages of the guest's
  memory: \<^verbatim>\<open>mmap\<close> with \<^verbatim>\<open>MAP_FIXED\<close> replaces the pages of the range by zeroes or by the bytes of the
  file, filled with zeroes to the end of the file's last page, and pages past that page fault when touched. It refuses an
  empty or unaligned range and one that leaves the user address space of x86-64; whether it grants
  any other request is the argument of type \<open>kernel_t\<close>.
\<close>

subsection \<open>Pages of the host\<close>

definition getpagesize :: u64 where
  "getpagesize = 4096"

abbreviation (input) page :: nat where
  "page \<equiv> 4096"

definition page_up :: "nat \<Rightarrow> nat" where
  "page_up n = (n + 4095) div page * page"

record kernel_t =
  grants_map :: "u64 \<Rightarrow> u64 \<Rightarrow> bool"
  grants_unmap :: "u64 \<Rightarrow> u64 \<Rightarrow> bool"

definition USER_END :: nat where
  "USER_END = 0x7ffffffff000"

definition MAP_FAILED :: u64 where
  "MAP_FAILED = - 1"

definition range_ok :: "u64 \<Rightarrow> u64 \<Rightarrow> bool" where
  "range_ok addr len \<longleftrightarrow> len \<noteq> 0 \<and> unat addr mod page = 0 \<and> unat addr + unat len \<le> USER_END"

definition map_pages :: "mem \<Rightarrow> u64 \<Rightarrow> u64 \<Rightarrow> prot \<Rightarrow> (nat \<Rightarrow> u8 option) \<Rightarrow> mem" where
  "map_pages m addr len prot content =
     (\<lambda>a. if unat (a - addr) < page_up (unat len)
          then map_option (Pair prot) (content (unat (a - addr))) else m a)"

definition mmap :: "kernel_t \<Rightarrow> mem \<Rightarrow> u64 \<Rightarrow> u64 \<Rightarrow> prot \<Rightarrow> (nat \<Rightarrow> u8 option) \<Rightarrow> u64 \<times> mem" where
  "mmap k m addr len prot content =
     (if range_ok addr len \<and> grants_map k addr len
      then (addr, map_pages m addr len prot content) else (MAP_FAILED, m))"

definition munmap :: "kernel_t \<Rightarrow> mem \<Rightarrow> u64 \<Rightarrow> u64 \<Rightarrow> bool \<times> mem" where
  "munmap k m addr len =
     (if range_ok addr len \<and> grants_unmap k addr len
      then (True, \<lambda>a. if unat (a - addr) < page_up (unat len) then None else m a) else (False, m))"

definition anon_content :: "nat \<Rightarrow> u8 option" where
  "anon_content d = Some 0"

definition file_content :: "u8 list \<Rightarrow> nat \<Rightarrow> nat \<Rightarrow> u8 option" where
  "file_content file off d =
     (if off + d < length file then Some (file ! (off + d))
      else if off + d < page_up (length file) then Some 0 else None)"

subsection \<open>ELF structures\<close>

record elf64_ehdr_t =
  e_ident :: "u8 list"
  e_type :: u16
  e_machine :: u16
  e_version :: u32
  e_entry :: u64
  e_phoff :: u64
  e_shoff :: u64
  e_flags :: u32
  e_ehsize :: u16
  e_phentsize :: u16
  e_phnum :: u16
  e_shentsize :: u16
  e_shnum :: u16
  e_shstrndx :: u16

record elf64_phdr_t =
  p_type :: u32
  p_flags :: u32
  p_offset :: u64
  p_vaddr :: u64
  p_paddr :: u64
  p_filesz :: u64
  p_memsz :: u64
  p_align :: u64

definition EM_RISCV :: u16 where "EM_RISCV = 243"
definition ELFCLASS64 :: u8 where "ELFCLASS64 = 2"
definition EI_CLASS :: nat where "EI_CLASS = 4"
definition PT_LOAD :: u32 where "PT_LOAD = 1"
definition PF_X :: u32 where "PF_X = 1"
definition PF_W :: u32 where "PF_W = 2"
definition PF_R :: u32 where "PF_R = 4"

definition ELFMAG :: "u8 list" where
  "ELFMAG = [0x7f, 0x45, 0x4c, 0x46]"

text \<open>A field of a structure read at its byte offset.\<close>

definition field :: "u8 list \<Rightarrow> nat \<Rightarrow> nat \<Rightarrow> 'a::len word" where
  "field bs off n = of_nat (le_val (take n (drop off bs)))"

definition ehdr_of :: "u8 list \<Rightarrow> elf64_ehdr_t" where
  "ehdr_of bs = \<lparr>e_ident = take 16 bs, e_type = field bs 16 2, e_machine = field bs 18 2,
     e_version = field bs 20 4, e_entry = field bs 24 8, e_phoff = field bs 32 8,
     e_shoff = field bs 40 8, e_flags = field bs 48 4, e_ehsize = field bs 52 2,
     e_phentsize = field bs 54 2, e_phnum = field bs 56 2, e_shentsize = field bs 58 2,
     e_shnum = field bs 60 2, e_shstrndx = field bs 62 2\<rparr>"

definition phdr_of :: "u8 list \<Rightarrow> elf64_phdr_t" where
  "phdr_of bs = \<lparr>p_type = field bs 0 4, p_flags = field bs 4 4, p_offset = field bs 8 8,
     p_vaddr = field bs 16 8, p_paddr = field bs 24 8, p_filesz = field bs 32 8,
     p_memsz = field bs 40 8, p_align = field bs 48 8\<rparr>"

abbreviation (input) ehdr_size :: nat where "ehdr_size \<equiv> 64"
abbreviation (input) phdr_size :: nat where "phdr_size \<equiv> 56"

subsection \<open>Loading\<close>

record mmu_t =
  mmu_entry :: u64
  host_alloc :: u64
  mmu_brk :: u64      \<comment> \<open>the field \<^verbatim>\<open>alloc\<close>\<close>
  mmu_base :: u64

definition zero_mmu :: mmu_t where
  "zero_mmu = \<lparr>mmu_entry = 0, host_alloc = 0, mmu_brk = 0, mmu_base = 0\<rparr>"

definition load_phdr :: "elf64_ehdr_t \<Rightarrow> nat \<Rightarrow> u8 list \<Rightarrow> elf64_phdr_t result" where
  "load_phdr ehdr i file =
     (let off = e_phoff ehdr + of_nat i * ucast (e_phentsize ehdr) in
      if off <s 0 then Inl (Fatal ''seek file failed!'')
      else
        let bs = take phdr_size (drop (unat off) file) in
        if length bs \<noteq> phdr_size then Inl (Fatal ''file too small'')
        else Inr (phdr_of bs))"

definition flags_to_mmap_prot :: "u32 \<Rightarrow> prot" where
  "flags_to_mmap_prot flags =
     (if flags AND PF_R \<noteq> 0 then PROT_READ else 0) OR
     (if flags AND PF_W \<noteq> 0 then PROT_WRITE else 0) OR
     (if flags AND PF_X \<noteq> 0 then PROT_EXEC else 0)"

definition mmu_load_segment ::
    "kernel_t \<Rightarrow> mmu_t \<Rightarrow> elf64_phdr_t \<Rightarrow> u8 list \<Rightarrow> mem \<Rightarrow> (mmu_t \<times> mem) result" where
  "mmu_load_segment k mmu phdr file m =
     (let page_size = getpagesize;
          offset = p_offset phdr;
          vaddr = TO_HOST (p_vaddr phdr);
          aligned_vaddr = ROUNDDOWN vaddr page_size;
          filesz = p_filesz phdr + (vaddr - aligned_vaddr);
          memsz = p_memsz phdr + (vaddr - aligned_vaddr);
          prot = flags_to_mmap_prot (p_flags phdr);
          (addr, m1) = mmap k m aligned_vaddr filesz prot
             (file_content file (unat (ROUNDDOWN offset page_size))) in
      bindE (assertE ''addr == aligned_vaddr'' (addr = aligned_vaddr)) (\<lambda>_.
      let remaining_bss = ROUNDUP memsz page_size - ROUNDUP filesz page_size in
      bindE
        (if remaining_bss > 0 then
           let (addr, m2) = mmap k m1 (aligned_vaddr + ROUNDUP filesz page_size) remaining_bss prot anon_content in
           bindE (assertE ''addr == aligned_vaddr + ROUNDUP(filesz, page_size)''
             (addr = aligned_vaddr + ROUNDUP filesz page_size)) (\<lambda>_. Inr m2)
         else Inr m1)
        (\<lambda>m2.
      let mmu1 = mmu\<lparr>host_alloc := max (host_alloc mmu) (aligned_vaddr + ROUNDUP memsz page_size)\<rparr> in
      Inr (mmu1\<lparr>mmu_brk := TO_GUEST (host_alloc mmu1), mmu_base := TO_GUEST (host_alloc mmu1)\<rparr>, m2))))"

text \<open>The loop over the program headers, \<open>n\<close> of them from header \<open>i\<close> on.\<close>

fun load_phdrs :: "kernel_t \<Rightarrow> elf64_ehdr_t \<Rightarrow> u8 list \<Rightarrow> nat \<Rightarrow> nat \<Rightarrow> mmu_t \<times> mem \<Rightarrow> (mmu_t \<times> mem) result" where
  "load_phdrs k ehdr file i 0 (mmu, m) = Inr (mmu, m)"
| "load_phdrs k ehdr file i (Suc n) (mmu, m) =
     bindE (load_phdr ehdr i file) (\<lambda>phdr.
     bindE (if p_type phdr = PT_LOAD then mmu_load_segment k mmu phdr file m else Inr (mmu, m))
       (load_phdrs k ehdr file (i + 1) n))"

definition mmu_load_elf :: "kernel_t \<Rightarrow> mmu_t \<Rightarrow> u8 list \<Rightarrow> mem \<Rightarrow> (mmu_t \<times> mem) result" where
  "mmu_load_elf k mmu file m =
     (let buf = take ehdr_size file in
      if length buf \<noteq> ehdr_size then Inl (Fatal ''file too small!'')
      else
        let ehdr = ehdr_of buf in
        if (field buf 0 4 :: u32) \<noteq> field ELFMAG 0 4 then Inl (Fatal ''not an ELF file!'')
        else if e_machine ehdr \<noteq> EM_RISCV \<or> e_ident ehdr ! EI_CLASS \<noteq> ELFCLASS64
        then Inl (Fatal ''only support 64-bit RISC-V ELF file!'')
        else load_phdrs k ehdr file 0 (unat (e_phnum ehdr)) (mmu\<lparr>mmu_entry := e_entry ehdr\<rparr>, m))"

subsection \<open>The heap\<close>

definition mmu_alloc :: "kernel_t \<Rightarrow> mmu_t \<Rightarrow> i64 \<Rightarrow> mem \<Rightarrow> (u64 \<times> mmu_t \<times> mem) result" where
  "mmu_alloc k mmu sz m =
     (let pagesize = getpagesize; base = mmu_brk mmu in
      bindE (assertE ''base >= mmu->base'' (base \<ge> mmu_base mmu)) (\<lambda>_.
      let mmu = mmu\<lparr>mmu_brk := mmu_brk mmu + sz\<rparr> in
      bindE (assertE ''mmu->alloc >= mmu->base'' (mmu_brk mmu \<ge> mmu_base mmu)) (\<lambda>_.
      if 0 <s sz \<and> mmu_brk mmu > TO_GUEST (host_alloc mmu) then
        let len = ROUNDUP (mmu_brk mmu - TO_GUEST (host_alloc mmu)) pagesize;
            (addr, m') = mmap k m (host_alloc mmu) len (PROT_READ OR PROT_WRITE) anon_content in
        if addr = MAP_FAILED then Inl (Fatal ''mmap failed!'')
        else Inr (base, mmu\<lparr>host_alloc := host_alloc mmu + len\<rparr>, m')
      else if sz <s 0 \<and> ROUNDUP (mmu_brk mmu) pagesize < TO_GUEST (host_alloc mmu) then
        let len = TO_GUEST (host_alloc mmu) - ROUNDUP (mmu_brk mmu) pagesize;
            (ok, m') = munmap k m (TO_HOST (ROUNDUP (mmu_brk mmu) pagesize)) len in
        if \<not> ok then Inl (Fatal ''strerror(errno)'')
        else Inr (base, mmu\<lparr>host_alloc := host_alloc mmu - len\<rparr>, m')
      else Inr (base, mmu, m))))"

text \<open>\<^verbatim>\<open>memcpy\<close> of bytes of the emulator into guest memory.\<close>

definition mmu_write :: "mem \<Rightarrow> u64 \<Rightarrow> u8 list \<Rightarrow> mem result" where
  "mmu_write m addr data = store_bytes m (TO_HOST addr) data"

subsection \<open>Rounding\<close>

lemma and_minus_page: "x AND - 4096 = push_bit 12 (drop_bit 12 (x :: u64))"
proof -
  have "(- 4096 :: u64) = NOT (mask 12)" by (simp add: mask_numeral)
  then have "x AND - 4096 = x AND NOT (mask 12)" by (simp only:)
  also have "\<dots> = push_bit 12 (drop_bit 12 x)"
    by (rule bit_word_eqI) (auto simp: bit_and_iff bit_not_iff bit_mask_iff bit_push_bit_iff bit_drop_bit_eq)
  finally show ?thesis .
qed

lemma unat_ROUNDDOWN: "unat (ROUNDDOWN x getpagesize) = unat x div page * page"
proof -
  have "unat x div 4096 * 4096 \<le> unat x" by simp
  then have "unat x div 4096 * 4096 < 18446744073709551616" using unat_u64_lt [of x] by linarith
  then show ?thesis
    unfolding ROUNDDOWN_def getpagesize_def and_minus_page
    by (simp add: push_bit_eq_mult drop_bit_eq_div unat_word_ariths unat_div_distrib)
qed

lemma unat_ROUNDUP:
  assumes "unat x + 4095 < 2 ^ 64"
  shows "unat (ROUNDUP x getpagesize) = page_up (unat x)"
proof -
  have "ROUNDUP x getpagesize = ROUNDDOWN (x + 4095) getpagesize"
    by (simp add: ROUNDUP_def ROUNDDOWN_def getpagesize_def add.commute)
  moreover have "unat (x + 4095) = unat x + 4095" using assms by (simp add: unat_word_ariths)
  ultimately show ?thesis by (simp add: unat_ROUNDDOWN page_up_def)
qed

lemma page_up_ge: "n \<le> page_up n"
  using div_mult_mod_eq [of "n + 4095" 4096] mod_less_divisor [of 4096 "n + 4095"]
  unfolding page_up_def by linarith

lemma page_up_lt: "page_up n < n + page"
  using div_mult_mod_eq [of "n + 4095" 4096] unfolding page_up_def by linarith

lemma page_up_mod [simp]: "page_up n mod page = 0"
  by (simp add: page_up_def)

lemma page_up_le:
  assumes "n \<le> b" and "b mod page = 0"
  shows "page_up n \<le> b"
proof -
  from assms(2) have b: "b = b div 4096 * 4096" using div_mult_mod_eq [of b 4096] by simp
  have "(n + 4095) div 4096 \<le> (b + 4095) div 4096" using assms(1) by (intro div_le_mono) simp
  also have "\<dots> = b div 4096" by (subst b) simp
  finally have "(n + 4095) div 4096 * 4096 \<le> b div 4096 * 4096" by simp
  with b show ?thesis by (simp add: page_up_def)
qed

lemma page_up_aligned: "n mod page = 0 \<Longrightarrow> page_up n = n"
  using page_up_le [of n n] page_up_ge [of n] by simp

end
