(* ===== verification/Mmu_Props.thy ===== *)
theory Mmu_Props
  imports Mmu
begin

unbundle bit_operations_syntax

text \<open>
  What the loader and the heap of \<open>Mmu\<close> guarantee: the invariant of the heap and that
  \<^verbatim>\<open>mmu_alloc\<close> keeps it, what a loaded segment looks like byte by byte, and how the loader ends on
  files it does not accept.
\<close>

subsection \<open>Address arithmetic\<close>

abbreviation (input) OFF :: nat where "OFF \<equiv> 0x088800000000"

abbreviation (input) RW :: prot where "RW \<equiv> PROT_READ OR PROT_WRITE"

lemma unat_offset: "unat GUEST_MEMORY_OFFSET = OFF"
  by (simp add: GUEST_MEMORY_OFFSET_def)

lemma USER_END_lt: "USER_END < 2 ^ 47"
  by (simp add: USER_END_def)

lemma in_range:
  fixes a addr :: u64
  assumes "unat addr + n \<le> 2 ^ 64"
  shows "unat (a - addr) < n \<longleftrightarrow> unat addr \<le> unat a \<and> unat a < unat addr + n"
proof (cases "addr \<le> a")
  case True
  then have "unat (a - addr) = unat a - unat addr" by (rule unat_sub)
  with True show ?thesis by (auto simp: word_le_nat_alt)
next
  case False
  then have lt: "unat a < unat addr" by (simp add: word_le_nat_alt)
  then have "unat (a - addr) = unat a + 2 ^ 64 - unat addr"
    by (simp add: unat_sub_if_size word_size)
  with lt assms unat_u64_lt [of addr] show ?thesis by simp
qed

lemma unat_TO_GUEST:
  assumes "OFF \<le> unat h"
  shows "unat (TO_GUEST h) = unat h - OFF"
  using assms by (simp add: TO_GUEST_def unat_sub word_le_nat_alt unat_offset)

lemma unat_TO_HOST:
  assumes "unat g + OFF < 2 ^ 64"
  shows "unat (TO_HOST g) = unat g + OFF"
  using assms by (simp add: TO_HOST_def unat_word_ariths unat_offset)

text \<open>A rounded length that is not zero has not wrapped.\<close>

lemma ROUNDUP_nonzero:
  assumes "ROUNDUP x getpagesize \<noteq> 0"
  shows "unat x + 4095 < 2 ^ 64"
proof (rule ccontr)
  assume "\<not> ?thesis"
  then have big: "2 ^ 64 \<le> unat x + 4095" by simp
  then have "unat (x + 4095) = unat x + 4095 - 2 ^ 64"
    using unat_u64_lt [of x] by (simp add: unat_word_ariths mod_if)
  then have "unat (x + 4095) div 4096 = 0" using unat_u64_lt [of x] by simp
  then have "unat (ROUNDDOWN (x + 4095) getpagesize) = 0" by (simp add: unat_ROUNDDOWN)
  then have "ROUNDUP x getpagesize = 0"
    by (simp add: ROUNDUP_def ROUNDDOWN_def getpagesize_def add.commute unat_eq_0)
  with assms show False by simp
qed

lemma map_pages_at:
  assumes "unat addr + page_up (unat len) \<le> 2 ^ 64"
  shows "map_pages m addr len prot content a =
    (if unat addr \<le> unat a \<and> unat a < unat addr + page_up (unat len)
     then map_option (Pair prot) (content (unat a - unat addr)) else m a)"
proof -
  have "unat (a - addr) = unat a - unat addr" if "unat addr \<le> unat a"
    using that by (simp add: unat_sub word_le_nat_alt)
  then show ?thesis unfolding map_pages_def in_range [OF assms] by simp
qed

subsection \<open>The invariant of the heap\<close>

definition heap_ok :: "mmu_t \<Rightarrow> mem \<Rightarrow> bool" where
  "heap_ok mmu m \<longleftrightarrow>
     unat (host_alloc mmu) \<le> USER_END \<and> unat (host_alloc mmu) mod page = 0 \<and>
     mmu_base mmu \<le> mmu_brk mmu \<and> unat (mmu_brk mmu) + OFF \<le> unat (host_alloc mmu) \<and>
     (\<forall>a. unat (mmu_base mmu) + OFF \<le> unat a \<and> unat a < unat (host_alloc mmu) \<longrightarrow>
       (\<exists>b. m a = Some (RW, b)))"

text \<open>Growing by whole pages of zeroes, and giving whole pages back.\<close>

lemma heap_grow:
  assumes "heap_ok mmu m" and "unat (host_alloc mmu) + unat len \<le> USER_END"
    and "unat len mod page = 0" and "mmu_base mmu \<le> new" and "unat new + OFF \<le> unat (host_alloc mmu) + unat len"
  shows "heap_ok (mmu\<lparr>mmu_brk := new, host_alloc := host_alloc mmu + len\<rparr>)
     (map_pages m (host_alloc mmu) len RW anon_content)"
proof -
  have sum: "unat (host_alloc mmu + len) = unat (host_alloc mmu) + unat len"
    using assms(2) USER_END_lt by (simp add: unat_word_ariths)
  have "unat (host_alloc mmu) + page_up (unat len) \<le> 2 ^ 64"
    using assms(2,3) USER_END_lt by (simp add: page_up_aligned)
  then show ?thesis
    using assms sum by (auto simp: heap_ok_def map_pages_at page_up_aligned anon_content_def mod_add_eq [symmetric, of "unat (host_alloc mmu)"])
qed

lemma heap_shrink:
  assumes "heap_ok mmu m" and "mmu_base mmu \<le> new" and "page_up (unat new) + OFF < unat (host_alloc mmu)"
    and "unat h = page_up (unat new) + OFF" and "\<And>a. unat a < unat h \<Longrightarrow> m' a = m a"
  shows "heap_ok (mmu\<lparr>mmu_brk := new, host_alloc := h\<rparr>) m'"
proof -
  have "(page_up (unat new) + OFF) mod page = 0"
    by (simp add: mod_add_eq [symmetric, of "page_up (unat new)"])
  then show ?thesis
    using assms page_up_ge [of "unat new"] by (auto simp: heap_ok_def)
qed

lemma heap_move:
  assumes "heap_ok mmu m" and "mmu_base mmu \<le> new" and "unat new + OFF \<le> unat (host_alloc mmu)"
  shows "heap_ok (mmu\<lparr>mmu_brk := new\<rparr>) m"
  using assms by (auto simp: heap_ok_def)

text \<open>The three ways \<^verbatim>\<open>mmu_alloc\<close> returns.\<close>

lemma mmu_alloc_cases:
  assumes "mmu_alloc k mmu sz m = Inr (r, mmu', m')"
  obtains (Grow) len where "0 <s sz" "mmu_brk mmu + sz > TO_GUEST (host_alloc mmu)"
      "len = ROUNDUP (mmu_brk mmu + sz - TO_GUEST (host_alloc mmu)) getpagesize"
      "range_ok (host_alloc mmu) len"
      "mmu' = mmu\<lparr>mmu_brk := mmu_brk mmu + sz, host_alloc := host_alloc mmu + len\<rparr>"
      "m' = map_pages m (host_alloc mmu) len RW anon_content" "r = mmu_brk mmu"
    | (Shrink) len where "sz <s 0" "ROUNDUP (mmu_brk mmu + sz) getpagesize < TO_GUEST (host_alloc mmu)"
      "len = TO_GUEST (host_alloc mmu) - ROUNDUP (mmu_brk mmu + sz) getpagesize"
      "range_ok (TO_HOST (ROUNDUP (mmu_brk mmu + sz) getpagesize)) len"
      "mmu' = mmu\<lparr>mmu_brk := mmu_brk mmu + sz, host_alloc := host_alloc mmu - len\<rparr>"
      "m' = (\<lambda>a. if unat (a - TO_HOST (ROUNDUP (mmu_brk mmu + sz) getpagesize)) < page_up (unat len)
             then None else m a)" "r = mmu_brk mmu"
    | (Move) "\<not> (0 <s sz \<and> mmu_brk mmu + sz > TO_GUEST (host_alloc mmu))"
      "mmu' = mmu\<lparr>mmu_brk := mmu_brk mmu + sz\<rparr>" "m' = m" "r = mmu_brk mmu"
proof -
  let ?new = "mmu_brk mmu + sz" and ?g = "TO_GUEST (host_alloc mmu)"
  consider (a) "0 <s sz \<and> ?new > ?g"
    | (b) "\<not> (0 <s sz \<and> ?new > ?g)" "sz <s 0 \<and> ROUNDUP ?new getpagesize < ?g"
    | (c) "\<not> (0 <s sz \<and> ?new > ?g)" "\<not> (sz <s 0 \<and> ROUNDUP ?new getpagesize < ?g)" by blast
  then show thesis
  proof cases
    case a
    with assms show thesis
      by (intro Grow [OF _ _ refl]) (auto simp: mmu_alloc_def mmap_def Let_def bindE_eq_Inr assertE_eq_Inr split: if_splits)
  next
    case b
    with assms show thesis
      by (intro Shrink [OF _ _ refl])
        (auto simp: mmu_alloc_def munmap_def Let_def bindE_eq_Inr assertE_eq_Inr split: if_splits)
  next
    case c
    with assms show thesis
      by (intro Move) (auto simp: mmu_alloc_def Let_def bindE_eq_Inr assertE_eq_Inr split: if_splits)
  qed
qed

lemma mmu_alloc_frame:
  assumes "mmu_alloc k mmu sz m = Inr (r, mmu', m')"
  shows "r = mmu_brk mmu \<and> mmu_base mmu \<le> mmu_brk mmu + sz \<and> mmu_brk mmu' = mmu_brk mmu + sz \<and>
    mmu_base mmu' = mmu_base mmu \<and> mmu_entry mmu' = mmu_entry mmu"
proof -
  have "mmu_base mmu \<le> mmu_brk mmu"
    by (rule ccontr) (use assms in \<open>simp add: mmu_alloc_def Let_def\<close>)
  moreover have "mmu_base mmu \<le> mmu_brk mmu + sz"
    by (rule ccontr) (use assms calculation in \<open>simp add: mmu_alloc_def Let_def\<close>)
  moreover from assms have "r = mmu_brk mmu \<and> mmu_brk mmu' = mmu_brk mmu + sz \<and> mmu_base mmu' = mmu_base mmu \<and>
      mmu_entry mmu' = mmu_entry mmu"
    by (cases rule: mmu_alloc_cases) simp_all
  ultimately show ?thesis by blast
qed

lemma heap_brk_bound: "heap_ok mmu m \<Longrightarrow> unat (mmu_brk mmu) + OFF \<le> USER_END"
  unfolding heap_ok_def by linarith

lemma uint_plus_signed:
  fixes b sz :: u64
  assumes "uint b < 2 ^ 47" and "0 \<le> uint b + sint sz"
  shows "uint (b + sz) = uint b + sint sz"
proof -
  have "sint sz < 2 ^ 63" using sint_lt [of sz] by simp
  with assms have r: "(uint b + sint sz) mod 2 ^ 64 = uint b + sint sz"
    by (intro mod_pos_pos_trivial) simp_all
  have "b + sz = word_of_int (uint b + sint sz)" by simp
  also have "uint \<dots> = (uint b + sint sz) mod 2 ^ 64"
    by (simp only: uint_word_of_int) simp
  finally show ?thesis using r by simp
qed

lemma uint_brk_plus:
  assumes "heap_ok mmu m" and "0 \<le> uint (mmu_brk mmu) + sint sz"
  shows "uint (mmu_brk mmu + sz) = uint (mmu_brk mmu) + sint sz"
proof (rule uint_plus_signed [OF _ assms(2)])
  have "unat (mmu_brk mmu) < 2 ^ 47"
    using heap_brk_bound [OF assms(1)] USER_END_lt by linarith
  then have "mmu_brk mmu < 2 ^ 47" by (simp add: word_less_nat_alt)
  then show "uint (mmu_brk mmu) < 2 ^ 47" by (simp add: word_less_def)
qed

text \<open>Where the program break ends up, in natural numbers.\<close>

lemma unat_new_brk:
  assumes "heap_ok mmu m" and "0 \<le> uint (mmu_brk mmu) + sint sz"
  shows "0 <s sz \<Longrightarrow> unat (mmu_brk mmu) < unat (mmu_brk mmu + sz)"
    and "\<not> 0 <s sz \<Longrightarrow> unat (mmu_brk mmu + sz) \<le> unat (mmu_brk mmu)"
proof -
  have u: "uint (mmu_brk mmu + sz) = uint (mmu_brk mmu) + sint sz" by (rule uint_brk_plus [OF assms])
  show "unat (mmu_brk mmu) < unat (mmu_brk mmu + sz)" if "0 <s sz"
    using u that by (simp add: word_sless_alt flip: word_less_nat_alt word_less_def)
      (simp add: word_less_def)
  show "unat (mmu_brk mmu + sz) \<le> unat (mmu_brk mmu)" if "\<not> 0 <s sz"
    using u that by (simp add: word_sless_alt word_le_def flip: word_le_nat_alt)
qed


lemma heap_guest_end:
  "heap_ok mmu m \<Longrightarrow> unat (TO_GUEST (host_alloc mmu)) = unat (host_alloc mmu) - OFF"
  by (intro unat_TO_GUEST) (simp add: heap_ok_def)

lemma alloc_grows:
  assumes h: "heap_ok mmu m" and "mmu_base mmu \<le> new" and "new > TO_GUEST (host_alloc mmu)"
    and len: "len = ROUNDUP (new - TO_GUEST (host_alloc mmu)) getpagesize" and ok: "range_ok (host_alloc mmu) len"
  shows "heap_ok (mmu\<lparr>mmu_brk := new, host_alloc := host_alloc mmu + len\<rparr>)
      (map_pages m (host_alloc mmu) len RW anon_content) \<and>
    unat (host_alloc mmu + len) = unat (host_alloc mmu) + unat len \<and> unat len mod page = 0"
proof -
  let ?d = "new - TO_GUEST (host_alloc mmu)"
  from assms(3) have d: "unat ?d = unat new - unat (TO_GUEST (host_alloc mmu))"
    by (intro unat_sub) simp
  from ok len have "unat ?d + 4095 < 2 ^ 64" by (intro ROUNDUP_nonzero) (simp add: range_ok_def)
  with len have l: "unat len = page_up (unat ?d)" by (simp add: unat_ROUNDUP)
  from ok have e: "unat (host_alloc mmu) + unat len \<le> USER_END" by (simp add: range_ok_def)
  have "unat new + OFF \<le> unat (host_alloc mmu) + unat len"
    using l d page_up_ge [of "unat ?d"] heap_guest_end [OF h] h by (simp add: heap_ok_def)
  from heap_grow [OF h e _ assms(2) this] l show ?thesis
    using e USER_END_lt by (simp add: unat_word_ariths)
qed

lemma alloc_shrinks:
  assumes h: "heap_ok mmu m" and "mmu_base mmu \<le> new" and "unat new \<le> unat (mmu_brk mmu)"
    and lt: "ROUNDUP new getpagesize < TO_GUEST (host_alloc mmu)"
    and len: "len = TO_GUEST (host_alloc mmu) - ROUNDUP new getpagesize"
    and m': "m' = (\<lambda>a. if unat (a - TO_HOST (ROUNDUP new getpagesize)) < page_up (unat len) then None else m a)"
  shows "heap_ok (mmu\<lparr>mmu_brk := new, host_alloc := host_alloc mmu - len\<rparr>) m' \<and>
    unat (host_alloc mmu - len) < unat (host_alloc mmu) \<and> (\<forall>a. unat a < unat new + OFF \<longrightarrow> m' a = m a)"
proof -
  note bound = heap_brk_bound [OF h] USER_END_lt
  then have r: "unat (ROUNDUP new getpagesize) = page_up (unat new)"
    using assms(3) by (intro unat_ROUNDUP) simp
  with lt heap_guest_end [OF h] have p: "page_up (unat new) + OFF < unat (host_alloc mmu)"
    by (simp add: word_less_nat_alt)
  have l: "unat len = unat (host_alloc mmu) - OFF - page_up (unat new)"
    using lt len r heap_guest_end [OF h] by (simp add: unat_sub)
  with p have s: "unat (host_alloc mmu - len) = page_up (unat new) + OFF"
    by (subst unat_sub) (simp_all add: word_le_nat_alt)
  have t: "unat (TO_HOST (ROUNDUP new getpagesize)) = page_up (unat new) + OFF"
    using p h USER_END_lt r by (subst unat_TO_HOST) (simp_all add: heap_ok_def)
  have "(unat (host_alloc mmu) - OFF - page_up (unat new)) mod page = 0"
  proof -
    have "page dvd unat (host_alloc mmu)" using h by (simp add: heap_ok_def mod_eq_0_iff_dvd)
    moreover have "page dvd page_up (unat new)" by (simp flip: mod_eq_0_iff_dvd)
    moreover have "page dvd OFF" by simp
    ultimately have "page dvd unat (host_alloc mmu) - OFF - page_up (unat new)"
      by (intro dvd_diff_nat)
    then show ?thesis by (simp add: mod_eq_0_iff_dvd)
  qed
  then have pl: "page_up (unat len) = unat (host_alloc mmu) - OFF - page_up (unat new)"
    by (simp add: l page_up_aligned)
  have "page_up (unat new) + OFF + page_up (unat len) \<le> 2 ^ 64"
    using pl p h USER_END_lt by (simp add: heap_ok_def)
  then have "m' a = m a" if "unat a < page_up (unat new) + OFF" for a
    using that t by (simp add: m' in_range)
  moreover from this have "heap_ok (mmu\<lparr>mmu_brk := new, host_alloc := host_alloc mmu - len\<rparr>) m'"
    using s by (intro heap_shrink [OF h assms(2) p s]) simp
  ultimately show ?thesis
    using s p page_up_ge [of "unat new"] by auto
qed

text \<open>One allocation or release on a well-formed heap.\<close>

lemma mmu_alloc_inv:
  assumes h: "heap_ok mmu m" and nn: "0 \<le> uint (mmu_brk mmu) + sint sz"
    and run: "mmu_alloc k mmu sz m = Inr (r, mmu', m')"
  shows "heap_ok mmu' m'"
    and "unat a < min (unat (mmu_brk mmu)) (unat (mmu_brk mmu')) + OFF \<Longrightarrow> m' a = m a"
    and "unat (host_alloc mmu) \<le> unat a \<Longrightarrow> unat a < unat (host_alloc mmu') \<Longrightarrow> m' a = Some (RW, 0)"
proof -
  let ?new = "mmu_brk mmu + sz"
  from mmu_alloc_frame [OF run] have base: "mmu_base mmu \<le> ?new" by blast
  note up = unat_new_brk(1) [OF h nn] and down = unat_new_brk(2) [OF h nn]
  have bh: "unat (mmu_brk mmu) + OFF \<le> unat (host_alloc mmu)" using h by (simp add: heap_ok_def)
  from run have "heap_ok mmu' m' \<and>
      (unat a < min (unat (mmu_brk mmu)) (unat (mmu_brk mmu')) + OFF \<longrightarrow> m' a = m a) \<and>
      (unat (host_alloc mmu) \<le> unat a \<longrightarrow> unat a < unat (host_alloc mmu') \<longrightarrow> m' a = Some (RW, 0))"
  proof (cases rule: mmu_alloc_cases)
    case (Grow len)
    note g = alloc_grows [OF h base Grow(2-4)]
    have "unat (host_alloc mmu) + page_up (unat len) \<le> 2 ^ 64"
      using g Grow(4) USER_END_lt by (simp add: page_up_aligned range_ok_def)
    note at = map_pages_at [OF this, of m RW anon_content a]
    with g Grow(5,6) bh show ?thesis
      by (auto simp: page_up_aligned anon_content_def)
  next
    case (Shrink len)
    from Shrink(1) have "\<not> 0 <s sz" by (simp add: word_sless_alt)
    from alloc_shrinks [OF h base down [OF this] Shrink(2,3,6)] Shrink(5) show ?thesis by auto
  next
    case Move
    have "unat ?new + OFF \<le> unat (host_alloc mmu)"
      using Move(1) down bh heap_guest_end [OF h] by (cases "0 <s sz") (auto simp: word_less_nat_alt)
    from heap_move [OF h base this] Move(2,3) show ?thesis by simp
  qed
  then show "heap_ok mmu' m'"
    and "unat a < min (unat (mmu_brk mmu)) (unat (mmu_brk mmu')) + OFF \<Longrightarrow> m' a = m a"
    and "unat (host_alloc mmu) \<le> unat a \<Longrightarrow> unat a < unat (host_alloc mmu') \<Longrightarrow> m' a = Some (RW, 0)"
    by blast+
qed

text \<open>An allocation the kernel grants does not fail.\<close>

lemma mmu_alloc_total:
  assumes h: "heap_ok mmu m" and k: "\<And>a l. grants_map k a l" "\<And>a l. grants_unmap k a l"
    and lo: "uint (mmu_base mmu) \<le> uint (mmu_brk mmu) + sint sz"
    and hi: "uint (mmu_brk mmu) + sint sz + int OFF \<le> int USER_END"
  shows "\<exists>r. mmu_alloc k mmu sz m = Inr r"
proof -
  let ?new = "mmu_brk mmu + sz" and ?g = "TO_GUEST (host_alloc mmu)"
  have nn: "0 \<le> uint (mmu_brk mmu) + sint sz" using lo uint_ge_0 [of "mmu_base mmu"] by linarith
  note u = uint_brk_plus [OF h nn]
  have asserts: "mmu_base mmu \<le> mmu_brk mmu" "mmu_base mmu \<le> ?new"
    using h u lo by (simp_all add: heap_ok_def word_le_def)
  have new: "unat ?new + OFF \<le> USER_END"
  proof -
    have "int (unat ?new) + int OFF \<le> int USER_END" using hi u by (simp only: of_nat_unat)
    then show ?thesis by linarith
  qed
  have ud: "USER_END mod page = 0" by (simp add: USER_END_def)
  note g = heap_guest_end [OF h]
  have hok: "unat (host_alloc mmu) \<le> USER_END" "unat (host_alloc mmu) mod page = 0"
    "OFF \<le> unat (host_alloc mmu)" using h by (simp_all add: heap_ok_def)
  consider (a) "0 <s sz" "?new > ?g"
    | (b) "\<not> (0 <s sz \<and> ?new > ?g)" "sz <s 0" "ROUNDUP ?new getpagesize < ?g"
    | (c) "\<not> (0 <s sz \<and> ?new > ?g)" "\<not> (sz <s 0 \<and> ROUNDUP ?new getpagesize < ?g)" by blast
  then show ?thesis
  proof cases
    case a
    let ?len = "ROUNDUP (?new - ?g) getpagesize"
    have d: "unat (?new - ?g) = unat ?new - unat ?g" using a(2) by (intro unat_sub) simp
    then have l: "unat ?len = page_up (unat ?new + OFF - unat (host_alloc mmu))"
      using new USER_END_lt g hok by (subst unat_ROUNDUP) simp_all
    have lt: "unat (host_alloc mmu) < unat ?new + OFF"
      using a(2) g hok by (simp add: word_less_nat_alt)
    have "page_up (unat ?new + OFF - unat (host_alloc mmu)) \<le> USER_END - unat (host_alloc mmu)"
      using new hok ud by (intro page_up_le) (simp_all add: mod_eq_0_iff_dvd dvd_diff_nat)
    moreover have "0 < page_up (unat ?new + OFF - unat (host_alloc mmu))"
      using page_up_ge [of "unat ?new + OFF - unat (host_alloc mmu)"] lt by linarith
    ultimately have ok: "range_ok (host_alloc mmu) ?len"
      using l hok by (auto simp: range_ok_def unat_eq_0 [symmetric])
    have "host_alloc mmu \<noteq> MAP_FAILED"
      using hok(1) USER_END_lt by (auto simp: MAP_FAILED_def unsigned_minus_1_eq_mask mask_eq_exp_minus_1)
    with a ok k asserts show ?thesis
      by (simp add: mmu_alloc_def mmap_def Let_def)
  next
    case b
    let ?r = "ROUNDUP ?new getpagesize"
    have r: "unat ?r = page_up (unat ?new)" using new USER_END_lt by (intro unat_ROUNDUP) simp
    have lt: "page_up (unat ?new) + OFF < unat (host_alloc mmu)"
      using b(3) r g by (simp add: word_less_nat_alt)
    have "unat (TO_HOST ?r) = page_up (unat ?new) + OFF"
      using lt hok USER_END_lt r by (subst unat_TO_HOST) simp_all
    moreover have "unat (?g - ?r) = unat (host_alloc mmu) - OFF - page_up (unat ?new)"
      using b(3) r g by (subst unat_sub) simp_all
    moreover have "(page_up (unat ?new) + OFF) mod page = 0"
      by (simp add: mod_add_eq [symmetric, of "page_up (unat ?new)"])
    ultimately have "range_ok (TO_HOST ?r) (?g - ?r)"
      using lt hok by (auto simp: range_ok_def unat_eq_0 [symmetric])
    with b k asserts show ?thesis
      by (auto simp: mmu_alloc_def munmap_def Let_def)
  next
    case c
    with asserts show ?thesis by (auto simp: mmu_alloc_def Let_def)
  qed
qed

subsection \<open>A loaded segment\<close>

abbreviation seg_start :: "elf64_phdr_t \<Rightarrow> u64" where
  "seg_start ph \<equiv> ROUNDDOWN (TO_HOST (p_vaddr ph)) getpagesize"

abbreviation seg_skip :: "elf64_phdr_t \<Rightarrow> u64" where
  "seg_skip ph \<equiv> TO_HOST (p_vaddr ph) - seg_start ph"

lemma ROUNDUP_mod: "unat (ROUNDUP x getpagesize) mod page = 0"
proof -
  have "ROUNDUP x getpagesize = ROUNDDOWN (x + 4095) getpagesize"
    by (simp add: ROUNDUP_def ROUNDDOWN_def getpagesize_def add.commute)
  then show ?thesis by (simp add: unat_ROUNDDOWN)
qed

lemma seg_skip: "unat (seg_skip ph) = unat (TO_HOST (p_vaddr ph)) mod page"
proof -
  have "seg_start ph \<le> TO_HOST (p_vaddr ph)"
    by (simp add: word_le_nat_alt unat_ROUNDDOWN)
  then show ?thesis
    by (simp add: unat_sub unat_ROUNDDOWN minus_div_mult_eq_mod)
qed

lemma aligned_not_failed:
  assumes "unat addr mod page = 0"
  shows "addr \<noteq> MAP_FAILED" "MAP_FAILED \<noteq> addr"
proof -
  have "unat MAP_FAILED mod page = 4095"
    by (simp add: MAP_FAILED_def unsigned_minus_1_eq_mask mask_eq_exp_minus_1)
  with assms show "addr \<noteq> MAP_FAILED" "MAP_FAILED \<noteq> addr" by auto
qed

text \<open>The first mapping, then the rest of \<^verbatim>\<open>mmu_load_segment\<close>.\<close>

lemma load_segment_unfold:
  assumes "mmu_load_segment k mmu ph file m = Inr (mmu', m')"
    and "F = p_filesz ph + seg_skip ph" and "M = p_memsz ph + seg_skip ph"
    and rem: "rem = ROUNDUP M getpagesize - ROUNDUP F getpagesize"
    and m1: "m1 = map_pages m (seg_start ph) F (flags_to_mmap_prot (p_flags ph))
              (file_content file (unat (ROUNDDOWN (p_offset ph) getpagesize)))"
    and al: "unat (seg_start ph + ROUNDUP F getpagesize) mod page = 0"
  shows "range_ok (seg_start ph) F \<and>
    (if rem = 0 then m' = m1
     else range_ok (seg_start ph + ROUNDUP F getpagesize) rem \<and>
       m' = map_pages m1 (seg_start ph + ROUNDUP F getpagesize) rem (flags_to_mmap_prot (p_flags ph)) anon_content) \<and>
    mmu' = mmu\<lparr>host_alloc := max (host_alloc mmu) (seg_start ph + ROUNDUP M getpagesize),
       mmu_brk := TO_GUEST (max (host_alloc mmu) (seg_start ph + ROUNDUP M getpagesize)),
       mmu_base := TO_GUEST (max (host_alloc mmu) (seg_start ph + ROUNDUP M getpagesize))\<rparr>"
proof -
  have "unat (seg_start ph) mod page = 0" by (simp add: unat_ROUNDDOWN)
  note nf = aligned_not_failed [OF this] aligned_not_failed [OF al]
  show ?thesis
    using assms(1) nf unfolding rem m1 assms(2,3)
    by (auto simp: mmu_load_segment_def mmap_def Let_def word_gt_0 bindE_eq_Inr assertE_eq_Inr split: if_splits)
qed

lemma load_segment_cases:
  assumes run: "mmu_load_segment k mmu ph file m = Inr (mmu', m')"
    and F: "F = p_filesz ph + seg_skip ph" and M: "M = p_memsz ph + seg_skip ph"
    and rem: "rem = ROUNDUP M getpagesize - ROUNDUP F getpagesize"
    and m1: "m1 = map_pages m (seg_start ph) F (flags_to_mmap_prot (p_flags ph))
              (file_content file (unat (ROUNDDOWN (p_offset ph) getpagesize)))"
  shows "F \<noteq> 0" "unat (seg_start ph) + page_up (unat F) + unat rem \<le> USER_END" "unat rem mod page = 0"
    "unat (seg_start ph + ROUNDUP F getpagesize) = unat (seg_start ph) + page_up (unat F)"
    "unat (ROUNDUP M getpagesize) = page_up (unat F) + unat rem"
    "m' = (if rem = 0 then m1
           else map_pages m1 (seg_start ph + ROUNDUP F getpagesize) rem (flags_to_mmap_prot (p_flags ph)) anon_content)"
    "mmu' = mmu\<lparr>host_alloc := max (host_alloc mmu) (seg_start ph + ROUNDUP M getpagesize),
       mmu_brk := TO_GUEST (max (host_alloc mmu) (seg_start ph + ROUNDUP M getpagesize)),
       mmu_base := TO_GUEST (max (host_alloc mmu) (seg_start ph + ROUNDUP M getpagesize))\<rparr>"
proof -
  let ?al = "seg_start ph"
  have a0: "unat (?al + ROUNDUP F getpagesize) mod page = 0"
    by (simp add: unat_word_ariths mod_mod_cancel)
      (simp add: mod_add_eq [symmetric, of "unat ?al"] ROUNDUP_mod unat_ROUNDDOWN)
  note u = load_segment_unfold [OF run F M rem m1 a0]
  then have e1: "F \<noteq> 0" "unat ?al + unat F \<le> USER_END" by (simp_all add: range_ok_def)
  then have rf: "unat (ROUNDUP F getpagesize) = page_up (unat F)"
    using USER_END_lt by (intro unat_ROUNDUP) simp
  have "page_up (unat F) \<le> USER_END - unat ?al"
    using e1 by (intro page_up_le) (simp_all add: USER_END_def unat_ROUNDDOWN mod_eq_0_iff_dvd dvd_diff_nat)
  with e1 have e2: "unat ?al + page_up (unat F) \<le> USER_END" by simp
  then show ua: "unat (?al + ROUNDUP F getpagesize) = unat ?al + page_up (unat F)"
    using rf USER_END_lt by (simp add: unat_word_ariths)
  show e3: "unat ?al + page_up (unat F) + unat rem \<le> USER_END"
    using u e2 ua by (cases "rem = 0") (simp_all add: range_ok_def)
  have "ROUNDUP M getpagesize = ROUNDUP F getpagesize + rem" by (simp add: rem)
  then show um: "unat (ROUNDUP M getpagesize) = page_up (unat F) + unat rem"
    using rf e3 USER_END_lt by (simp add: unat_word_ariths)
  then have "(page_up (unat F) + unat rem) mod page = 0" using ROUNDUP_mod [of M] by simp
  then show "unat rem mod page = 0" by (simp add: mod_add_eq [symmetric, of "page_up (unat F)"])
  show "F \<noteq> 0" by (rule e1(1))
  from u show "m' = (if rem = 0 then m1
     else map_pages m1 (?al + ROUNDUP F getpagesize) rem (flags_to_mmap_prot (p_flags ph)) anon_content)"
    by (simp split: if_splits)
  from u show "mmu' = mmu\<lparr>host_alloc := max (host_alloc mmu) (?al + ROUNDUP M getpagesize),
     mmu_brk := TO_GUEST (max (host_alloc mmu) (?al + ROUNDUP M getpagesize)),
     mmu_base := TO_GUEST (max (host_alloc mmu) (?al + ROUNDUP M getpagesize))\<rparr>"
    by blast
qed

text \<open>Every byte of the address space after a segment has been loaded.\<close>

lemma load_segment_mem:
  assumes run: "mmu_load_segment k mmu ph file m = Inr (mmu', m')"
    and F: "F = p_filesz ph + seg_skip ph" and M: "M = p_memsz ph + seg_skip ph"
  shows "m' a = (let d = unat a - unat (seg_start ph); prot = flags_to_mmap_prot (p_flags ph) in
     if unat a < unat (seg_start ph) \<or> unat (ROUNDUP M getpagesize) \<le> d then m a
     else if d < page_up (unat F)
     then map_option (Pair prot) (file_content file (unat (ROUNDDOWN (p_offset ph) getpagesize)) d)
     else Some (prot, 0))"
proof -
  let ?al = "seg_start ph"
  define rem where "rem = ROUNDUP M getpagesize - ROUNDUP F getpagesize"
  define m1 where "m1 = map_pages m ?al F (flags_to_mmap_prot (p_flags ph))
     (file_content file (unat (ROUNDDOWN (p_offset ph) getpagesize)))"
  note c = load_segment_cases [OF run F M rem_def m1_def]
  have "unat ?al + page_up (unat F) \<le> 2 ^ 64" using c(2) USER_END_lt by simp
  note at1 = map_pages_at [OF this, of m "flags_to_mmap_prot (p_flags ph)"
      "file_content file (unat (ROUNDDOWN (p_offset ph) getpagesize))" a, folded m1_def]
  have "unat (?al + ROUNDUP F getpagesize) + page_up (unat rem) \<le> 2 ^ 64"
    using c(2-4) USER_END_lt by (simp add: page_up_aligned)
  note at2 = map_pages_at [OF this, of m1 "flags_to_mmap_prot (p_flags ph)" anon_content a]
  from c(3,4) have at2': "map_pages m1 (?al + ROUNDUP F getpagesize) rem (flags_to_mmap_prot (p_flags ph)) anon_content a =
     (if unat ?al + page_up (unat F) \<le> unat a \<and> unat a < unat ?al + page_up (unat F) + unat rem
      then Some (flags_to_mmap_prot (p_flags ph), 0) else m1 a)"
    unfolding at2 by (simp add: page_up_aligned anon_content_def)
  show ?thesis
  proof (cases "rem = 0")
    case True
    then have "m' a = m1 a" using c(6) by simp
    with True at1 c(5) show ?thesis by (auto simp: Let_def)
  next
    case False
    then have "m' a = (if unat ?al + page_up (unat F) \<le> unat a \<and> unat a < unat ?al + page_up (unat F) + unat rem
      then Some (flags_to_mmap_prot (p_flags ph), 0) else m1 a)" using c(6) at2' by simp
    with at1 c(5) show ?thesis by (auto simp: Let_def)
  qed
qed

lemma host_page_offset: "unat (TO_HOST v) mod page = unat v mod page"
proof -
  have "unat (TO_HOST v) mod 4096 = (unat v + OFF) mod 4096"
    by (simp add: TO_HOST_def unat_word_ariths unat_offset mod_mod_cancel)
  also have "\<dots> = unat v mod 4096" by (simp add: mod_add_eq [symmetric, of "unat v" OFF])
  finally show ?thesis .
qed

lemma segment_bytes:
  assumes run: "mmu_load_segment k mmu ph file m = Inr (mmu', m')"
    and "unat (p_filesz ph) < 2 ^ 63" and "unat (p_memsz ph) < 2 ^ 63"
    and cong: "unat (p_offset ph) mod page = unat (p_vaddr ph) mod page" and j: "j < unat (p_memsz ph)"
  shows "m' (TO_HOST (p_vaddr ph + of_nat j)) =
    (let skip = unat (p_vaddr ph) mod page; prot = flags_to_mmap_prot (p_flags ph) in
     if skip + j < page_up (skip + unat (p_filesz ph))
     then map_option (Pair prot) (file_content file (unat (p_offset ph)) j) else Some (prot, 0))"
proof -
  let ?al = "seg_start ph"
  define d where "d = unat (p_vaddr ph) mod page"
  define F where "F = p_filesz ph + seg_skip ph"
  define M where "M = p_memsz ph + seg_skip ph"
  have d: "unat (seg_skip ph) = d" by (simp only: seg_skip host_page_offset d_def)
  have "d < 4096" by (simp add: d_def)
  then have uF: "unat F = d + unat (p_filesz ph)" and uM: "unat M = d + unat (p_memsz ph)"
    using assms(2,3) d by (simp_all add: F_def M_def unat_word_ariths)
  have rM: "unat (ROUNDUP M getpagesize) = page_up (unat M)"
    using uM assms(3) \<open>d < 4096\<close> by (intro unat_ROUNDUP) simp
  note c = load_segment_cases [OF run F_def M_def refl refl]
  have jM: "d + j < page_up (unat M)" using j uM page_up_ge [of "unat M"] by simp
  have end': "unat ?al + page_up (unat M) \<le> USER_END" using c(2,5) rM by simp
  have "TO_HOST (p_vaddr ph + of_nat j) = ?al + (seg_skip ph + of_nat j)"
    by (simp add: TO_HOST_def)
  moreover have "unat (seg_skip ph + of_nat j) = d + j"
    using d jM end' USER_END_lt by (simp add: unat_word_ariths unat_of_nat)
  moreover from this have "unat (?al + (seg_skip ph + of_nat j)) = unat ?al + (d + j)"
    using jM end' USER_END_lt by (subst unat_word_ariths) simp
  ultimately have a: "unat (TO_HOST (p_vaddr ph + of_nat j)) = unat ?al + (d + j)" by (simp only:)
  have "unat (p_offset ph) = unat (ROUNDDOWN (p_offset ph) getpagesize) + d"
    using div_mult_mod_eq [of "unat (p_offset ph)" 4096] cong by (simp add: unat_ROUNDDOWN d_def)
  then have "file_content file (unat (ROUNDDOWN (p_offset ph) getpagesize)) (d + j) =
      file_content file (unat (p_offset ph)) j"
    by (simp add: file_content_def add.assoc)
  with load_segment_mem [OF run F_def M_def, of "TO_HOST (p_vaddr ph + of_nat j)"] a jM
  show ?thesis by (simp add: Let_def rM uF d_def)
qed

subsection \<open>The heap after loading\<close>

definition loaded_ok :: "mmu_t \<Rightarrow> bool" where
  "loaded_ok mmu \<longleftrightarrow> unat (host_alloc mmu) \<le> USER_END \<and> unat (host_alloc mmu) mod page = 0 \<and>
     (OFF \<le> unat (host_alloc mmu) \<longrightarrow>
       mmu_brk mmu = TO_GUEST (host_alloc mmu) \<and> mmu_base mmu = TO_GUEST (host_alloc mmu))"

lemma loaded_heap: "loaded_ok mmu \<Longrightarrow> OFF \<le> unat (host_alloc mmu) \<Longrightarrow> heap_ok mmu m"
  by (auto simp: loaded_ok_def heap_ok_def unat_TO_GUEST)

lemma load_segment_loaded:
  assumes run: "mmu_load_segment k mmu ph file m = Inr (mmu', m')" and "loaded_ok mmu"
  shows "loaded_ok mmu' \<and> mmu_entry mmu' = mmu_entry mmu"
proof -
  define M where "M = p_memsz ph + seg_skip ph"
  note c = load_segment_cases [OF run refl M_def refl refl]
  have "unat (seg_start ph) + unat (ROUNDUP M getpagesize) \<le> USER_END" using c(2,5) by simp
  then have e: "unat (seg_start ph + ROUNDUP M getpagesize) =
      unat (seg_start ph) + unat (ROUNDUP M getpagesize)"
    using USER_END_lt by (simp add: unat_word_ariths)
  have "(unat (seg_start ph) + unat (ROUNDUP M getpagesize)) mod page = 0"
    by (simp add: mod_add_eq [symmetric, of "unat (seg_start ph)"] ROUNDUP_mod unat_ROUNDDOWN)
  with c(2,5,7) e assms(2) show ?thesis
    by (auto simp: loaded_ok_def max_def)
qed

lemma load_phdrs_loaded:
  "load_phdrs k ehdr file i n (mmu, m) = Inr (mmu', m') \<Longrightarrow> loaded_ok mmu \<Longrightarrow>
   loaded_ok mmu' \<and> mmu_entry mmu' = mmu_entry mmu"
proof (induction n arbitrary: i mmu m)
  case (Suc n)
  from Suc.prems(1) obtain ph mmu1 m1 where ph:
    "(if p_type ph = PT_LOAD then mmu_load_segment k mmu ph file m else Inr (mmu, m)) = Inr (mmu1, m1)"
    "load_phdrs k ehdr file (i + 1) n (mmu1, m1) = Inr (mmu', m')"
    by (auto simp: bindE_eq_Inr)
  have "loaded_ok mmu1 \<and> mmu_entry mmu1 = mmu_entry mmu"
    using ph(1) Suc.prems(2) load_segment_loaded by (cases "p_type ph = PT_LOAD") auto
  with Suc.IH [OF ph(2)] show ?case by simp
qed simp

lemma magic_inj:
  assumes "length (bs :: u8 list) \<ge> 4"
  shows "(field bs 0 4 :: u32) = field ELFMAG 0 4 \<longleftrightarrow> take 4 bs = ELFMAG"
proof -
  have inj: "xs = ys" if "(of_nat (le_val xs) :: u32) = of_nat (le_val ys)" "length xs = 4" "length ys = 4"
    for xs ys :: "u8 list"
  proof -
    have "le_val xs < 4294967296" "le_val ys < 4294967296"
      using le_val_bound [of xs] le_val_bound [of ys] that(2,3) by simp_all
    then have "unat (of_nat (le_val xs) :: u32) = le_val xs" "unat (of_nat (le_val ys) :: u32) = le_val ys"
      by (simp_all add: unat_of_nat)
    with that(1) have "le_val xs = le_val ys" by metis
    then show ?thesis using le_bytes_val [OF that(2)] le_bytes_val [OF that(3)] by metis
  qed
  have l: "length (take 4 bs) = 4" "length ELFMAG = 4" using assms by (simp_all add: ELFMAG_def)
  have "field ELFMAG 0 4 = of_nat (le_val ELFMAG)" "field bs 0 4 = of_nat (le_val (take 4 bs))"
    by (simp_all only: field_def drop_0) (simp add: ELFMAG_def)
  with inj [OF _ l] show ?thesis by metis
qed

subsection \<open>Properties of the heap and the loader\<close>

definition all_granted :: kernel_t where
  "all_granted = \<lparr>grants_map = \<lambda>_ _. True, grants_unmap = \<lambda>_ _. True\<rparr>"

definition demo_mmu :: mmu_t where
  "demo_mmu = \<lparr>mmu_entry = 0x10000, host_alloc = TO_HOST 0x20000, mmu_brk = 0x20000, mmu_base = 0x20000\<rparr>"

lemma demo_mmu_ok: "heap_ok demo_mmu (\<lambda>_. None)"
  by (simp add: heap_ok_def demo_mmu_def TO_HOST_def GUEST_MEMORY_OFFSET_def USER_END_def)

text \<open>
  C27. \<^verbatim>\<open>mmu_alloc\<close> moves the program break by the size asked for and returns the old one. The
  heap stays well formed: every byte from its base to the end of the host pages is mapped for
  reading and writing, the break lies within them, fresh pages are zero, and no byte below the old and the
  new break changes. The size must not take the break below address zero.
\<close>
theorem mmu_alloc_correct:
  "heap_ok mmu m \<Longrightarrow> 0 \<le> uint (mmu_brk mmu) + sint sz \<Longrightarrow> mmu_alloc k mmu sz m = Inr (r, mmu', m') \<Longrightarrow>
   r = mmu_brk mmu \<and> uint (mmu_brk mmu') = uint (mmu_brk mmu) + sint sz \<and> mmu_base mmu' = mmu_base mmu \<and>
   heap_ok mmu' m' \<and>
   (\<forall>a. unat a < min (unat (mmu_brk mmu)) (unat (mmu_brk mmu')) + unat GUEST_MEMORY_OFFSET \<longrightarrow> m' a = m a) \<and>
   (\<forall>a. unat (host_alloc mmu) \<le> unat a \<longrightarrow> unat a < unat (host_alloc mmu') \<longrightarrow> m' a = Some (RW, 0))"
  using mmu_alloc_inv [of mmu m sz k r mmu' m'] mmu_alloc_frame [of k mmu sz m r mmu' m'] uint_brk_plus [of mmu m sz]
  by (simp add: unat_offset)

text \<open>
  C35. When the kernel grants every request, an allocation or release that keeps the program break between the
  base of the heap and the end of the user address space succeeds.
\<close>
theorem mmu_alloc_succeeds:
  "heap_ok mmu m \<Longrightarrow> (\<And>a l. grants_map k a l) \<Longrightarrow> (\<And>a l. grants_unmap k a l) \<Longrightarrow>
   uint (mmu_base mmu) \<le> uint (mmu_brk mmu) + sint sz \<Longrightarrow>
   uint (mmu_brk mmu) + sint sz + uint GUEST_MEMORY_OFFSET \<le> int USER_END \<Longrightarrow>
   \<exists>r. mmu_alloc k mmu sz m = Inr r"
  by (rule mmu_alloc_total) (simp_all add: GUEST_MEMORY_OFFSET_def)

lemma mmu_alloc_succeeds_witness: "\<exists>r. mmu_alloc all_granted demo_mmu 5000 (\<lambda>_. None) = Inr r"
  by (rule mmu_alloc_succeeds [OF demo_mmu_ok])
    (simp_all add: all_granted_def demo_mmu_def GUEST_MEMORY_OFFSET_def USER_END_def)

lemma mmu_alloc_correct_witness:
  "\<exists>mmu' m'. mmu_alloc all_granted demo_mmu 5000 (\<lambda>_. None) = Inr (0x20000, mmu', m') \<and> heap_ok mmu' m'"
proof -
  obtain r mmu' m' where run: "mmu_alloc all_granted demo_mmu 5000 (\<lambda>_. None) = Inr (r, mmu', m')"
    using mmu_alloc_total [OF demo_mmu_ok, of all_granted 5000]
    by (auto simp: all_granted_def demo_mmu_def USER_END_def)
  from mmu_alloc_correct [OF demo_mmu_ok _ run] show ?thesis
    using run by (auto simp: demo_mmu_def)
qed

text \<open>
  C28. What a loaded segment holds: for a program header whose offset and address agree
  modulo the page size, byte \<open>j\<close> of the segment is byte \<open>j\<close> of the file from its offset on while it
  lies in a page the file part reaches, and zero in the pages behind. The bytes of the last file page behind
  \<^verbatim>\<open>p_filesz\<close>, where \<^verbatim>\<open>.bss\<close> begins, are those of the file and not zero.
\<close>
theorem load_segment_bytes:
  "mmu_load_segment k mmu ph file m = Inr (mmu', m') \<Longrightarrow>
   unat (p_filesz ph) < 2 ^ 63 \<Longrightarrow> unat (p_memsz ph) < 2 ^ 63 \<Longrightarrow>
   unat (p_offset ph) mod page = unat (p_vaddr ph) mod page \<Longrightarrow> j < unat (p_memsz ph) \<Longrightarrow>
   m' (TO_HOST (p_vaddr ph + of_nat j)) =
    (let skip = unat (p_vaddr ph) mod page; prot = flags_to_mmap_prot (p_flags ph) in
     if skip + j < page_up (skip + unat (p_filesz ph))
     then map_option (Pair prot) (file_content file (unat (p_offset ph)) j) else Some (prot, 0))"
  by (rule segment_bytes)

definition demo_phdr :: elf64_phdr_t where
  "demo_phdr = \<lparr>p_type = PT_LOAD, p_flags = 6, p_offset = 2, p_vaddr = 0x10002, p_paddr = 0,
     p_filesz = 1, p_memsz = 3, p_align = 4096\<rparr>"

lemma load_segment_bytes_witness:
  "\<exists>mmu' m'. mmu_load_segment all_granted zero_mmu demo_phdr [1, 2, 3, 4, 5] (\<lambda>_. None) = Inr (mmu', m') \<and>
     m' (TO_HOST 0x10003) = Some (RW, 4)"
proof -
  obtain mmu' m' where run:
    "mmu_load_segment all_granted zero_mmu demo_phdr [1, 2, 3, 4, 5] (\<lambda>_. None) = Inr (mmu', m')"
    by (simp add: mmu_load_segment_def demo_phdr_def zero_mmu_def all_granted_def mmap_def range_ok_def
        getpagesize_def ROUNDUP_def ROUNDDOWN_def TO_HOST_def GUEST_MEMORY_OFFSET_def USER_END_def Let_def)
  from load_segment_bytes [OF run, of 1] run show ?thesis
    by (simp add: demo_phdr_def page_up_def file_content_def flags_to_mmap_prot_def PF_R_def PF_W_def PF_X_def)
qed

text \<open>
  C38. A page-aligned segment with no bytes in the file cannot be loaded: the mapping of its
  empty file part fails and the assertion on its address ends the emulator.
\<close>
theorem load_segment_pure_bss:
  "p_filesz ph = 0 \<Longrightarrow> unat (p_vaddr ph) mod page = 0 \<Longrightarrow>
   mmu_load_segment k mmu ph file m = Inl (AssertFail ''addr == aligned_vaddr'')"
proof -
  assume z: "p_filesz ph = 0" and al: "unat (p_vaddr ph) mod page = 0"
  have "unat (seg_skip ph) = 0" using al by (simp only: seg_skip host_page_offset)
  then have "seg_skip ph = 0" by (simp add: unat_eq_0)
  moreover have "MAP_FAILED \<noteq> seg_start ph"
    by (rule aligned_not_failed) (simp add: unat_ROUNDDOWN)
  ultimately show ?thesis
    using z by (simp add: mmu_load_segment_def mmap_def range_ok_def Let_def)
qed

lemma load_segment_pure_bss_witness:
  "mmu_load_segment all_granted zero_mmu (demo_phdr\<lparr>p_filesz := 0, p_vaddr := 0x10000\<rparr>) [] (\<lambda>_. None) =
     Inl (AssertFail ''addr == aligned_vaddr'')"
  by (rule load_segment_pure_bss) (simp_all add: demo_phdr_def)

text \<open>
  C36. A file that is not a 64-bit RISC-V ELF file is refused with the message for its
  defect, before any page is mapped.
\<close>
theorem load_elf_rejects:
  "(length file < 64 \<longrightarrow> mmu_load_elf k mmu file m = Inl (Fatal ''file too small!'')) \<and>
   (64 \<le> length file \<and> take 4 file \<noteq> ELFMAG \<longrightarrow>
     mmu_load_elf k mmu file m = Inl (Fatal ''not an ELF file!'')) \<and>
   (64 \<le> length file \<and> take 4 file = ELFMAG \<and> (field file 18 2 \<noteq> EM_RISCV \<or> file ! 4 \<noteq> ELFCLASS64) \<longrightarrow>
     mmu_load_elf k mmu file m = Inl (Fatal ''only support 64-bit RISC-V ELF file!''))"
proof -
  have "take 4 (take 64 file) = take 4 file" by (simp add: min_def)
  then have magic: "(field (take 64 file) 0 4 :: u32) = field ELFMAG 0 4 \<longleftrightarrow> take 4 file = ELFMAG"
    if "64 \<le> length file" using magic_inj [of "take 64 file"] that by simp
  have fld: "field (take 64 file) 18 2 = (field file 18 2 :: u16)"
    by (simp add: field_def drop_take min_def)
  show ?thesis
    by (auto simp: mmu_load_elf_def Let_def magic fld ehdr_of_def EI_CLASS_def min_def)
qed

lemma load_elf_rejects_witness:
  "mmu_load_elf all_granted zero_mmu (replicate 64 0) (\<lambda>_. None) = Inl (Fatal ''not an ELF file!'')"
proof -
  have "take 4 (replicate 64 0) \<noteq> ELFMAG"
    by (auto simp: ELFMAG_def take_replicate dest: arg_cong [of _ _ hd])
  with load_elf_rejects [of "replicate 64 0" all_granted zero_mmu "\<lambda>_. None"] show ?thesis by simp
qed


definition demo_elf :: "u8 list" where
  "demo_elf =
    [127, 69, 76, 70, 2, 0, 0, 0, 0, 0, 0, 0, 0, 0, 0, 0, 2, 0, 243, 0, 1, 0, 0, 0,
     0, 0, 1, 0, 0, 0, 0, 0, 64, 0, 0, 0, 0, 0, 0, 0, 0, 0, 0, 0, 0, 0, 0, 0,
     0, 0, 0, 0, 0, 0, 56, 0, 1, 0, 0, 0, 0, 0, 0, 0] @
    [1, 0, 0, 0, 7, 0, 0, 0, 0, 0, 0, 0, 0, 0, 0, 0, 0, 0, 1, 0, 0, 0, 0, 0,
     0, 0, 0, 0, 0, 0, 0, 0, 120, 0, 0, 0, 0, 0, 0, 0, 0, 32, 0, 0, 0, 0, 0, 0,
     0, 16, 0, 0, 0, 0, 0, 0]"

lemma demo_elf_length: "length demo_elf = 120"
  by (simp add: demo_elf_def)

lemma demo_elf_ehdr:
  "(field (take 64 demo_elf) 0 4 :: u32) = field ELFMAG 0 4"
  "e_machine (ehdr_of (take 64 demo_elf)) = EM_RISCV"
  "e_ident (ehdr_of (take 64 demo_elf)) ! EI_CLASS = ELFCLASS64"
  "e_phnum (ehdr_of (take 64 demo_elf)) = 1" "e_phoff (ehdr_of (take 64 demo_elf)) = 64"
  "e_phentsize (ehdr_of (take 64 demo_elf)) = 56" "e_entry (ehdr_of (take 64 demo_elf)) = 0x10000"
  by (simp_all add: demo_elf_def field_def ELFMAG_def ehdr_of_def EM_RISCV_def ELFCLASS64_def EI_CLASS_def)

lemma demo_elf_phdr:
  "load_phdr (ehdr_of (take 64 demo_elf)) 0 demo_elf = Inr \<lparr>p_type = PT_LOAD, p_flags = 7, p_offset = 0,
     p_vaddr = 0x10000, p_paddr = 0, p_filesz = 120, p_memsz = 8192, p_align = 4096\<rparr>"
  unfolding load_phdr_def Let_def demo_elf_ehdr
  by (simp add: demo_elf_def field_def phdr_of_def PT_LOAD_def word_sless_alt)


end
