(* ===== verification/Probing.thy ===== *)
theory Probing
  imports Prelude
begin

text \<open>
  Open addressing with linear probing. \<^verbatim>\<open>src/set.c\<close> and \<^verbatim>\<open>src/cache.c\<close> hash a nonzero
  64-bit key to a slot and step to the next slot (modulo the table size) until they meet the
  key or an empty slot, whose key is 0. A table is given here by its size and by the key each
  slot holds. The insertions assert that at most \<^verbatim>\<open>MAX_SEARCH_COUNT\<close> steps are made; the
  cache's lookup has no bound. Slot indices stay below the table size, so they are natural
  numbers here.
\<close>

subsection \<open>The search loops\<close>

definition MAX_SEARCH_COUNT :: nat where
  "MAX_SEARCH_COUNT = 32"

function probe :: "nat \<Rightarrow> (nat \<Rightarrow> u64) \<Rightarrow> u64 \<Rightarrow> nat \<Rightarrow> nat \<Rightarrow> nat result" where
  "probe n key k index search_count =
     (if key index = 0 \<or> key index = k then Inr index
      else if search_count + 1 \<le> MAX_SEARCH_COUNT
      then probe n key k ((index + 1) mod n) (search_count + 1)
      else Inl (AssertFail ''++search_count <= MAX_SEARCH_COUNT''))"
  by pat_completeness auto
termination
  by (relation "measure (\<lambda>(n, key, k, index, c). MAX_SEARCH_COUNT - c)") auto

declare probe.simps [simp del]

text \<open>The unbounded search: outer \<^const>\<open>None\<close> is a loop that never ends.\<close>

partial_function (option) scan :: "nat \<Rightarrow> (nat \<Rightarrow> u64) \<Rightarrow> u64 \<Rightarrow> nat \<Rightarrow> nat option" where
  "scan n key k index =
     (if key index = 0 \<or> key index = k then Some index
      else scan n key k ((index + 1) mod n))"

subsection \<open>Well-formed tables\<close>

text \<open>
  \<open>stop_at\<close>: walking \<open>d\<close> slots on from slot \<open>i\<close> meets neither \<open>k\<close> nor an empty slot before
  the last one, which is empty or holds \<open>k\<close>.
\<close>

definition clear_path :: "nat \<Rightarrow> (nat \<Rightarrow> u64) \<Rightarrow> u64 \<Rightarrow> nat \<Rightarrow> nat \<Rightarrow> bool" where
  "clear_path n key k i d \<longleftrightarrow>
     (\<forall>e<d. key ((i + e) mod n) \<noteq> 0 \<and> key ((i + e) mod n) \<noteq> k)"

definition stop_at :: "nat \<Rightarrow> (nat \<Rightarrow> u64) \<Rightarrow> u64 \<Rightarrow> nat \<Rightarrow> nat \<Rightarrow> bool" where
  "stop_at n key k i d \<longleftrightarrow> clear_path n key k i d \<and>
     (key ((i + d) mod n) = 0 \<or> key ((i + d) mod n) = k)"

definition probe_inv :: "nat \<Rightarrow> (nat \<Rightarrow> u64) \<Rightarrow> bool" where
  "probe_inv n key \<longleftrightarrow> (\<forall>i<n. key i \<noteq> 0 \<longrightarrow>
     (\<exists>d\<le>MAX_SEARCH_COUNT. i = (unat (key i) mod n + d) mod n \<and>
        clear_path n key (key i) (unat (key i) mod n) d))"

lemma clear_path_0 [simp]: "clear_path n key k i 0"
  by (simp add: clear_path_def)

lemma clear_path_Suc_front:
  "clear_path n key k i (Suc d) \<longleftrightarrow>
     key (i mod n) \<noteq> 0 \<and> key (i mod n) \<noteq> k \<and> clear_path n key k ((i + 1) mod n) d"
  (is "?l \<longleftrightarrow> ?r")
proof -
  have "((i + 1) mod n + e) mod n = (i + Suc e) mod n" for e
    by (simp add: mod_simps)
  then show ?thesis
    unfolding clear_path_def by (auto simp: less_Suc_eq_0_disj)
qed

lemma stop_at_Suc:
  "stop_at n key k i (Suc d) \<longleftrightarrow>
     key (i mod n) \<noteq> 0 \<and> key (i mod n) \<noteq> k \<and> stop_at n key k ((i + 1) mod n) d"
proof -
  have "((i + 1) mod n + d) mod n = (i + Suc d) mod n"
    by (simp add: mod_simps)
  then show ?thesis
    by (auto simp: stop_at_def clear_path_Suc_front)
qed

lemma stop_at_unique:
  assumes "stop_at n key k i d" and "stop_at n key k i d'"
  shows "d = d'"
proof (rule ccontr)
  assume "d \<noteq> d'"
  then consider "d < d'" | "d' < d" by linarith
  then show False
    using assms by cases (auto simp: stop_at_def clear_path_def)
qed

subsection \<open>What the searches return\<close>

lemma probe_Inr:
  assumes "probe n key k i c = Inr j" and "i < n" and "c \<le> MAX_SEARCH_COUNT"
  shows "\<exists>d. c + d \<le> MAX_SEARCH_COUNT \<and> j = (i + d) mod n \<and> stop_at n key k i d"
  using assms
proof (induction n key k i c rule: probe.induct)
  case (1 n key k index c)
  show ?case
  proof (cases "key index = 0 \<or> key index = k")
    case True
    with "1.prems" have "j = (index + 0) mod n" "stop_at n key k index 0"
      by (auto simp: probe.simps [of n key k index c] stop_at_def)
    with "1.prems"(3) show ?thesis by (metis add_0_right)
  next
    case False
    with "1.prems" have le: "c + 1 \<le> MAX_SEARCH_COUNT"
      and rec: "probe n key k ((index + 1) mod n) (c + 1) = Inr j"
      by (auto simp: probe.simps [of n key k index c] split: if_splits)
    from "1.IH" [OF False le rec] "1.prems"(2) le obtain d
      where d: "c + 1 + d \<le> MAX_SEARCH_COUNT" "j = ((index + 1) mod n + d) mod n"
        "stop_at n key k ((index + 1) mod n) d" by auto
    from d(2) have "j = (index + Suc d) mod n" by (simp add: mod_simps)
    moreover from d(3) False "1.prems"(2) have "stop_at n key k index (Suc d)"
      by (simp add: stop_at_Suc)
    ultimately show ?thesis using d(1) by (metis add_Suc_right add_Suc_shift Suc_eq_plus1)
  qed
qed

lemma probe_stop_at:
  assumes "stop_at n key k i d" and "i < n" and "c + d \<le> MAX_SEARCH_COUNT"
  shows "probe n key k i c = Inr ((i + d) mod n)"
  using assms
proof (induction d arbitrary: i c)
  case 0
  then show ?case by (simp add: stop_at_def probe.simps [of n key k i c])
next
  case (Suc d)
  from Suc.prems have ne: "key i \<noteq> 0" "key i \<noteq> k"
    and st: "stop_at n key k ((i + 1) mod n) d" by (auto simp: stop_at_Suc)
  from Suc.IH [OF st] Suc.prems have
    "probe n key k ((i + 1) mod n) (c + 1) = Inr (((i + 1) mod n + d) mod n)" by simp
  with ne Suc.prems(3) show ?case
    by (simp add: probe.simps [of n key k i c] mod_simps)
qed

lemma scan_stop_at:
  assumes "stop_at n key k i d" and "i < n"
  shows "scan n key k i = Some ((i + d) mod n)"
  using assms
proof (induction d arbitrary: i)
  case 0
  then show ?case by (simp add: stop_at_def scan.simps [of n key k i])
next
  case (Suc d)
  from Suc.prems have ne: "key i \<noteq> 0" "key i \<noteq> k"
    and st: "stop_at n key k ((i + 1) mod n) d" by (auto simp: stop_at_Suc)
  from Suc.IH [OF st] Suc.prems have
    "scan n key k ((i + 1) mod n) = Some (((i + 1) mod n + d) mod n)" by simp
  with ne show ?case
    by (simp add: scan.simps [of n key k i] mod_simps)
qed

lemma stop_at_exists:
  assumes "i < n" and "j < n" and "key j = 0 \<or> key j = k"
  shows "\<exists>d<n. stop_at n key k i d"
proof -
  let ?P = "\<lambda>d. key ((i + d) mod n) = 0 \<or> key ((i + d) mod n) = k"
  define d0 where "d0 = (j + n - i) mod n"
  have "(i + d0) mod n = j"
    using assms(1,2) by (simp add: d0_def mod_simps)
  then have P: "?P d0" using assms(3) by simp
  moreover have "d0 < n" using assms(1) by (simp add: d0_def)
  moreover have "stop_at n key k i (LEAST d. ?P d)"
    unfolding stop_at_def clear_path_def
    using LeastI [of ?P, OF P] not_less_Least [of _ ?P] by blast
  ultimately show ?thesis
    using Least_le [of ?P, OF P] le_less_trans by blast
qed

subsection \<open>Lookup and insertion in a well-formed table\<close>

lemma probe_inv_stop_at:
  assumes inv: "probe_inv n key" and "i < n" and "key i = k" and "k \<noteq> 0"
  shows "\<exists>d\<le>MAX_SEARCH_COUNT. i = (unat k mod n + d) mod n \<and> stop_at n key k (unat k mod n) d"
  using assms unfolding probe_inv_def stop_at_def by metis

lemma probe_inv_unique:
  assumes inv: "probe_inv n key" and "i < n" "j < n" "key i = k" "key j = k" "k \<noteq> 0"
  shows "i = j"
  using probe_inv_stop_at [OF inv, of i k] probe_inv_stop_at [OF inv, of j k] assms
    stop_at_unique by metis

lemma scan_hit:
  assumes "probe_inv n key" and "i < n" and "key i = k" and "k \<noteq> 0"
  shows "scan n key k (unat k mod n) = Some i"
  using probe_inv_stop_at [OF assms] scan_stop_at [of n key k "unat k mod n"] assms(2)
  by fastforce

lemma probe_hit:
  assumes "probe_inv n key" and "i < n" and "key i = k" and "k \<noteq> 0"
  shows "probe n key k (unat k mod n) 0 = Inr i"
  using probe_inv_stop_at [OF assms] probe_stop_at [of n key k "unat k mod n" _ 0] assms(2)
  by fastforce

lemma scan_miss:
  assumes "\<forall>i<n. key i \<noteq> k" and "j < n" and "key j = 0"
  shows "\<exists>i<n. scan n key k (unat k mod n) = Some i \<and> key i = 0"
proof -
  have lt: "unat k mod n < n" using assms(2) by simp
  with assms(2,3) obtain d where "stop_at n key k (unat k mod n) d"
    using stop_at_exists by blast
  with lt assms(1) show ?thesis
    using scan_stop_at [OF _ lt] unfolding stop_at_def
    by (metis assms(2) mod_less_divisor not_less0 gr0I)
qed

lemma probe_hit_or_empty:
  assumes "probe n key k (unat k mod n) 0 = Inr j" and "0 < n"
  shows "j < n \<and> (key j = 0 \<or> key j = k)"
  using probe_Inr [OF assms(1)] assms(2) by (auto simp: stop_at_def)

lemma probe_empty_absent:
  assumes inv: "probe_inv n key" and pr: "probe n key k (unat k mod n) 0 = Inr j"
    and "key j = 0" and "0 < n" and "k \<noteq> 0"
  shows "\<forall>i<n. key i \<noteq> k"
proof (intro allI impI notI)
  fix i assume i: "i < n" "key i = k"
  from probe_inv_stop_at [OF inv i(1,2) \<open>k \<noteq> 0\<close>] obtain d
    where d: "i = (unat k mod n + d) mod n" "stop_at n key k (unat k mod n) d" by blast
  from probe_Inr [OF pr] \<open>0 < n\<close> obtain d'
    where d': "j = (unat k mod n + d') mod n" "stop_at n key k (unat k mod n) d'" by auto
  from stop_at_unique [OF d(2) d'(2)] d(1) d'(1) have "i = j" by simp
  with i \<open>key j = 0\<close> \<open>k \<noteq> 0\<close> show False by simp
qed

lemma mod_shift_le_inj:
  fixes a b i n :: nat
  assumes "a \<le> b" and "b < n" and "(i + b) mod n = (i + a) mod n"
  shows "a = b"
proof -
  have "n dvd (i + b) - (i + a)"
    using assms by (subst mod_eq_dvd_iff_nat [symmetric]) simp_all
  then have "n dvd b - a" by simp
  with assms(2) have "b - a = 0"
    using dvd_imp_le [of n "b - a"] by linarith
  with assms(1) show ?thesis by simp
qed

lemma mod_shift_inj:
  fixes a b i n :: nat
  assumes "a < n" and "b < n" and eq: "(i + a) mod n = (i + b) mod n"
  shows "a = b"
proof (cases "a \<le> b")
  case True
  from mod_shift_le_inj [OF this assms(2) eq [symmetric]] show ?thesis .
next
  case False
  then have "b \<le> a" by simp
  from mod_shift_le_inj [OF this assms(1) eq] show ?thesis by simp
qed

text \<open>A clear path visits pairwise different occupied slots.\<close>

lemma clear_path_card:
  assumes "clear_path n key k i d" and "d \<le> n"
  shows "d \<le> card {j. j < n \<and> key j \<noteq> 0}"
proof -
  let ?f = "\<lambda>e. (i + e) mod n"
  have "inj_on ?f {..<d}"
  proof (rule inj_onI)
    fix a b assume ab: "a \<in> {..<d}" "b \<in> {..<d}" and eq: "?f a = ?f b"
    from ab assms(2) have "a < n" "b < n" by simp_all
    from this eq show "a = b" by (rule mod_shift_inj)
  qed
  moreover have "?f ` {..<d} \<subseteq> {j. j < n \<and> key j \<noteq> 0}"
    using assms unfolding clear_path_def by fastforce
  ultimately show ?thesis
    using card_inj_on_le [of ?f "{..<d}" "{j. j < n \<and> key j \<noteq> 0}"] by simp
qed

lemma probe_room:
  assumes "card {j. j < n \<and> key j \<noteq> 0} \<le> MAX_SEARCH_COUNT" and "MAX_SEARCH_COUNT < n"
  shows "\<exists>j. probe n key k (unat k mod n) 0 = Inr j"
proof -
  have lt: "unat k mod n < n" using assms(2) by simp
  have "\<exists>j<n. key j = 0"
  proof (rule ccontr)
    assume "\<not> ?thesis"
    then have "{j. j < n \<and> key j \<noteq> 0} = {..<n}" by auto
    with assms show False by simp
  qed
  then obtain d where d: "d < n" "stop_at n key k (unat k mod n) d"
    using stop_at_exists [OF lt] by blast
  then have "d \<le> MAX_SEARCH_COUNT"
    using clear_path_card [of n key k "unat k mod n" d] assms(1) by (auto simp: stop_at_def)
  with d lt show ?thesis using probe_stop_at [of n key k _ d 0] by auto
qed

lemma clear_path_update:
  assumes "clear_path n key k i d" and "key j = 0" and "c \<noteq> 0"
  shows "clear_path n (key(j := c)) k i d"
  using assms by (auto simp: clear_path_def)

text \<open>Writing the key into the slot an insertion found keeps the table well formed.\<close>

lemma probe_inv_insert:
  assumes inv: "probe_inv n key" and pr: "probe n key k (unat k mod n) 0 = Inr j"
    and n: "0 < n" and k: "k \<noteq> 0"
  shows "probe_inv n (key(j := k))"
proof (cases "key j = 0")
  case False
  with probe_hit_or_empty [OF pr n] have "key(j := k) = key" by auto
  with inv show ?thesis by simp
next
  case True': True
  from probe_Inr [OF pr] n obtain d where d: "d \<le> MAX_SEARCH_COUNT"
    "j = (unat k mod n + d) mod n" "stop_at n key k (unat k mod n) d" by auto
  show ?thesis
    unfolding probe_inv_def
  proof (intro allI impI)
    fix i assume i: "i < n" "(key(j := k)) i \<noteq> 0"
    show "\<exists>d\<le>MAX_SEARCH_COUNT. i = (unat ((key(j := k)) i) mod n + d) mod n \<and>
        clear_path n (key(j := k)) ((key(j := k)) i) (unat ((key(j := k)) i) mod n) d"
    proof (cases "i = j")
      case True
      have "clear_path n (key(j := k)) k (unat k mod n) d"
        using d(3) True' k by (simp add: stop_at_def clear_path_update)
      with d True show ?thesis by (metis fun_upd_same)
    next
      case False
      with inv i obtain e where "e \<le> MAX_SEARCH_COUNT" "i = (unat (key i) mod n + e) mod n"
        "clear_path n key (key i) (unat (key i) mod n) e" by (auto simp: probe_inv_def)
      with False show ?thesis
        using True' k by (auto intro!: clear_path_update)
    qed
  qed
qed

end
