(* ===== verification/Code_Cache.thy ===== *)
theory Code_Cache
  imports Probing Interfaces
begin

text \<open>
  \<^verbatim>\<open>src/cache.c\<close>: the table of executed program counters with their heat counts, and the
  buffer of machine code. \<^verbatim>\<open>cache_lookup\<close> searches without a bound; \<^verbatim>\<open>cache_add\<close> and
  \<^verbatim>\<open>cache_hot\<close> assert the probe limit. The buffer comes from \<^verbatim>\<open>mmap\<close>, so its address is an
  argument of \<open>new_cache\<close>; \<^verbatim>\<open>sys_icache_invalidate\<close> has no effect on the modelled state.
\<close>

subsection \<open>State\<close>

definition CACHE_ENTRY_SIZE :: nat where
  "CACHE_ENTRY_SIZE = 64 * 1024"

definition CACHE_SIZE :: u64 where
  "CACHE_SIZE = 64 * 1024 * 1024"

definition CACHE_HOT_COUNT :: u64 where
  "CACHE_HOT_COUNT = 100000"

record cache_item_t =
  item_pc :: u64
  item_hot :: u64
  item_offset :: u64

record cache_t =
  jitcode :: u64          \<comment> \<open>address of the buffer\<close>
  jitbytes :: "u8 list"   \<comment> \<open>its contents\<close>
  cache_offset :: u64
  cache_table :: "cache_item_t list"

definition zero_item :: cache_item_t where
  "zero_item = \<lparr>item_pc = 0, item_hot = 0, item_offset = 0\<rparr>"

subsection \<open>Operations\<close>

definition cache_hash :: "u64 \<Rightarrow> nat" where
  "cache_hash p = unat p mod CACHE_ENTRY_SIZE"

definition new_cache :: "u64 \<Rightarrow> cache_t" where
  "new_cache buf = \<lparr>jitcode = buf, jitbytes = replicate (unat CACHE_SIZE) 0,
     cache_offset = 0, cache_table = replicate CACHE_ENTRY_SIZE zero_item\<rparr>"

abbreviation cache_keys :: "cache_t \<Rightarrow> nat \<Rightarrow> u64" where
  "cache_keys c \<equiv> (\<lambda>i. item_pc (cache_table c ! i))"

definition cache_is_hot :: "cache_t \<Rightarrow> nat \<Rightarrow> bool" where
  "cache_is_hot c index \<longleftrightarrow> CACHE_HOT_COUNT \<le> item_hot (cache_table c ! index)"

definition cache_lookup :: "cache_t \<Rightarrow> u64 \<Rightarrow> u64 option result option" where
  "cache_lookup c p =
     (if p = 0 then Some (Inl (AssertFail ''pc != 0''))
      else map_option (\<lambda>index. Inr
        (if cache_keys c index = p \<and> cache_is_hot c index
         then Some (jitcode c + item_offset (cache_table c ! index)) else None))
        (scan CACHE_ENTRY_SIZE (cache_keys c) p (cache_hash p)))"

definition align_to :: "u64 \<Rightarrow> u64 \<Rightarrow> u64" where
  "align_to val align =
     (if align = 0 then val else (val + align - 1) AND NOT (align - 1))"

definition memcpy_into :: "u8 list \<Rightarrow> nat \<Rightarrow> u8 list \<Rightarrow> u8 list" where
  "memcpy_into buf off code = take off buf @ code @ drop (off + length code) buf"

definition cache_add :: "cache_t \<Rightarrow> u64 \<Rightarrow> u8 list \<Rightarrow> u64 \<Rightarrow> (u64 \<times> cache_t) result" where
  "cache_add c p code align =
     (let sz = of_nat (length code);
          c1 = c\<lparr>cache_offset := align_to (cache_offset c) align\<rparr> in
      bindE (assertE ''cache->offset + sz <= CACHE_SIZE''
        (cache_offset c1 + sz \<le> CACHE_SIZE)) (\<lambda>_.
      bindE (probe CACHE_ENTRY_SIZE (cache_keys c1) p (cache_hash p) 0) (\<lambda>index.
      let c2 = c1\<lparr>jitbytes := memcpy_into (jitbytes c1) (unat (cache_offset c1)) code,
                  cache_table := (cache_table c1)[index :=
                    (cache_table c1 ! index)\<lparr>item_pc := p, item_offset := cache_offset c1\<rparr>]\<rparr>;
          c3 = c2\<lparr>cache_offset := cache_offset c2 + sz\<rparr>
      in Inr (jitcode c3 + cache_offset c1, c3))))"

text \<open>
  \<^verbatim>\<open>cache->table[index].hot = MIN(++cache->table[index].hot, CACHE_HOT_COUNT)\<close> with the macro
  \<^verbatim>\<open>MIN(x, y)\<close> expanding to \<^verbatim>\<open>((y) > (x) ? (x) : (y))\<close>: the increment is evaluated once in
  the comparison and, when the comparison holds, a second time for the value.
\<close>

definition hot_bump :: "u64 \<Rightarrow> u64" where
  "hot_bump h = (let h1 = h + 1 in if h1 < CACHE_HOT_COUNT then h1 + 1 else CACHE_HOT_COUNT)"

definition cache_hot :: "cache_t \<Rightarrow> u64 \<Rightarrow> (bool \<times> cache_t) result" where
  "cache_hot c p =
     bindE (probe CACHE_ENTRY_SIZE (cache_keys c) p (cache_hash p) 0) (\<lambda>index.
       if cache_keys c index \<noteq> 0
       then let it = cache_table c ! index;
                c' = c\<lparr>cache_table := (cache_table c)[index := it\<lparr>item_hot := hot_bump (item_hot it)\<rparr>]\<rparr>
            in Inr (cache_is_hot c' index, c')
       else Inr (False, c\<lparr>cache_table := (cache_table c)[index :=
              (cache_table c ! index)\<lparr>item_pc := p, item_hot := 1\<rparr>]\<rparr>))"

subsection \<open>Invariant and abstraction\<close>

definition wf_cache :: "cache_t \<Rightarrow> bool" where
  "wf_cache c \<longleftrightarrow> length (cache_table c) = CACHE_ENTRY_SIZE \<and>
     probe_inv CACHE_ENTRY_SIZE (cache_keys c) \<and>
     (\<forall>it \<in> set (cache_table c). item_pc it = 0 \<longrightarrow> it = zero_item)"

definition cache_view :: "cache_t \<Rightarrow> u64 \<rightharpoonup> u64 \<times> u64" where
  "cache_view c k =
     (if k = 0 then None
      else map_option (\<lambda>it. (item_hot it, item_offset it))
        (find (\<lambda>it. item_pc it = k) (cache_table c)))"

lemma CACHE_ENTRY_SIZE_pos [simp]: "0 < CACHE_ENTRY_SIZE"
  by (simp add: CACHE_ENTRY_SIZE_def)

lemma wf_new_cache: "wf_cache (new_cache buf)"
  by (simp add: wf_cache_def new_cache_def zero_item_def probe_inv_def)

lemma cache_view_hit:
  assumes wf: "wf_cache c" and i: "i < CACHE_ENTRY_SIZE" and k: "cache_keys c i = k" "k \<noteq> 0"
  shows "cache_view c k = Some (item_hot (cache_table c ! i), item_offset (cache_table c ! i))"
proof -
  from wf i have len: "i < length (cache_table c)" by (simp add: wf_cache_def)
  have first: "cache_keys c j \<noteq> k" if "j < i" for j
    using probe_inv_unique [of CACHE_ENTRY_SIZE "cache_keys c" j i k] wf i k that
    by (auto simp: wf_cache_def)
  have "find (\<lambda>it. item_pc it = k) (cache_table c) = Some (cache_table c ! i)"
    using len k first by (auto simp: find_Some_iff)
  with k show ?thesis by (simp add: cache_view_def)
qed

lemma cache_view_None:
  "wf_cache c \<Longrightarrow> k \<noteq> 0 \<Longrightarrow> cache_view c k = None \<longleftrightarrow> (\<forall>i<CACHE_ENTRY_SIZE. cache_keys c i \<noteq> k)"
  by (auto simp: cache_view_def find_None_iff wf_cache_def in_set_conv_nth)

lemma cache_view_SomeE:
  assumes "wf_cache c" and "cache_view c k = Some (h, off)"
  obtains i where "i < CACHE_ENTRY_SIZE" "cache_keys c i = k" "k \<noteq> 0"
    "item_hot (cache_table c ! i) = h" "item_offset (cache_table c ! i) = off"
proof -
  from assms(2) have k: "k \<noteq> 0" by (auto simp: cache_view_def split: if_splits)
  with assms cache_view_None [OF assms(1) k] obtain i where
    i: "i < CACHE_ENTRY_SIZE" "cache_keys c i = k" by auto
  from cache_view_hit [OF assms(1) i k] assms(2) i k that show ?thesis by auto
qed

text \<open>Writing one entry: the shape \<^verbatim>\<open>cache_add\<close> and \<^verbatim>\<open>cache_hot\<close> share.\<close>

lemma cache_update:
  assumes wf: "wf_cache c" and pr: "probe CACHE_ENTRY_SIZE (cache_keys c) k (cache_hash k) 0 = Inr j"
    and it: "item_pc it = k" and k: "k \<noteq> 0"
    and c': "cache_table c' = (cache_table c)[j := it]"
  shows "wf_cache c' \<and> cache_view c' = (cache_view c)(k \<mapsto> (item_hot it, item_offset it))"
proof -
  let ?n = CACHE_ENTRY_SIZE
  from probe_hit_or_empty [OF pr [unfolded cache_hash_def]]
  have j: "j < ?n" and kj: "cache_keys c j = 0 \<or> cache_keys c j = k" by simp_all
  with wf have len: "j < length (cache_table c)" by (simp add: wf_cache_def)
  with c' it have keys: "cache_keys c' = (cache_keys c)(j := k)"
    by (auto simp: fun_eq_iff nth_list_update)
  have "probe_inv ?n ((cache_keys c)(j := k))"
    using wf pr k by (intro probe_inv_insert) (auto simp: wf_cache_def cache_hash_def)
  moreover have "\<forall>x \<in> set (cache_table c'). item_pc x = 0 \<longrightarrow> x = zero_item"
    using wf c' it k set_update_subset_insert [of "cache_table c" j it]
    by (auto simp: wf_cache_def)
  ultimately have wf': "wf_cache c'" using wf c' keys by (simp add: wf_cache_def del: fun_upd_apply)
  have "cache_view c' q = ((cache_view c)(k \<mapsto> (item_hot it, item_offset it))) q" for q
  proof (cases "q = k")
    case True
    with cache_view_hit [OF wf' j, of k] it k len c' show ?thesis by simp
  next
    case False
    show ?thesis
    proof (cases "q \<noteq> 0 \<and> (\<exists>i<?n. cache_keys c i = q)")
      case True
      then obtain i where i: "i < ?n" "cache_keys c i = q" "q \<noteq> 0" by blast
      with False kj have ij: "i \<noteq> j" by auto
      with fun_cong [OF keys, of i] i have "cache_keys c' i = q" by simp
      from cache_view_hit [OF wf' i(1) this i(3)] cache_view_hit [OF wf i] c' ij False
      show ?thesis by simp
    next
      case F: False
      with fun_cong [OF keys] False kj have "q = 0 \<or> (\<forall>i<?n. cache_keys c' i \<noteq> q)" by auto
      with F cache_view_None [OF wf, of q] cache_view_None [OF wf', of q]
      have "cache_view c q = None" "cache_view c' q = None"
        by (cases "q = 0"; simp add: cache_view_def)+
      with False show ?thesis by simp
    qed
  qed
  with wf' show ?thesis by blast
qed

lemma wf_cache_cong:
  "cache_table c' = cache_table c \<Longrightarrow> wf_cache c' = wf_cache c"
  by (simp add: wf_cache_def)

lemma cache_view_cong:
  "cache_table c' = cache_table c \<Longrightarrow> cache_view c' = cache_view c"
  by (simp add: cache_view_def fun_eq_iff)

subsection \<open>The operations over the view\<close>

lemma cache_lookup_hit:
  assumes "wf_cache c" and "cache_view c k = Some (h, off)"
  shows "cache_lookup c k = Some (Inr (if CACHE_HOT_COUNT \<le> h then Some (jitcode c + off) else None))"
proof -
  from cache_view_SomeE [OF assms] obtain i where i: "i < CACHE_ENTRY_SIZE" "cache_keys c i = k"
    "k \<noteq> 0" "item_hot (cache_table c ! i) = h" "item_offset (cache_table c ! i) = off" .
  with assms(1) have "scan CACHE_ENTRY_SIZE (cache_keys c) k (cache_hash k) = Some i"
    unfolding cache_hash_def by (intro scan_hit) (auto simp: wf_cache_def)
  with i show ?thesis by (simp add: cache_lookup_def cache_is_hot_def)
qed

lemma cache_lookup_miss:
  assumes "wf_cache c" and "k \<noteq> 0" and "cache_view c k = None"
    and "j < CACHE_ENTRY_SIZE" and "cache_keys c j = 0"
  shows "cache_lookup c k = Some (Inr None)"
proof -
  from cache_view_None [OF assms(1,2)] assms(3) have
    "\<forall>i<CACHE_ENTRY_SIZE. cache_keys c i \<noteq> k" by simp
  from scan_miss [OF this assms(4,5)] obtain i where
    "scan CACHE_ENTRY_SIZE (cache_keys c) k (cache_hash k) = Some i" "cache_keys c i = 0"
    by (auto simp: cache_hash_def)
  with assms(2) show ?thesis by (simp add: cache_lookup_def)
qed

lemma scan_result:
  assumes "scan n key k i = Some j"
  shows "i < n \<longrightarrow> j < n \<and> (key j = 0 \<or> key j = k)"
proof (rule scan.raw_induct [where P = "\<lambda>n key k i j. i < n \<longrightarrow> j < n \<and> (key j = 0 \<or> key j = k)",
      OF _ assms])
  fix f :: "nat \<Rightarrow> (nat \<Rightarrow> u64) \<Rightarrow> u64 \<Rightarrow> nat \<Rightarrow> nat option" and n key k i j
  assume IH: "\<And>n key k i j. f n key k i = Some j \<Longrightarrow> i < n \<longrightarrow> j < n \<and> (key j = 0 \<or> key j = k)"
    and eq: "(if key i = 0 \<or> key i = k then Some i else f n key k ((i + 1) mod n)) = Some j"
  show "i < n \<longrightarrow> j < n \<and> (key j = 0 \<or> key j = k)"
  proof (cases "key i = 0 \<or> key i = k")
    case True
    with eq show ?thesis by auto
  next
    case False
    with eq have "f n key k ((i + 1) mod n) = Some j" by auto
    from IH [OF this] show ?thesis by auto
  qed
qed

lemma cache_lookup_absent:
  assumes "wf_cache c" and "k \<noteq> 0" and "cache_view c k = None"
    and "cache_lookup c k = Some (Inr p)"
  shows "p = None"
proof -
  from assms(2,4) obtain j where
    j: "scan CACHE_ENTRY_SIZE (cache_keys c) k (cache_hash k) = Some j"
    and p: "p = (if cache_keys c j = k \<and> cache_is_hot c j
         then Some (jitcode c + item_offset (cache_table c ! j)) else None)"
    by (auto simp: cache_lookup_def)
  from scan_result [OF j] have "j < CACHE_ENTRY_SIZE" by (simp add: cache_hash_def)
  with p cache_view_None [OF assms(1,2)] assms(3) show ?thesis by auto
qed

lemma cache_hot_hit:
  assumes "wf_cache c" and "cache_view c k = Some (h, off)"
  shows "\<exists>c'. cache_hot c k = Inr (CACHE_HOT_COUNT \<le> hot_bump h, c') \<and> wf_cache c' \<and>
     jitcode c' = jitcode c \<and> cache_view c' = (cache_view c)(k \<mapsto> (hot_bump h, off))"
proof -
  from cache_view_SomeE [OF assms] obtain i where i: "i < CACHE_ENTRY_SIZE" "cache_keys c i = k"
    "k \<noteq> 0" "item_hot (cache_table c ! i) = h" "item_offset (cache_table c ! i) = off" .
  with assms(1) have pr: "probe CACHE_ENTRY_SIZE (cache_keys c) k (cache_hash k) 0 = Inr i"
    unfolding cache_hash_def by (intro probe_hit) (auto simp: wf_cache_def)
  let ?it = "(cache_table c ! i)\<lparr>item_hot := hot_bump h\<rparr>"
  let ?c = "c\<lparr>cache_table := (cache_table c)[i := ?it]\<rparr>"
  have "cache_hot c k = Inr (CACHE_HOT_COUNT \<le> hot_bump h, ?c)"
    using i pr assms(1) by (simp add: cache_hot_def cache_is_hot_def Let_def wf_cache_def)
  with cache_update [OF assms(1) pr, of ?it ?c] i show ?thesis by auto
qed

lemma cache_hot_miss:
  assumes "wf_cache c" and "k \<noteq> 0" and "cache_view c k = None" and "cache_hot c k = Inr (b, c')"
  shows "\<not> b \<and> wf_cache c' \<and> jitcode c' = jitcode c \<and> cache_view c' = (cache_view c)(k \<mapsto> (1, 0))"
proof -
  from assms(4) obtain j where pr: "probe CACHE_ENTRY_SIZE (cache_keys c) k (cache_hash k) 0 = Inr j"
    by (auto simp: cache_hot_def bindE_eq_Inr)
  from probe_hit_or_empty [OF pr [unfolded cache_hash_def]] cache_view_None [OF assms(1,2)] assms(3)
  have j: "j < CACHE_ENTRY_SIZE" and z: "cache_keys c j = 0" by auto
  with assms(1) have zi: "cache_table c ! j = zero_item" by (auto simp: wf_cache_def)
  let ?it = "zero_item\<lparr>item_pc := k, item_hot := 1\<rparr>"
  from pr z zi assms(4) have bc: "\<not> b" "c' = c\<lparr>cache_table := (cache_table c)[j := ?it]\<rparr>"
    by (auto simp: cache_hot_def)
  with cache_update [OF assms(1) pr, of ?it c'] assms(2) show ?thesis
    by (simp add: zero_item_def)
qed

lemma cache_add_view:
  assumes wf: "wf_cache c" and k: "k \<noteq> 0" and r: "cache_add c k code al = Inr (p, c')"
  shows "wf_cache c' \<and> jitcode c' = jitcode c \<and> cache_view c' = (cache_view c)
     (k \<mapsto> (case cache_view c k of None \<Rightarrow> 0 | Some (h, off) \<Rightarrow> h, p - jitcode c))"
proof -
  let ?off = "align_to (cache_offset c) al"
  from r obtain j where pr: "probe CACHE_ENTRY_SIZE (cache_keys c) k (cache_hash k) 0 = Inr j"
    and p: "p = jitcode c + ?off" and jc: "jitcode c' = jitcode c"
    and tab: "cache_table c' = (cache_table c)[j :=
        (cache_table c ! j)\<lparr>item_pc := k, item_offset := ?off\<rparr>]"
    by (auto simp: cache_add_def Let_def bindE_eq_Inr)
  let ?it = "(cache_table c ! j)\<lparr>item_pc := k, item_offset := ?off\<rparr>"
  from cache_update [OF wf pr _ k tab] have
    upd: "wf_cache c' \<and> cache_view c' = (cache_view c)(k \<mapsto> (item_hot ?it, item_offset ?it))" by simp
  from probe_hit_or_empty [OF pr [unfolded cache_hash_def]]
  have j: "j < CACHE_ENTRY_SIZE" and kj: "cache_keys c j = 0 \<or> cache_keys c j = k" by simp_all
  have "item_hot ?it = (case cache_view c k of None \<Rightarrow> 0 | Some (h, off) \<Rightarrow> h)"
  proof (cases "cache_keys c j = k")
    case True
    from cache_view_hit [OF wf j True k] show ?thesis by simp
  next
    case False
    with kj wf j have zi: "cache_table c ! j = zero_item" by (auto simp: wf_cache_def)
    from False kj have "cache_keys c j = 0" by simp
    from probe_empty_absent [OF _ pr [unfolded cache_hash_def] this _ k] wf
    have "cache_view c k = None" by (simp add: cache_view_None [OF wf k] wf_cache_def)
    with zi show ?thesis by (simp add: zero_item_def)
  qed
  with upd p jc show ?thesis by simp
qed

interpretation ccache: code_cache cache_lookup cache_hot cache_add cache_view jitcode wf_cache
  CACHE_HOT_COUNT hot_bump
proof (unfold_locales, goal_cases)
  case (1 c k h off)
  then show ?case by (rule cache_lookup_hit)
next
  case (2 c k p)
  then show ?case by (rule cache_lookup_absent)
next
  case (3 c k h off)
  then show ?case by (rule cache_hot_hit)
next
  case (4 c k b c')
  then show ?case by (rule cache_hot_miss)
next
  case (5 c k code al p c')
  then show ?case by (rule cache_add_view)
qed

subsection \<open>How many calls make a program counter hot\<close>

lemma of_nat_below: "k < 100000 \<Longrightarrow> (of_nat k :: u64) < 100000"
  by (simp add: word_less_nat_alt unat_of_nat)

lemma hot_bump_odd: "n < 49999 \<Longrightarrow> hot_bump (of_nat (Suc (2 * n))) = of_nat (Suc (2 * Suc n))"
  using of_nat_below [of "Suc (Suc (2 * n))"]
  by (simp add: hot_bump_def CACHE_HOT_COUNT_def Let_def algebra_simps)

lemma hot_bump_cap: "hot_bump 99999 = CACHE_HOT_COUNT" "hot_bump CACHE_HOT_COUNT = CACHE_HOT_COUNT"
  by (simp_all add: hot_bump_def CACHE_HOT_COUNT_def Let_def)

lemma hot_bump_below: "n \<le> 49999 \<Longrightarrow> (hot_bump ^^ n) 1 = of_nat (Suc (2 * n))"
proof (induction n)
  case (Suc n)
  then show ?case using hot_bump_odd [of n] by simp
qed simp

lemma hot_bump_above: "(hot_bump ^^ (50000 + n)) 1 = CACHE_HOT_COUNT"
proof (induction n)
  case 0
  have "(hot_bump ^^ Suc 49999) 1 = CACHE_HOT_COUNT"
    using hot_bump_below [of 49999] hot_bump_cap(1) by (simp only: funpow.simps o_apply) simp
  moreover have "50000 + 0 = Suc 49999" by simp
  ultimately show ?case by (simp only:)
next
  case (Suc n)
  then show ?case by (simp only: add_Suc_right funpow.simps o_apply hot_bump_cap)
qed

lemma hot_bump_threshold: "CACHE_HOT_COUNT \<le> (hot_bump ^^ n) 1 \<longleftrightarrow> 50000 \<le> n"
proof (cases "50000 \<le> n")
  case True
  then obtain k where "n = 50000 + k" using le_Suc_ex by blast
  with hot_bump_above [of k] show ?thesis by simp
next
  case False
  then have "(of_nat (Suc (2 * n)) :: u64) < 100000" by (intro of_nat_below) simp
  with False hot_bump_below [of n] show ?thesis by (simp add: CACHE_HOT_COUNT_def)
qed

subsection \<open>Properties of the code cache\<close>

text \<open>
  C7. Code added for a hot program counter is what the next lookup of it returns, and the
  lookups of every other program counter in the table are unchanged.
\<close>
theorem cache_add_lookup:
  "wf_cache c \<Longrightarrow> cache_view c k = Some (h, off) \<Longrightarrow> CACHE_HOT_COUNT \<le> h \<Longrightarrow> k \<noteq> 0 \<Longrightarrow>
   cache_add c k code al = Inr (p, c') \<Longrightarrow>
   wf_cache c' \<and> cache_lookup c' k = Some (Inr (Some p)) \<and>
   (\<forall>q e. q \<noteq> k \<longrightarrow> cache_view c q = Some e \<longrightarrow> cache_lookup c' q = cache_lookup c q)"
  using ccache.add_then_lookup [of c k h off code al p c'] ccache.add_lookup_other [of c k code al p c']
    cache_add_view [of c k code al p c'] by blast

text \<open>A cache with one entry.\<close>

definition demo_cache :: "u64 \<Rightarrow> cache_t" where
  "demo_cache h = (new_cache 0x10000)\<lparr>cache_table := (replicate CACHE_ENTRY_SIZE zero_item)
     [4096 := \<lparr>item_pc = 4096, item_hot = h, item_offset = 0\<rparr>]\<rparr>"

lemma new_cache_probe: "probe CACHE_ENTRY_SIZE (cache_keys (new_cache buf)) 4096 (cache_hash 4096) 0 = Inr 4096"
  by (simp add: probe.simps cache_hash_def new_cache_def zero_item_def CACHE_ENTRY_SIZE_def)

lemma demo_cache_wf: "wf_cache (demo_cache h)" "cache_view (demo_cache h) 4096 = Some (h, 0)"
proof -
  let ?it = "\<lparr>item_pc = 4096, item_hot = h, item_offset = 0\<rparr>"
  have "cache_table (demo_cache h) = (cache_table (new_cache 0x10000))[4096 := ?it]"
    by (simp add: demo_cache_def new_cache_def)
  from cache_update [OF wf_new_cache new_cache_probe _ _ this]
  show "wf_cache (demo_cache h)" "cache_view (demo_cache h) 4096 = Some (h, 0)" by simp_all
qed

lemma demo_cache_add: "\<exists>p c'. cache_add (demo_cache h) 4096 [0xc3] 16 = Inr (p, c')"
proof -
  have "probe CACHE_ENTRY_SIZE (cache_keys (demo_cache h)) 4096 (cache_hash 4096) 0 = Inr 4096"
    by (simp add: probe.simps cache_hash_def demo_cache_def new_cache_def CACHE_ENTRY_SIZE_def)
  then show ?thesis
    by (simp add: cache_add_def Let_def demo_cache_def new_cache_def align_to_def CACHE_SIZE_def)
qed

lemma cache_add_lookup_witness:
  "\<exists>p c'. cache_add (demo_cache CACHE_HOT_COUNT) 4096 [0xc3] 16 = Inr (p, c') \<and>
     cache_lookup c' 4096 = Some (Inr (Some p))"
proof -
  obtain p c' where a: "cache_add (demo_cache CACHE_HOT_COUNT) 4096 [0xc3] 16 = Inr (p, c')"
    using demo_cache_add by blast
  from cache_add_lookup [OF demo_cache_wf _ _ a] a show ?thesis by auto
qed

text \<open>
  C19. A program counter becomes hot on its 50001st \<^verbatim>\<open>cache_hot\<close> call and stays hot: the first call
  enters it with count 1, every later one adds 2 because the \<^verbatim>\<open>MIN\<close> macro evaluates its
  incremented argument twice, and the count saturates at the threshold of 100000.
\<close>
theorem cache_hot_calls:
  "wf_cache c \<Longrightarrow> k \<noteq> 0 \<Longrightarrow> cache_view c k = None \<Longrightarrow> hot_calls cache_hot n c k = Inr (b, c') \<Longrightarrow>
   b \<longleftrightarrow> 50001 \<le> n"
proof -
  assume a: "wf_cache c" "k \<noteq> 0" "cache_view c k = None" "hot_calls cache_hot n c k = Inr (b, c')"
  show ?thesis
  proof (cases n)
    case 0
    with a(4) show ?thesis by simp
  next
    case (Suc l)
    from a(4) [unfolded Suc hot_calls_Suc_left] obtain b1 c1 where
      c1: "cache_hot c k = Inr (b1, c1)" "(if l = 0 then Inr (b1, c1) else hot_calls cache_hot l c1 k) = Inr (b, c')"
      by (auto simp: bindE_eq_Inr)
    from cache_hot_miss [OF a(1-3) c1(1)] have 1: "\<not> b1" "wf_cache c1" "cache_view c1 k = Some (1, 0)" by auto
    show ?thesis
    proof (cases l)
      case 0
      with c1(2) 1(1) Suc show ?thesis by simp
    next
      case (Suc l')
      from ccache.hot_calls_present [OF 1(2,3), of l'] c1(2) Suc
      have "b \<longleftrightarrow> CACHE_HOT_COUNT \<le> (hot_bump ^^ l) 1" by auto
      with hot_bump_threshold [of l] \<open>n = Suc l\<close> show ?thesis by simp
    qed
  qed
qed

lemma cache_hot_calls_witness: "\<exists>c'. hot_calls cache_hot 1 (new_cache 0x10000) 4096 = Inr (False, c')"
proof -
  have v: "cache_view (new_cache 0x10000) 4096 = None"
    using cache_view_None [OF wf_new_cache, of 4096 "0x10000"] by (simp add: new_cache_def zero_item_def)
  have z: "cache_keys (new_cache 0x10000) 4096 = 0"
    by (simp add: new_cache_def zero_item_def CACHE_ENTRY_SIZE_def)
  obtain b c' where h: "hot_calls cache_hot 1 (new_cache 0x10000) 4096 = Inr (b, c')"
    using new_cache_probe [of "0x10000"] z by (auto simp: cache_hot_def Let_def)
  from cache_hot_calls [OF wf_new_cache _ v h] h show ?thesis by simp
qed

end
