(* ===== verification/Syscall.thy ===== *)
theory Syscall
  imports Mmu_Props Code_Cache
begin

unbundle bit_operations_syntax

text \<open>
  The machine structure of \<^verbatim>\<open>inc/riscvemu.h\<close> and \<^verbatim>\<open>src/syscall.c\<close>: the handlers of the guest's
  system calls and their dispatch. The services of the host operating system are not part of the program: they
  are the fields of \<open>host_t\<close>, functions of the host's state \<open>'os\<close>, of the guest's memory where the
  kernel reads or writes it, and of the arguments at the width the C prototypes give them. A
  handler takes the machine, the guest's memory and the host's state and returns all three with the
  value for the guest.
\<close>

subsection \<open>The machine\<close>

record machine_t =
  m_state :: state_t
  m_mmu :: mmu_t
  m_cache :: cache_t

definition machine_get_gp_reg :: "machine_t \<Rightarrow> int \<Rightarrow> u64 result" where
  "machine_get_gp_reg m reg =
     bindE (assertE ''reg >= 0 && reg < num_gp_regs'' (reg \<ge> 0 \<and> reg < int num_gp_regs)) (\<lambda>_.
     Inr (gp_regs (m_state m) ! nat reg))"

definition machine_set_gp_reg :: "machine_t \<Rightarrow> int \<Rightarrow> u64 \<Rightarrow> machine_t result" where
  "machine_set_gp_reg m reg data =
     bindE (assertE ''reg >= 0 && reg < num_gp_regs'' (reg \<ge> 0 \<and> reg < int num_gp_regs)) (\<lambda>_.
     Inr (m\<lparr>m_state := (m_state m)\<lparr>gp_regs := (gp_regs (m_state m))[nat reg := data]\<rparr>\<rparr>))"

subsection \<open>The host's services\<close>

text \<open>\<^verbatim>\<open>struct stat\<close> of an x86-64 Linux host, the fields the emulator reads.\<close>

record stat_t =
  st_dev :: u64
  st_ino :: u64
  st_mode :: u32
  st_nlink :: u64
  st_uid :: u32
  st_gid :: u32
  st_rdev :: u64
  st_size :: i64
  st_blksize :: i64
  st_blocks :: i64
  st_atime :: i64
  st_mtime :: i64
  st_ctime :: i64

record 'os host_t =
  h_kernel :: kernel_t
  h_close :: "i32 \<Rightarrow> 'os \<Rightarrow> i32 \<times> 'os"
  h_write :: "i32 \<Rightarrow> u64 \<Rightarrow> u64 \<Rightarrow> mem \<Rightarrow> 'os \<Rightarrow> i64 \<times> 'os"
  h_fstat :: "i32 \<Rightarrow> 'os \<Rightarrow> i32 \<times> stat_t"
  h_gettimeofday :: "u64 \<Rightarrow> u64 \<Rightarrow> mem \<Rightarrow> 'os \<Rightarrow> i32 \<times> mem \<times> 'os"
  h_openat :: "i32 \<Rightarrow> u64 \<Rightarrow> i32 \<Rightarrow> u32 \<Rightarrow> mem \<Rightarrow> 'os \<Rightarrow> i32 \<times> 'os"
  h_open :: "u64 \<Rightarrow> i32 \<Rightarrow> u32 \<Rightarrow> mem \<Rightarrow> 'os \<Rightarrow> i32 \<times> 'os"
  h_lseek :: "i32 \<Rightarrow> i64 \<Rightarrow> i32 \<Rightarrow> 'os \<Rightarrow> i64 \<times> 'os"
  h_read :: "i32 \<Rightarrow> u64 \<Rightarrow> u64 \<Rightarrow> mem \<Rightarrow> 'os \<Rightarrow> i64 \<times> mem \<times> 'os"

type_synonym 'os env = "machine_t \<times> mem \<times> 'os"
type_synonym 'os syscall_t = "'os host_t \<Rightarrow> 'os env \<Rightarrow> (u64 \<times> 'os env) result"

text \<open>\<^verbatim>\<open>GET(reg, name)\<close>: the rest of the handler in the scope of the name.\<close>

definition GET :: "machine_t \<Rightarrow> i8 \<Rightarrow> (u64 \<Rightarrow> 'a result) \<Rightarrow> 'a result" where
  "GET m reg k = bindE (machine_get_gp_reg m (uint reg)) k"

subsection \<open>Handlers\<close>

definition sys_unimplemented :: "'os syscall_t" where
  "sys_unimplemented h = (\<lambda>(m, mem, os). GET m reg_a7 (\<lambda>n. Inl (Fatal ''unimplemented syscall'')))"

definition sys_exit :: "'os syscall_t" where
  "sys_exit h = (\<lambda>(m, mem, os). GET m reg_a0 (\<lambda>code. Inl (ExitProc code)))"

definition sys_close :: "'os syscall_t" where
  "sys_close h = (\<lambda>(m, mem, os). GET m reg_a0 (\<lambda>fd.
     if fd > 2 then let (rc, os') = h_close h (ucast fd) os in Inr (scast rc, m, mem, os')
     else Inr (0, m, mem, os)))"

definition sys_write :: "'os syscall_t" where
  "sys_write h = (\<lambda>(m, mem, os). GET m reg_a0 (\<lambda>fd. GET m reg_a1 (\<lambda>ptr. GET m reg_a2 (\<lambda>len.
     let (n, os') = h_write h (ucast fd) (TO_HOST ptr) len mem os in Inr (n, m, mem, os')))))"

text \<open>The 128 bytes of \<^verbatim>\<open>riscv_stat_t\<close> in the order of its members.\<close>

definition riscv_stat_bytes :: "stat_t \<Rightarrow> u8 list" where
  "riscv_stat_bytes st =
     le_bytes 8 (unat (st_dev st)) @ le_bytes 8 (unat (st_ino st)) @
     le_bytes 4 (unat (st_mode st)) @ le_bytes 4 (unat (ucast (st_nlink st) :: u32)) @
     le_bytes 4 (unat (st_uid st)) @ le_bytes 4 (unat (st_gid st)) @
     le_bytes 8 (unat (st_rdev st)) @ le_bytes 8 0 @ le_bytes 8 (unat (st_size st)) @
     le_bytes 4 (unat (ucast (st_blksize st) :: i32)) @ le_bytes 4 0 @ le_bytes 8 (unat (st_blocks st)) @
     le_bytes 8 (unat (st_atime st)) @ le_bytes 8 0 @ le_bytes 8 (unat (st_mtime st)) @ le_bytes 8 0 @
     le_bytes 8 (unat (st_ctime st)) @ le_bytes 8 0 @ le_bytes 4 0 @ le_bytes 4 0"

definition sys_fstat :: "'os syscall_t" where
  "sys_fstat h = (\<lambda>(m, mem, os). GET m reg_a0 (\<lambda>fd. GET m reg_a1 (\<lambda>addr.
     let (rc, st) = h_fstat h (ucast fd) os in
     if rc \<noteq> 0 then Inr (scast rc, m, mem, os)
     else bindE (mmu_write mem addr (riscv_stat_bytes st)) (\<lambda>mem'. Inr (0, m, mem', os)))))"

definition sys_gettimeofday :: "'os syscall_t" where
  "sys_gettimeofday h = (\<lambda>(m, mem, os). GET m reg_a0 (\<lambda>tv_addr. GET m reg_a1 (\<lambda>tz_addr.
     let tv = TO_HOST tv_addr; tz = (if tz_addr \<noteq> 0 then TO_HOST tz_addr else 0);
         (rc, mem', os') = h_gettimeofday h tv tz mem os in
     Inr (scast rc, m, mem', os'))))"

definition sys_brk :: "'os syscall_t" where
  "sys_brk h = (\<lambda>(m, mem, os). GET m reg_a0 (\<lambda>a0.
     let addr = (if a0 = 0 then mmu_brk (m_mmu m) else a0) in
     bindE (assertE ''addr >= m->mmu.base'' (addr \<ge> mmu_base (m_mmu m))) (\<lambda>_.
     let incr = addr - mmu_brk (m_mmu m) in
     bindE (mmu_alloc (h_kernel h) (m_mmu m) incr mem) (\<lambda>(_, mmu', mem').
     Inr (addr, m\<lparr>m_mmu := mmu'\<rparr>, mem', os)))))"

abbreviation (input) NEWLIB_O_WRONLY :: i32 where "NEWLIB_O_WRONLY \<equiv> 0x1"
abbreviation (input) NEWLIB_O_RDWR :: i32 where "NEWLIB_O_RDWR \<equiv> 0x2"
abbreviation (input) NEWLIB_O_APPEND :: i32 where "NEWLIB_O_APPEND \<equiv> 0x8"
abbreviation (input) NEWLIB_O_CREAT :: i32 where "NEWLIB_O_CREAT \<equiv> 0x200"
abbreviation (input) NEWLIB_O_TRUNC :: i32 where "NEWLIB_O_TRUNC \<equiv> 0x400"
abbreviation (input) NEWLIB_O_EXCL :: i32 where "NEWLIB_O_EXCL \<equiv> 0x800"

text \<open>The values of the same flags on an x86-64 Linux host.\<close>

abbreviation (input) O_WRONLY :: i32 where "O_WRONLY \<equiv> 0x1"
abbreviation (input) O_RDWR :: i32 where "O_RDWR \<equiv> 0x2"
abbreviation (input) O_APPEND :: i32 where "O_APPEND \<equiv> 0x400"
abbreviation (input) O_CREAT :: i32 where "O_CREAT \<equiv> 0x40"
abbreviation (input) O_TRUNC :: i32 where "O_TRUNC \<equiv> 0x200"
abbreviation (input) O_EXCL :: i32 where "O_EXCL \<equiv> 0x80"

definition REWRITE_FLAG :: "i32 \<Rightarrow> i32 \<Rightarrow> i32 \<Rightarrow> i32 \<Rightarrow> i32" where
  "REWRITE_FLAG newlib host flags hostflags =
     (if flags AND newlib \<noteq> 0 then hostflags OR host else hostflags)"

definition convert_flags :: "i32 \<Rightarrow> i32" where
  "convert_flags flags =
     (let hostflags = 0;
          hostflags = REWRITE_FLAG 0 0 flags hostflags;
          hostflags = REWRITE_FLAG NEWLIB_O_WRONLY O_WRONLY flags hostflags;
          hostflags = REWRITE_FLAG NEWLIB_O_RDWR O_RDWR flags hostflags;
          hostflags = REWRITE_FLAG NEWLIB_O_APPEND O_APPEND flags hostflags;
          hostflags = REWRITE_FLAG NEWLIB_O_CREAT O_CREAT flags hostflags;
          hostflags = REWRITE_FLAG NEWLIB_O_TRUNC O_TRUNC flags hostflags;
          hostflags = REWRITE_FLAG NEWLIB_O_EXCL O_EXCL flags hostflags
      in hostflags)"

definition sys_openat :: "'os syscall_t" where
  "sys_openat h = (\<lambda>(m, mem, os). GET m reg_a0 (\<lambda>dirfd. GET m reg_a1 (\<lambda>nameptr.
     GET m reg_a2 (\<lambda>flags. GET m reg_a3 (\<lambda>mode.
     let (fd, os') = h_openat h (ucast dirfd) (TO_HOST nameptr) (convert_flags (ucast flags)) (ucast mode) mem os in
     Inr (scast fd, m, mem, os'))))))"

definition sys_open :: "'os syscall_t" where
  "sys_open h = (\<lambda>(m, mem, os). GET m reg_a0 (\<lambda>nameptr. GET m reg_a1 (\<lambda>flags. GET m reg_a2 (\<lambda>mode.
     let (fd, os') = h_open h (TO_HOST nameptr) (convert_flags (ucast flags)) (ucast mode) mem os in
     Inr (scast fd, m, mem, os')))))"

definition sys_lseek :: "'os syscall_t" where
  "sys_lseek h = (\<lambda>(m, mem, os). GET m reg_a0 (\<lambda>fd. GET m reg_a1 (\<lambda>off. GET m reg_a2 (\<lambda>whence.
     let (r, os') = h_lseek h (ucast fd) off (ucast whence) os in Inr (r, m, mem, os')))))"

definition sys_read :: "'os syscall_t" where
  "sys_read h = (\<lambda>(m, mem, os). GET m reg_a0 (\<lambda>fd. GET m reg_a1 (\<lambda>bufptr. GET m reg_a2 (\<lambda>count.
     let (n, mem', os') = h_read h (ucast fd) (TO_HOST bufptr) count mem os in Inr (n, m, mem', os')))))"

subsection \<open>Dispatch\<close>

text \<open>
  An array with designated initialisers is an association list with the size the largest
  index gives it; an index that is not listed holds the null pointer.
\<close>

definition syscall_table :: "(nat \<times> 'os syscall_t) list" where
  "syscall_table =
     [(93, sys_exit), (94, sys_exit), (63, sys_read), (67, sys_unimplemented), (64, sys_write),
      (56, sys_openat), (57, sys_close), (80, sys_fstat), (291, sys_unimplemented), (62, sys_lseek),
      (79, sys_unimplemented), (37, sys_unimplemented), (35, sys_unimplemented), (34, sys_unimplemented),
      (38, sys_unimplemented), (17, sys_unimplemented), (214, sys_brk), (160, sys_unimplemented),
      (172, sys_unimplemented), (174, sys_unimplemented), (175, sys_unimplemented), (176, sys_unimplemented),
      (177, sys_unimplemented), (178, sys_unimplemented), (131, sys_unimplemented), (222, sys_unimplemented),
      (215, sys_unimplemented), (216, sys_unimplemented), (226, sys_unimplemented), (134, sys_unimplemented),
      (169, sys_gettimeofday), (153, sys_unimplemented), (66, sys_unimplemented), (48, sys_unimplemented),
      (25, sys_unimplemented), (46, sys_unimplemented), (61, sys_unimplemented), (23, sys_unimplemented),
      (24, sys_unimplemented), (135, sys_unimplemented), (113, sys_unimplemented), (49, sys_unimplemented)]"

abbreviation (input) OLD_SYSCALL_THRESHOLD :: u64 where "OLD_SYSCALL_THRESHOLD \<equiv> 1024"

definition old_syscall_table :: "(nat \<times> 'os syscall_t) list" where
  "old_syscall_table =
     [(0, sys_open), (1, sys_unimplemented), (2, sys_unimplemented), (6, sys_unimplemented),
      (9, sys_unimplemented), (14, sys_unimplemented), (15, sys_unimplemented), (38, sys_unimplemented)]"

definition do_syscall :: "u64 \<Rightarrow> 'os syscall_t" where
  "do_syscall n h env =
     (case (if n < 292 then map_of syscall_table (unat n)
            else if n - OLD_SYSCALL_THRESHOLD < 39
            then map_of old_syscall_table (unat (n - OLD_SYSCALL_THRESHOLD)) else None) of
        None \<Rightarrow> Inl (Fatal ''unknown syscall'')
      | Some f \<Rightarrow> f h env)"

end
