(* ===== verification/Syscall_Props.thy ===== *)
theory Syscall_Props
  imports Syscall
begin

unbundle bit_operations_syntax

text \<open>
  What the system-call handlers of \<open>Syscall\<close> do to the machine: the program break, the layout of
  the guest's \<^verbatim>\<open>struct stat\<close>, the translation of the open flags, the dispatch of every number,
  and what no system call touches.
\<close>

subsection \<open>Registers\<close>

lemma machine_get_gp_reg [simp]: "uint r < 32 \<Longrightarrow> machine_get_gp_reg m (uint r) = Inr (gp (m_state m) r)"
  by (simp add: machine_get_gp_reg_def gp_def flip: unat_eq_nat_uint)

lemma GET_eq [simp]: "uint r < 32 \<Longrightarrow> GET m r k = k (gp (m_state m) r)"
  by (simp add: GET_def)

lemmas handler_defs = sys_unimplemented_def sys_exit_def sys_close_def sys_write_def sys_fstat_def
  sys_gettimeofday_def sys_brk_def sys_openat_def sys_open_def sys_lseek_def sys_read_def

subsection \<open>The program break\<close>

lemma sint_diff_small:
  fixes a b :: u64
  assumes "uint a < 2 ^ 63" and "uint b < 2 ^ 47"
  shows "sint (a - b) = uint a - uint b"
proof -
  have "a - b = word_of_int (uint a - uint b)" by simp
  then have "sint (a - b) = signed_take_bit 63 (uint a - uint b)"
    by (simp only: signed_of_int) simp
  also have "\<dots> = uint a - uint b"
  proof (rule signed_take_bit_int_eq_self)
    have lt: "uint a < 9223372036854775808" "uint b < 140737488355328" using assms by simp_all
    have "- 9223372036854775808 \<le> uint a - uint b" using lt(2) uint_ge_0 [of a] by linarith
    then show "- (2 ^ 63) \<le> uint a - uint b" by simp
    have "uint a - uint b < 9223372036854775808" using lt(1) uint_ge_0 [of b] by linarith
    then show "uint a - uint b < 2 ^ 63" by simp
  qed
  finally show ?thesis .
qed

lemma heap_brk_uint: "heap_ok mmu mem \<Longrightarrow> uint (mmu_brk mmu) < 2 ^ 47"
proof -
  assume h: "heap_ok mmu mem"
  have "unat (mmu_brk mmu) < 2 ^ 47"
    using heap_brk_bound [OF h] USER_END_lt by linarith
  then have "mmu_brk mmu < 2 ^ 47" by (simp add: word_less_nat_alt)
  then show ?thesis by (simp add: word_less_def)
qed

lemma sys_brk_set:
  assumes h: "heap_ok (m_mmu m) mem" and a: "gp (m_state m) reg_a0 = addr" "addr \<noteq> 0" "uint addr < 2 ^ 63"
    and run: "sys_brk host (m, mem, os) = Inr (r, m', mem', os')"
  shows "r = addr \<and> mmu_brk (m_mmu m') = addr \<and> heap_ok (m_mmu m') mem' \<and>
    (\<forall>p. unat p < min (unat (mmu_brk (m_mmu m))) (unat addr) + OFF \<longrightarrow> mem' p = mem p)"
proof -
  let ?incr = "addr - mmu_brk (m_mmu m)"
  from run a obtain r0 mmu' where al: "mmu_alloc (h_kernel host) (m_mmu m) ?incr mem = Inr (r0, mmu', mem')"
    and r: "r = addr" "m' = m\<lparr>m_mmu := mmu'\<rparr>"
    by (auto simp: sys_brk_def Let_def bindE_eq_Inr)
  have "sint ?incr = uint addr - uint (mmu_brk (m_mmu m))"
    by (rule sint_diff_small [OF a(3) heap_brk_uint [OF h]])
  then have nn: "0 \<le> uint (mmu_brk (m_mmu m)) + sint ?incr" by simp
  from mmu_alloc_inv [OF h nn al] mmu_alloc_frame [OF al] r show ?thesis by auto
qed

lemma mmu_alloc_0:
  assumes "heap_ok mmu mem"
  shows "mmu_alloc k mmu 0 mem = Inr (mmu_brk mmu, mmu, mem)"
proof -
  from assms have "mmu_base mmu \<le> mmu_brk mmu" by (simp add: heap_ok_def)
  then show ?thesis by (simp add: mmu_alloc_def Let_def)
qed

text \<open>
  C29. \<^verbatim>\<open>brk(0)\<close> reports the program break and changes nothing; \<^verbatim>\<open>brk(addr)\<close> below 2^63 that
  returns has set the break to \<^verbatim>\<open>addr\<close>, returns it, keeps the heap well formed and every byte below
  both breaks unchanged.
\<close>
theorem sys_brk_correct:
  "heap_ok (m_mmu m) mem \<Longrightarrow> gp (m_state m) reg_a0 = addr \<Longrightarrow> uint addr < 2 ^ 63 \<Longrightarrow>
   (addr = 0 \<longrightarrow> sys_brk host (m, mem, os) = Inr (mmu_brk (m_mmu m), m, mem, os)) \<and>
   (addr \<noteq> 0 \<longrightarrow> sys_brk host (m, mem, os) = Inr (r, m', mem', os') \<longrightarrow>
      r = addr \<and> mmu_brk (m_mmu m') = addr \<and> heap_ok (m_mmu m') mem' \<and>
      (\<forall>p. unat p < min (unat (mmu_brk (m_mmu m))) (unat addr) + OFF \<longrightarrow> mem' p = mem p))"
  using sys_brk_set [of m mem addr host os r m' mem' os'] mmu_alloc_0 [of "m_mmu m" mem "h_kernel host"]
  by (auto simp: sys_brk_def Let_def heap_ok_def)

definition demo_machine :: "u64 \<Rightarrow> u64 \<Rightarrow> machine_t" where
  "demo_machine a0 a1 = \<lparr>m_state = \<lparr>exit_reason = ecall, reenter_pc = 0,
       gp_regs = (replicate 32 0)[10 := a0, 11 := a1], fp_regs = replicate 32 0, pc = 0\<rparr>,
     m_mmu = demo_mmu, m_cache = new_cache 0\<rparr>"

lemma demo_machine_regs [simp]:
  "gp (m_state (demo_machine a0 a1)) 10 = a0" "gp (m_state (demo_machine a0 a1)) 11 = a1"
  "m_mmu (demo_machine a0 a1) = demo_mmu"
  by (simp_all add: demo_machine_def gp_def)

definition demo_host :: "unit host_t" where
  "demo_host = \<lparr>h_kernel = all_granted, h_close = \<lambda>_ os. (0, os), h_write = \<lambda>_ _ n _ os. (n, os),
     h_fstat = \<lambda>_ os. (0, \<lparr>st_dev = 1, st_ino = 2, st_mode = 3, st_nlink = 4, st_uid = 5, st_gid = 6,
       st_rdev = 7, st_size = 8, st_blksize = 9, st_blocks = 10, st_atime = 11, st_mtime = 12, st_ctime = 13\<rparr>),
     h_gettimeofday = \<lambda>_ _ mem os. (0, mem, os), h_openat = \<lambda>_ _ _ _ _ os. (3, os), h_open = \<lambda>_ _ _ _ os. (3, os),
     h_lseek = \<lambda>_ n _ os. (n, os), h_read = \<lambda>_ _ _ mem os. (0, mem, os)\<rparr>"

lemma sys_brk_correct_witness:
  "sys_brk demo_host (demo_machine 0 0, \<lambda>_. None, ()) = Inr (0x20000, demo_machine 0 0, \<lambda>_. None, ())"
  using sys_brk_correct [of "demo_machine 0 0" "\<lambda>_. None" 0 demo_host "()"] demo_mmu_ok
  by (simp add: demo_mmu_def)

lemma brk_max_incr_negative:
  assumes "heap_ok mmu mem"
  shows "- 1 - mmu_brk mmu <s 0"
proof -
  have "- 1 - mmu_brk mmu = word_of_int (- 1 - uint (mmu_brk mmu))" by simp
  then have "sint (- 1 - mmu_brk mmu) = signed_take_bit 63 (- 1 - uint (mmu_brk mmu))"
    by (simp only: signed_of_int) simp
  also have "\<dots> = - 1 - uint (mmu_brk mmu)"
  proof (rule signed_take_bit_int_eq_self)
    have "uint (mmu_brk mmu) < 140737488355328" using heap_brk_uint [OF assms] by simp
    then have "- 9223372036854775808 \<le> - 1 - uint (mmu_brk mmu)" by linarith
    then show "- (2 ^ 63) \<le> - 1 - uint (mmu_brk mmu)" by simp
    have "- 1 - uint (mmu_brk mmu) < 9223372036854775808" using uint_ge_0 [of "mmu_brk mmu"] by linarith
    then show "- 1 - uint (mmu_brk mmu) < 2 ^ 63" by simp
  qed
  finally have "sint (- 1 - mmu_brk mmu) < 0" using uint_ge_0 [of "mmu_brk mmu"] by linarith
  then show ?thesis by (simp add: word_sless_alt)
qed

text \<open>
  C37. \<^verbatim>\<open>brk\<close> of the largest address is taken for a release: the increment is negative as a signed
  number, the new break rounds up to address zero, and the whole guest memory from address zero
  on is unmapped while the call reports success.
\<close>
theorem sys_brk_wraps:
  "heap_ok (m_mmu m) mem \<Longrightarrow> gp (m_state m) reg_a0 = - 1 \<Longrightarrow>
   unat GUEST_MEMORY_OFFSET < unat (host_alloc (m_mmu m)) \<Longrightarrow> (\<And>a l. grants_unmap (h_kernel host) a l) \<Longrightarrow>
   \<exists>m' mem'. sys_brk host (m, mem, os) = Inr (- 1, m', mem', os) \<and>
     (\<forall>p. unat GUEST_MEMORY_OFFSET \<le> unat p \<and> unat p < unat (host_alloc (m_mmu m)) \<longrightarrow> mem' p = None)"
proof -
  assume h: "heap_ok (m_mmu m) mem" and a0: "gp (m_state m) reg_a0 = - 1"
    and lt: "unat GUEST_MEMORY_OFFSET < unat (host_alloc (m_mmu m))" and k: "\<And>a l. grants_unmap (h_kernel host) a l"
  let ?mmu = "m_mmu m" and ?g = "TO_GUEST (host_alloc (m_mmu m))"
  define incr where "incr = - 1 - mmu_brk ?mmu"
  have base: "mmu_base ?mmu \<le> mmu_brk ?mmu" using h by (simp add: heap_ok_def)
  have neg: "incr <s 0" "\<not> 0 <s incr"
    using brk_max_incr_negative [OF h] by (auto simp: incr_def word_sless_alt)
  have new: "mmu_brk ?mmu + incr = - 1" by (simp add: incr_def)
  have r: "ROUNDUP (- 1) getpagesize = 0" by (simp add: ROUNDUP_def getpagesize_def)
  have g: "unat ?g = unat (host_alloc ?mmu) - OFF" by (rule heap_guest_end [OF h])
  with lt have gpos: "0 < ?g" by (simp add: word_less_nat_alt unat_offset)
  have t: "unat (TO_HOST 0) = OFF" by (simp add: TO_HOST_def unat_offset)
  have hm: "unat (host_alloc ?mmu) \<le> USER_END" "unat (host_alloc ?mmu) mod page = 0"
    using h by (simp_all add: heap_ok_def)
  have ok: "range_ok (TO_HOST 0) ?g"
    using gpos g t lt hm by (auto simp: range_ok_def unat_offset)
  define mem' where "mem' = (\<lambda>a. if unat (a - TO_HOST 0) < page_up (unat ?g) then None else mem a)"
  have "sys_brk host (m, mem, os) =
      Inr (- 1, m\<lparr>m_mmu := ?mmu\<lparr>mmu_brk := - 1, host_alloc := host_alloc ?mmu - ?g\<rparr>\<rparr>, mem', os)"
    using a0 base neg gpos ok k
    by (simp add: sys_brk_def Let_def mmu_alloc_def munmap_def new r mem'_def flip: incr_def)
  moreover have "mem' p = None" if "OFF \<le> unat p" "unat p < unat (host_alloc ?mmu)" for p
  proof -
    have "unat (p - TO_HOST 0) = unat p - OFF" using that(1) t by (subst unat_sub) (simp_all add: word_le_nat_alt)
    with that g page_up_ge [of "unat ?g"] have "unat (p - TO_HOST 0) < page_up (unat ?g)" by linarith
    then show ?thesis by (simp add: mem'_def)
  qed
  ultimately show ?thesis using unat_offset by auto
qed

lemma sys_brk_wraps_witness:
  "\<exists>m' mem'. sys_brk demo_host (demo_machine (- 1) 0, \<lambda>_. None, ()) = Inr (- 1, m', mem', ()) \<and> mem' (TO_HOST 0x10000) = None"
proof -
  have "unat GUEST_MEMORY_OFFSET < unat (host_alloc demo_mmu)" "unat (TO_HOST 0x10000) < unat (host_alloc demo_mmu)"
      "unat GUEST_MEMORY_OFFSET \<le> unat (TO_HOST 0x10000)"
    by (simp_all add: demo_mmu_def TO_HOST_def GUEST_MEMORY_OFFSET_def)
  with sys_brk_wraps [of "demo_machine (- 1) 0" "\<lambda>_. None" demo_host "()"] demo_mmu_ok show ?thesis
    by (fastforce simp: demo_host_def all_granted_def)
qed

subsection \<open>The guest's \<^verbatim>\<open>struct stat\<close>\<close>

lemma riscv_stat_length: "length (riscv_stat_bytes st) = 128"
  by (simp add: riscv_stat_bytes_def del: le_bytes.simps)

lemma le_val_take: "length xs = n \<Longrightarrow> take n (xs @ ys) = xs"
  by simp

lemma stat_fields:
  "take 8 (drop 0 (riscv_stat_bytes st)) = le_bytes 8 (unat (st_dev st))"
  "take 8 (drop 8 (riscv_stat_bytes st)) = le_bytes 8 (unat (st_ino st))"
  "take 4 (drop 16 (riscv_stat_bytes st)) = le_bytes 4 (unat (st_mode st))"
  "take 4 (drop 20 (riscv_stat_bytes st)) = le_bytes 4 (unat (ucast (st_nlink st) :: u32))"
  "take 4 (drop 24 (riscv_stat_bytes st)) = le_bytes 4 (unat (st_uid st))"
  "take 4 (drop 28 (riscv_stat_bytes st)) = le_bytes 4 (unat (st_gid st))"
  "take 8 (drop 32 (riscv_stat_bytes st)) = le_bytes 8 (unat (st_rdev st))"
  "take 8 (drop 48 (riscv_stat_bytes st)) = le_bytes 8 (unat (st_size st))"
  "take 4 (drop 56 (riscv_stat_bytes st)) = le_bytes 4 (unat (ucast (st_blksize st) :: i32))"
  "take 8 (drop 64 (riscv_stat_bytes st)) = le_bytes 8 (unat (st_blocks st))"
  "take 8 (drop 72 (riscv_stat_bytes st)) = le_bytes 8 (unat (st_atime st))"
  "take 8 (drop 88 (riscv_stat_bytes st)) = le_bytes 8 (unat (st_mtime st))"
  "take 8 (drop 104 (riscv_stat_bytes st)) = le_bytes 8 (unat (st_ctime st))"
  by (simp_all add: riscv_stat_bytes_def del: le_bytes.simps)

lemma load_field_u64:
  assumes "load_bytes m a 128 = Inr bs" and "i + 8 \<le> 128" and "take 8 (drop i bs) = le_bytes 8 (unat v)"
  shows "load_u64 m (a + of_nat i) = Inr v"
  using load_bytes_slice [OF assms(1,2)] assms(3) by (simp add: load_u64_def le_val_unat del: le_bytes.simps)

lemma load_field_u32:
  assumes "load_bytes m a 128 = Inr bs" and "i + 4 \<le> 128" and "take 4 (drop i bs) = le_bytes 4 (unat v)"
  shows "load_u32 m (a + of_nat i) = Inr v"
  using load_bytes_slice [OF assms(1,2)] assms(3) by (simp add: load_u32_def le_val_unat del: le_bytes.simps)

lemma sys_fstat_bytes:
  assumes "gp (m_state m) reg_a1 = addr" and "h_fstat host (ucast (gp (m_state m) reg_a0)) os = (0, st)"
    and "load_bytes mem (TO_HOST addr) 128 = Inr old"
    and "sys_fstat host (m, mem, os) = Inr (r, m', mem', os')"
  shows "r = 0 \<and> m' = m \<and> load_bytes mem' (TO_HOST addr) 128 = Inr (riscv_stat_bytes st)"
proof -
  from assms(1,2,4) have "store_bytes mem (TO_HOST addr) (riscv_stat_bytes st) = Inr mem'" and r: "r = 0" "m' = m"
    by (auto simp: sys_fstat_def mmu_write_def bindE_eq_Inr)
  from hmem.load_store_same [OF _ this(1)] assms(3) riscv_stat_length [of st] r show ?thesis by simp
qed

text \<open>
  C32. After a successful \<^verbatim>\<open>fstat\<close> the guest reads the host's values at the offsets of the
  RISC-V structure: device, inode, mode, link count, size, block count and times.
\<close>
theorem sys_fstat_layout:
  "gp (m_state m) reg_a1 = addr \<Longrightarrow> h_fstat host (ucast (gp (m_state m) reg_a0)) os = (0, st) \<Longrightarrow>
   load_bytes mem (TO_HOST addr) 128 = Inr old \<Longrightarrow> sys_fstat host (m, mem, os) = Inr (r, m', mem', os') \<Longrightarrow>
   r = 0 \<and> m' = m \<and>
   load_u64 mem' (TO_HOST addr + 0) = Inr (st_dev st) \<and> load_u64 mem' (TO_HOST addr + 8) = Inr (st_ino st) \<and>
   load_u32 mem' (TO_HOST addr + 16) = Inr (st_mode st) \<and>
   load_u32 mem' (TO_HOST addr + 20) = Inr (ucast (st_nlink st)) \<and>
   load_u32 mem' (TO_HOST addr + 24) = Inr (st_uid st) \<and> load_u32 mem' (TO_HOST addr + 28) = Inr (st_gid st) \<and>
   load_u64 mem' (TO_HOST addr + 32) = Inr (st_rdev st) \<and>
   load_u64 mem' (TO_HOST addr + 48) = Inr (st_size st) \<and>
   load_u32 mem' (TO_HOST addr + 56) = Inr (ucast (st_blksize st)) \<and>
   load_u64 mem' (TO_HOST addr + 64) = Inr (st_blocks st) \<and>
   load_u64 mem' (TO_HOST addr + 72) = Inr (st_atime st) \<and> load_u64 mem' (TO_HOST addr + 88) = Inr (st_mtime st) \<and>
   load_u64 mem' (TO_HOST addr + 104) = Inr (st_ctime st)"
proof -
  assume a: "gp (m_state m) reg_a1 = addr" "h_fstat host (ucast (gp (m_state m) reg_a0)) os = (0, st)"
    "load_bytes mem (TO_HOST addr) 128 = Inr old" "sys_fstat host (m, mem, os) = Inr (r, m', mem', os')"
  from sys_fstat_bytes [OF a] have b: "load_bytes mem' (TO_HOST addr) 128 = Inr (riscv_stat_bytes st)"
    and r: "r = 0" "m' = m" by blast+
  note f8 = load_field_u64 [OF b] and f4 = load_field_u32 [OF b]
  show ?thesis
    using r f8 [OF _ stat_fields(1)] f8 [OF _ stat_fields(2)] f4 [OF _ stat_fields(3)] f4 [OF _ stat_fields(4)]
      f4 [OF _ stat_fields(5)] f4 [OF _ stat_fields(6)] f8 [OF _ stat_fields(7)] f8 [OF _ stat_fields(8)]
      f4 [OF _ stat_fields(9)] f8 [OF _ stat_fields(10)] f8 [OF _ stat_fields(11)] f8 [OF _ stat_fields(12)]
      f8 [OF _ stat_fields(13)]
    by simp
qed

text \<open>A page of readable and writable zeroes.\<close>

definition demo_page :: "u64 \<Rightarrow> mem" where
  "demo_page a = map_pages (\<lambda>_. None) a 4096 RW anon_content"

lemma demo_page_at: "n \<le> 4096 \<Longrightarrow> i < n \<Longrightarrow> demo_page a (a + of_nat i) = Some (RW, 0)"
  by (simp add: demo_page_def map_pages_def page_up_def unat_of_nat anon_content_def)

lemma RW_ok: "readable RW" "writable RW"
  by (simp_all add: readable_def writable_def)

lemma sys_fstat_layout_witness:
  "\<exists>mem'. sys_fstat demo_host (demo_machine 1 0x20000, demo_page (TO_HOST 0x20000), ()) =
       Inr (0, demo_machine 1 0x20000, mem', ()) \<and> load_u64 mem' (TO_HOST 0x20000 + 48) = Inr 8"
proof -
  let ?p = "demo_page (TO_HOST 0x20000)"
  obtain old where o: "load_bytes ?p (TO_HOST 0x20000) 128 = Inr old"
    using load_bytes_mapped [of 128 ?p "TO_HOST 0x20000"] demo_page_at [of 128] RW_ok by fastforce
  define st where "st = snd (h_fstat demo_host 1 ())"
  obtain mem' where "store_bytes ?p (TO_HOST 0x20000) (riscv_stat_bytes st) = Inr mem'"
    using store_bytes_mapped [of "riscv_stat_bytes st" ?p "TO_HOST 0x20000"] demo_page_at [of 128] RW_ok
      riscv_stat_length by fastforce
  then have run: "sys_fstat demo_host (demo_machine 1 0x20000, ?p, ()) = Inr (0, demo_machine 1 0x20000, mem', ())"
    by (simp add: sys_fstat_def mmu_write_def st_def demo_host_def)
  have f: "h_fstat demo_host (ucast (gp (m_state (demo_machine 1 0x20000)) reg_a0)) () = (0, st)"
    by (simp add: st_def demo_host_def)
  have "st_size st = 8" by (simp add: st_def demo_host_def)
  with sys_fstat_layout [OF demo_machine_regs(2) f o run] run show ?thesis by auto
qed

subsection \<open>Open flags\<close>

lemma bit_if_or: "bit (if b then x OR y else x) i \<longleftrightarrow> bit x i \<or> b \<and> bit y i"
  by (simp add: bit_simps)

lemma newlib_bits:
  "flags AND 1 \<noteq> 0 \<longleftrightarrow> bit flags 0" "flags AND 2 \<noteq> 0 \<longleftrightarrow> bit flags 1" "flags AND 8 \<noteq> 0 \<longleftrightarrow> bit flags 3"
  "flags AND 0x200 \<noteq> 0 \<longleftrightarrow> bit flags 9" "flags AND 0x400 \<noteq> 0 \<longleftrightarrow> bit flags 10"
  "flags AND 0x800 \<noteq> 0 \<longleftrightarrow> bit flags 11" for flags :: i32
  using and_exp_eq_0_iff_not_bit [of flags 0] and_exp_eq_0_iff_not_bit [of flags 1]
    and_exp_eq_0_iff_not_bit [of flags 3] and_exp_eq_0_iff_not_bit [of flags 9]
    and_exp_eq_0_iff_not_bit [of flags 10] and_exp_eq_0_iff_not_bit [of flags 11]
  by simp_all

lemma bit_exp32: "n < 32 \<Longrightarrow> bit ((2 :: i32) ^ n) i \<longleftrightarrow> i = n"
  by (auto simp: bit_exp_iff)

lemma host_bits:
  "bit (1 :: i32) i \<longleftrightarrow> i = 0" "bit (2 :: i32) i \<longleftrightarrow> i = 1" "bit (0x400 :: i32) i \<longleftrightarrow> i = 10"
  "bit (0x40 :: i32) i \<longleftrightarrow> i = 6" "bit (0x200 :: i32) i \<longleftrightarrow> i = 9" "bit (0x80 :: i32) i \<longleftrightarrow> i = 7"
  using bit_exp32 [of 0 i] bit_exp32 [of 1 i] bit_exp32 [of 10 i] bit_exp32 [of 6 i] bit_exp32 [of 9 i]
    bit_exp32 [of 7 i] by simp_all

text \<open>
  C40. \<^verbatim>\<open>convert_flags\<close> moves the flags of the guest's C library to their bits on the host (write-only,
  read-write, append, create, truncate, exclusive) and drops every other bit.
\<close>
theorem convert_flags_bits:
  "bit (convert_flags flags) i \<longleftrightarrow>
     i = 0 \<and> bit flags 0 \<or> i = 1 \<and> bit flags 1 \<or> i = 10 \<and> bit flags 3 \<or>
     i = 6 \<and> bit flags 9 \<or> i = 9 \<and> bit flags 10 \<or> i = 7 \<and> bit flags 11"
  unfolding convert_flags_def REWRITE_FLAG_def Let_def bit_if_or newlib_bits host_bits
  by auto

subsection \<open>Dispatch\<close>

text \<open>The numbers that are served, with their handlers.\<close>

definition served :: "(u64 \<times> 'os syscall_t) list" where
  "served = [(93, sys_exit), (94, sys_exit), (63, sys_read), (64, sys_write), (56, sys_openat), (57, sys_close),
     (80, sys_fstat), (62, sys_lseek), (214, sys_brk), (169, sys_gettimeofday), (1024, sys_open)]"

lemma syscall_table_cases:
  "(k, f) \<in> set syscall_table \<Longrightarrow> f = sys_unimplemented \<or> (of_nat k, f) \<in> set served"
  unfolding syscall_table_def served_def
  by (simp only: list.set insert_iff prod.inject empty_iff, elim disjE conjE) simp_all

lemma old_syscall_table_cases:
  "(k, f) \<in> set old_syscall_table \<Longrightarrow> f = sys_unimplemented \<or> (1024 + of_nat k, f) \<in> set served"
  unfolding old_syscall_table_def served_def
  by (simp only: list.set insert_iff prod.inject empty_iff, elim disjE conjE) simp_all

lemma do_syscall_cases:
  fixes h :: "'os host_t"
  obtains (Served) f where "(n, f) \<in> set served" "do_syscall n h env = f h env"
    | (Unimplemented) "do_syscall n h env = Inl (Fatal ''unimplemented syscall'')"
    | (Unknown) "do_syscall n h env = Inl (Fatal ''unknown syscall'')"
proof -
  have unimpl: "sys_unimplemented h env = Inl (Fatal ''unimplemented syscall'')"
    by (cases env) (simp add: sys_unimplemented_def)
  let ?f = "(if n < 292 then map_of syscall_table (unat n)
            else if n - OLD_SYSCALL_THRESHOLD < 39
            then map_of old_syscall_table (unat (n - OLD_SYSCALL_THRESHOLD)) else None) :: 'os syscall_t option"
  show thesis
  proof (cases ?f)
    case None
    have "do_syscall n h env = Inl (Fatal ''unknown syscall'')" unfolding do_syscall_def None by simp
    then show thesis by (rule Unknown)
  next
    case (Some f)
    have eq: "do_syscall n h env = f h env" unfolding do_syscall_def Some by simp
    have "f = sys_unimplemented \<or> (n, f) \<in> set served"
      using Some syscall_table_cases [of "unat n" f] old_syscall_table_cases [of "unat (n - 1024)" f]
      by (auto split: if_splits dest!: map_of_SomeD)
    then show thesis using eq unimpl Served Unimplemented by auto
  qed
qed

lemma served_runs: "(n, f) \<in> set served \<Longrightarrow> do_syscall n h env = f h env"
  unfolding served_def
  by (simp only: list.set insert_iff prod.inject empty_iff, elim disjE conjE)
    (simp_all add: do_syscall_def syscall_table_def old_syscall_table_def)

text \<open>
  C30. Every system-call number reaches one of eleven handlers or ends the emulator with a
  message: the null entries of both tables and the numbers outside them are never called.
\<close>
theorem do_syscall_dispatch:
  "((n, f) \<in> set served \<longrightarrow> do_syscall n (h :: 'os host_t) env = f h env) \<and>
   (n \<notin> fst ` set (served :: (u64 \<times> 'os syscall_t) list) \<longrightarrow>
     do_syscall n h env = Inl (Fatal ''unimplemented syscall'') \<or> do_syscall n h env = Inl (Fatal ''unknown syscall''))"
proof (intro conjI impI)
  assume "(n, f) \<in> set served"
  then show "do_syscall n h env = f h env" by (rule served_runs)
next
  assume out: "n \<notin> fst ` set (served :: (u64 \<times> 'os syscall_t) list)"
  show "do_syscall n h env = Inl (Fatal ''unimplemented syscall'') \<or> do_syscall n h env = Inl (Fatal ''unknown syscall'')"
    by (cases n h env rule: do_syscall_cases) (use out in \<open>force+\<close>)
qed

lemma do_syscall_dispatch_witness:
  "do_syscall 222 demo_host (demo_machine 0 0, \<lambda>_. None, ()) = Inl (Fatal ''unimplemented syscall'') \<or>
   do_syscall 222 demo_host (demo_machine 0 0, \<lambda>_. None, ()) = Inl (Fatal ''unknown syscall'')"
  using do_syscall_dispatch [of 222 sys_exit demo_host "(demo_machine 0 0, \<lambda>_. None, ())"]
  by (simp add: served_def)

text \<open>
  C31. No system call changes a register, the program counter or the code cache; only \<^verbatim>\<open>brk\<close>
  changes the heap, and only \<^verbatim>\<open>read\<close>, \<^verbatim>\<open>fstat\<close>, \<^verbatim>\<open>gettimeofday\<close> and \<^verbatim>\<open>brk\<close> the guest's memory.
\<close>
theorem do_syscall_frame:
  "do_syscall n h (m, mem, os) = Inr (r, m', mem', os') \<Longrightarrow>
   m_state m' = m_state m \<and> m_cache m' = m_cache m \<and> (n \<noteq> 214 \<longrightarrow> m' = m) \<and>
   (n \<notin> {63, 80, 169, 214} \<longrightarrow> mem' = mem)"
proof -
  assume run: "do_syscall n h (m, mem, os) = Inr (r, m', mem', os')"
  show ?thesis
  proof (cases n h "(m, mem, os)" rule: do_syscall_cases)
    case (Served f)
    from Served(2) run have f: "f h (m, mem, os) = Inr (r, m', mem', os')" by simp
    from Served(1) show ?thesis
      unfolding served_def
      by (simp only: list.set insert_iff prod.inject empty_iff, elim disjE conjE)
        (use f in \<open>auto simp: handler_defs Let_def bindE_eq_Inr split: prod.splits if_splits\<close>)
  qed (use run in simp_all)
qed

lemma do_syscall_frame_witness:
  "\<exists>r m' mem' os'. do_syscall 64 demo_host (demo_machine 1 0, \<lambda>_. None, ()) = Inr (r, m', mem', os') \<and> m' = demo_machine 1 0"
proof -
  obtain r m' mem' os' where run: "do_syscall 64 demo_host (demo_machine 1 0, \<lambda>_. None, ()) = Inr (r, m', mem', os')"
    by (simp add: do_syscall_def syscall_table_def sys_write_def demo_host_def)
  from do_syscall_frame [OF run] run show ?thesis by auto
qed

end
