(* ===== verification/C_Text.thy ===== *)
theory C_Text
  imports Riscvemu_H
begin

unbundle bit_operations_syntax

text \<open>
  The C text that \<^verbatim>\<open>src/codegen.c\<close> writes, as a syntax tree with the printer that gives the
  characters. The expressions are those that occur in the format strings and literals of the file, with
  parentheses kept; a statement is what one or a few \<^verbatim>\<open>str_append\<close> calls write. \<open>stmt_text\<close> lists the pieces
  in the order they are appended, each with a flag that tells whether it has been
  formatted by \<^verbatim>\<open>sprintf\<close> into one of the 128-byte buffers.
\<close>

subsection \<open>Numbers\<close>

fun digit :: "nat \<Rightarrow> char" where
  "digit n = (''0123456789abcdef'' ! n)"

fun dec_nat :: "nat \<Rightarrow> string" where
  "dec_nat n = (if n < 10 then [digit n] else dec_nat (n div 10) @ [digit (n mod 10)])"

fun hex_nat :: "nat \<Rightarrow> string" where
  "hex_nat n = (if n < 16 then [digit n] else hex_nat (n div 16) @ [digit (n mod 16)])"

declare digit.simps [simp del] dec_nat.simps [simp del] hex_nat.simps [simp del]

definition dec_int :: "int \<Rightarrow> string" where
  "dec_int k = (if k < 0 then ''-'' @ dec_nat (nat (- k)) else dec_nat (nat k))"

subsection \<open>Expressions\<close>

datatype ctype = I8 | I16 | I32 | I64 | U8 | U16 | U32 | U64 | F32 | F64

fun type_text :: "ctype \<Rightarrow> string" where
  "type_text I8 = ''int8_t''" | "type_text I16 = ''int16_t''"
| "type_text I32 = ''int32_t''" | "type_text I64 = ''int64_t''"
| "type_text U8 = ''uint8_t''" | "type_text U16 = ''uint16_t''"
| "type_text U32 = ''uint32_t''" | "type_text U64 = ''uint64_t''"
| "type_text F32 = ''float''" | "type_text F64 = ''double''"

datatype binop = Add | Sub | Mul | Div | Mod | Shl | Shr | BAnd | BOr | BXor
  | Lt | Gt | Le | Ge | Eq | Ne | LAnd

fun op_text :: "binop \<Rightarrow> string" where
  "op_text Add = ''+''" | "op_text Sub = ''-''" | "op_text Mul = ''*''" | "op_text Div = ''/''"
| "op_text Mod = ''%''" | "op_text Shl = ''<<''" | "op_text Shr = ''>>''" | "op_text BAnd = ''&''"
| "op_text BOr = ''|''" | "op_text BXor = ''^''" | "op_text Lt = ''<''" | "op_text Gt = ''>''"
| "op_text Le = ''<=''" | "op_text Ge = ''>=''" | "op_text Eq = ''==''" | "op_text Ne = ''!=''"
| "op_text LAnd = ''&&''"

datatype cexpr =
    Var string
  | LL i64              \<comment> \<open>\<^verbatim>\<open>%ldLL\<close>\<close>
  | ULL u64             \<comment> \<open>\<^verbatim>\<open>%luULL\<close>\<close>
  | Dec nat
  | Hex nat
  | UINT64_MAX
  | INT64_MIN
  | Cast ctype cexpr
  | Neg cexpr
  | BNot cexpr
  | Bin binop cexpr cexpr
  | Cond cexpr cexpr cexpr
  | Par cexpr

fun expr_text :: "cexpr \<Rightarrow> string" where
  "expr_text (Var x) = x"
| "expr_text (LL v) = dec_int (sint v) @ ''LL''"
| "expr_text (ULL v) = dec_nat (unat v) @ ''ULL''"
| "expr_text (Dec n) = dec_nat n"
| "expr_text (Hex n) = ''0x'' @ hex_nat n"
| "expr_text UINT64_MAX = ''UINT64_MAX''"
| "expr_text INT64_MIN = ''INT64_MIN''"
| "expr_text (Cast t e) = ''('' @ type_text t @ '')'' @ expr_text e"
| "expr_text (Neg e) = ''-'' @ expr_text e"
| "expr_text (BNot e) = ''~'' @ expr_text e"
| "expr_text (Bin op a b) = expr_text a @ '' '' @ op_text op @ '' '' @ expr_text b"
| "expr_text (Cond c a b) = expr_text c @ '' ? '' @ expr_text a @ '' : '' @ expr_text b"
| "expr_text (Par e) = ''('' @ expr_text e @ '')''"

subsection \<open>Statements\<close>

text \<open>The member of \<^verbatim>\<open>fp_reg_t\<close> an access goes through.\<close>

datatype ffield = Fv | Fw | Fd | Ff

fun field_text :: "ffield \<Rightarrow> string" where
  "field_text Fv = ''v''" | "field_text Fw = ''w''" | "field_text Fd = ''d''" | "field_text Ff = ''f''"

fun exit_text :: "exit_reason_t \<Rightarrow> string" where
  "exit_text none = ''none''" | "exit_text direct_branch = ''direct_branch''"
| "exit_text indirect_branch = ''indirect_branch''" | "exit_text interp = ''interp''"
| "exit_text ecall = ''ecall''" | "exit_text halt = ''halt''"

datatype stmt =
    Label u64                             \<comment> \<open>\<^verbatim>\<open>insn_%lx: {\<close>\<close>
  | Close                                 \<comment> \<open>the closing brace\<close>
  | GetX string nat                       \<comment> \<open>\<^verbatim>\<open>uint64_t name = x%d;\<close>, or \<^verbatim>\<open>= 0;\<close> for register 0\<close>
  | SetX nat cexpr                        \<comment> \<open>\<^verbatim>\<open>x%d = expr;\<close>\<close>
  | GetF ctype string nat ffield          \<comment> \<open>\<^verbatim>\<open>typ name = f%d.field;\<close>\<close>
  | SetF nat ffield cexpr                 \<comment> \<open>\<^verbatim>\<open>f%d.field = expr;\<close>\<close>
  | Load ctype string cexpr               \<comment> \<open>\<^verbatim>\<open>typ name = *(typ *)TO_HOST(addr);\<close>\<close>
  | Store ctype cexpr string              \<comment> \<open>\<^verbatim>\<open>*(typ *)TO_HOST(addr) = (typ)data;\<close>\<close>
  | RdCases nat "(cexpr \<times> cexpr) list" cexpr  \<comment> \<open>the \<^verbatim>\<open>if\<close> chain of the divisions, padded to a width\<close>
  | IfGoto cexpr u64
  | Goto u64
  | SetExit exit_reason_t
  | SetReenter cexpr
  | GotoEnd

definition pad :: "nat \<Rightarrow> string \<Rightarrow> string" where
  "pad w t = t @ replicate (w - length t) (CHR '' '') @ [CHR 0x0A]"

fun cases_text :: "nat \<Rightarrow> string \<Rightarrow> (cexpr \<times> cexpr) list \<Rightarrow> cexpr \<Rightarrow> string" where
  "cases_text w opener [] e =
     pad w (''    } else {'') @ pad w (''        rd = '' @ expr_text e @ '';'') @ pad w ''    }''"
| "cases_text w opener ((c, v) # cs) e =
     pad w (opener @ ''if ('' @ expr_text c @ '') {'') @ pad w (''        rd = '' @ expr_text v @ '';'') @
     cases_text w (''    } else '') cs e"

definition nl :: string where
  "nl = [CHR 0x0A]"

fun stmt_text :: "stmt \<Rightarrow> (bool \<times> string) list" where
  "stmt_text (Label p) = [(True, ''insn_'' @ hex_nat (unat p) @ '': {'' @ nl)]"
| "stmt_text Close = [(False, ''}'' @ nl)]"
| "stmt_text (GetX x r) =
     (if r = 0 then [(False, ''    uint64_t '' @ x @ '' = 0;'' @ nl)]
      else [(True, ''    uint64_t '' @ x @ '' = x'' @ dec_nat r @ '';'' @ nl)])"
| "stmt_text (SetX r e) = [(True, ''    x'' @ dec_nat r @ '' = '' @ expr_text e @ '';'' @ nl)]"
| "stmt_text (GetF t x r fd) =
     [(True, ''    '' @ type_text t @ '' '' @ x @ '' = f'' @ dec_nat r @ ''.'' @ field_text fd @ '';'' @ nl)]"
| "stmt_text (SetF r fd e) =
     [(True, ''    f'' @ dec_nat r @ ''.'' @ field_text fd @ '' = '' @ expr_text e @ '';'' @ nl)]"
| "stmt_text (Load t x a) =
     [(True, ''    '' @ type_text t @ '' '' @ x @ '' = *('' @ type_text t @ '' *)TO_HOST('' @ expr_text a @ '');'' @ nl)]"
| "stmt_text (Store t a x) =
     [(True, ''    *('' @ type_text t @ '' *)TO_HOST('' @ expr_text a @ '') = ('' @ type_text t @ '')'' @ x @ '';'' @ nl)]"
| "stmt_text (RdCases w cs e) = [(False, pad w ''    uint64_t rd = 0;'' @ cases_text w ''    '' cs e)]"
| "stmt_text (IfGoto c p) =
     [(True, ''    if ('' @ expr_text c @ '') {'' @ nl), (True, ''        goto insn_'' @ hex_nat (unat p) @ '';'' @ nl),
      (False, ''    }'' @ nl)]"
| "stmt_text (Goto p) = [(True, ''    goto insn_'' @ hex_nat (unat p) @ '';'' @ nl)]"
| "stmt_text (SetExit r) = [(False, ''    state->exit_reason = '' @ exit_text r @ '';'' @ nl)]"
| "stmt_text (SetReenter e) = [(True, ''    state->reenter_pc = '' @ expr_text e @ '';'' @ nl)]"
| "stmt_text GotoEnd = [(False, ''    goto end;'' @ nl)]"

definition body_text :: "stmt list \<Rightarrow> string" where
  "body_text ss = concat (map snd (concat (map stmt_text ss)))"

end
