(* ===== verification/Work_Stack.thy ===== *)
theory Work_Stack
  imports Interfaces
begin

text \<open>
  \<^verbatim>\<open>src/stack.c\<close>: the bounded stack of program counters still to translate. Pushing an
  element that is already on the stack leaves it alone; the capacity assertion comes before
  that check.
\<close>

subsection \<open>Operations\<close>

definition STACK_CAP :: nat where
  "STACK_CAP = 256"

record stack_t =
  stack_top :: nat
  stack_elems :: "u64 list"

definition stack_push :: "stack_t \<Rightarrow> u64 \<Rightarrow> stack_t result" where
  "stack_push s elem =
     bindE (assertE ''stack->top < STACK_CAP'' (stack_top s < STACK_CAP)) (\<lambda>_.
       if elem \<in> set (take (stack_top s) (stack_elems s)) then Inr s
       else Inr (s\<lparr>stack_elems := (stack_elems s)[stack_top s := elem],
                   stack_top := stack_top s + 1\<rparr>))"

text \<open>\<^const>\<open>None\<close> is the return value \<^verbatim>\<open>false\<close>, which leaves \<^verbatim>\<open>*elem\<close> unwritten.\<close>

definition stack_pop :: "stack_t \<Rightarrow> (u64 \<times> stack_t) option" where
  "stack_pop s =
     (if stack_top s = 0 then None
      else Some (stack_elems s ! (stack_top s - 1), s\<lparr>stack_top := stack_top s - 1\<rparr>))"

definition stack_reset :: "stack_t \<Rightarrow> stack_t" where
  "stack_reset s = s\<lparr>stack_top := 0\<rparr>"

subsection \<open>Invariant and abstraction\<close>

definition wf_stack :: "stack_t \<Rightarrow> bool" where
  "wf_stack s \<longleftrightarrow> length (stack_elems s) = STACK_CAP \<and> stack_top s \<le> STACK_CAP"

definition stack_list :: "stack_t \<Rightarrow> u64 list" where
  "stack_list s = take (stack_top s) (stack_elems s)"

lemma length_stack_list [simp]: "wf_stack s \<Longrightarrow> length (stack_list s) = stack_top s"
  by (simp add: wf_stack_def stack_list_def)

lemma wf_stack_reset: "wf_stack s \<Longrightarrow> wf_stack (stack_reset s)"
  by (simp add: wf_stack_def stack_reset_def)

lemma stack_list_reset [simp]: "stack_list (stack_reset s) = []"
  by (simp add: stack_list_def stack_reset_def)

lemma stack_push_eq:
  assumes "wf_stack s"
  shows "stack_push s e = (if stack_top s = STACK_CAP then Inl (AssertFail ''stack->top < STACK_CAP'')
     else if e \<in> set (stack_list s) then Inr s
     else Inr (s\<lparr>stack_elems := (stack_elems s)[stack_top s := e], stack_top := stack_top s + 1\<rparr>))"
  using assms by (auto simp: stack_push_def stack_list_def wf_stack_def)

interpretation wstack: work_stack stack_push stack_pop stack_list wf_stack
proof unfold_locales
  fix s e s'
  assume a: "wf_stack s" "stack_push s e = Inr s'"
  show "stack_list s' = (if e \<in> set (stack_list s) then stack_list s else stack_list s @ [e])"
    using a by (auto simp: stack_push_eq stack_list_def wf_stack_def take_Suc_conv_app_nth
        split: if_splits)
  show "wf_stack s'"
    using a by (auto simp: stack_push_eq wf_stack_def split: if_splits)
next
  fix s e s'
  assume a: "wf_stack s"
  then show "stack_pop s = None \<longleftrightarrow> stack_list s = []"
    by (auto simp: stack_pop_def stack_list_def wf_stack_def STACK_CAP_def)
  assume p: "stack_pop s = Some (e, s')"
  then obtain n where n: "stack_top s = Suc n" by (cases "stack_top s") (auto simp: stack_pop_def)
  with a p show "stack_list s = stack_list s' @ [e]"
    by (auto simp: stack_pop_def stack_list_def wf_stack_def take_Suc_conv_app_nth)
  from a p show "wf_stack s'" by (auto simp: stack_pop_def wf_stack_def split: if_splits)
qed

subsection \<open>Properties of the work stack\<close>

text \<open>
  C20. The work stack is last-in first-out without duplicates: a successful push adds a new
  element on top or leaves the stack alone if it is already there, and pop returns the top.
\<close>
theorem stack_correct:
  "wf_stack s \<Longrightarrow> stack_push s e = Inr s' \<Longrightarrow>
   wf_stack s' \<and> stack_list s' = (if e \<in> set (stack_list s) then stack_list s else stack_list s @ [e]) \<and>
   (e \<notin> set (stack_list s) \<longrightarrow> (\<exists>t. stack_pop s' = Some (e, t) \<and> stack_list t = stack_list s))"
  using wstack.push_elems [of s e s'] wstack.push_inv [of s e s'] wstack.push_pop_fresh [of s e s'] by blast

lemma stack_correct_witness:
  "stack_list \<lparr>stack_top = 1, stack_elems = (replicate 256 0)[0 := 9]\<rparr> = [9]"
proof -
  have w: "wf_stack \<lparr>stack_top = 0, stack_elems = replicate 256 0\<rparr>" by (simp add: wf_stack_def STACK_CAP_def)
  have p: "stack_push \<lparr>stack_top = 0, stack_elems = replicate 256 0\<rparr> 9 =
      Inr \<lparr>stack_top = 1, stack_elems = (replicate 256 0)[0 := 9]\<rparr>"
    by (simp add: stack_push_def STACK_CAP_def)
  from stack_correct [OF w p] show ?thesis by (simp add: stack_list_def)
qed

end
