(* ===== verification/Hash_Set.thy ===== *)
theory Hash_Set
  imports Probing Interfaces
begin

text \<open>
  \<^verbatim>\<open>src/set.c\<close>: the set of program counters already translated, a table of 32768 slots with
  linear probing. \<^verbatim>\<open>set_add\<close> is shown to be set insertion that reports novelty, to keep the
  table well formed, and to succeed while at most 32 slots are in use; \<^verbatim>\<open>set_has\<close> never
  advances its index, so it does not return when the first slot holds another element.
\<close>

subsection \<open>Operations\<close>

definition SET_SIZE :: nat where
  "SET_SIZE = 32 * 1024"

record set_t =
  set_table :: "u64 list"

definition set_hash :: "u64 \<Rightarrow> nat" where
  "set_hash elem = unat elem mod SET_SIZE"

partial_function (option) set_has_loop :: "set_t \<Rightarrow> u64 \<Rightarrow> nat \<Rightarrow> bool option" where
  "set_has_loop s elem index =
     (if set_table s ! index \<noteq> 0
      then if set_table s ! index = elem then Some True else set_has_loop s elem index
      else Some False)"

text \<open>\<^const>\<open>None\<close> is a call that does not return.\<close>

definition set_has :: "set_t \<Rightarrow> u64 \<Rightarrow> bool result option" where
  "set_has s elem =
     (if elem = 0 then Some (Inl (AssertFail ''elem != 0''))
      else map_option Inr (set_has_loop s elem (set_hash elem)))"

definition set_add :: "set_t \<Rightarrow> u64 \<Rightarrow> (bool \<times> set_t) result" where
  "set_add s elem =
     bindE (assertE ''elem != 0'' (elem \<noteq> 0)) (\<lambda>_.
     bindE (probe SET_SIZE (\<lambda>i. set_table s ! i) elem (set_hash elem) 0) (\<lambda>index.
       if set_table s ! index = elem then Inr (False, s)
       else Inr (True, s\<lparr>set_table := (set_table s)[index := elem]\<rparr>)))"

definition set_reset :: "set_t \<Rightarrow> set_t" where
  "set_reset s = s\<lparr>set_table := replicate SET_SIZE 0\<rparr>"

subsection \<open>Invariant and abstraction\<close>

abbreviation set_keys :: "set_t \<Rightarrow> nat \<Rightarrow> u64" where
  "set_keys s \<equiv> (!) (set_table s)"

definition wf_set :: "set_t \<Rightarrow> bool" where
  "wf_set s \<longleftrightarrow> length (set_table s) = SET_SIZE \<and> probe_inv SET_SIZE (set_keys s)"

definition set_elems :: "set_t \<Rightarrow> u64 set" where
  "set_elems s = set (set_table s) - {0}"

lemma SET_SIZE_pos [simp]: "0 < SET_SIZE"
  by (simp add: SET_SIZE_def)

lemma in_set_elems:
  "wf_set s \<Longrightarrow> e \<in> set_elems s \<longleftrightarrow> e \<noteq> 0 \<and> (\<exists>i<SET_SIZE. set_keys s i = e)"
  by (auto simp: set_elems_def wf_set_def in_set_conv_nth)

lemma set_keys_update:
  "wf_set s \<Longrightarrow> j < SET_SIZE \<Longrightarrow> probe_inv SET_SIZE ((set_keys s)(j := e)) \<Longrightarrow>
   wf_set (s\<lparr>set_table := (set_table s)[j := e]\<rparr>)"
proof -
  assume a: "wf_set s" "j < SET_SIZE" "probe_inv SET_SIZE ((set_keys s)(j := e))"
  then have "set_keys (s\<lparr>set_table := (set_table s)[j := e]\<rparr>) = (set_keys s)(j := e)"
    by (auto simp: wf_set_def fun_eq_iff nth_list_update)
  with a show ?thesis by (simp add: wf_set_def del: fun_upd_apply)
qed

lemma wf_set_reset: "wf_set (set_reset s)"
  by (simp add: wf_set_def set_reset_def probe_inv_def)

lemma set_elems_reset [simp]: "set_elems (set_reset s) = {}"
  by (simp add: set_elems_def set_reset_def)

lemma set_add_present:
  assumes "wf_set s" and "e \<in> set_elems s"
  shows "set_add s e = Inr (False, s)"
proof -
  from assms obtain i where i: "i < SET_SIZE" "set_keys s i = e" "e \<noteq> 0"
    by (auto simp: in_set_elems)
  with assms(1) have "probe SET_SIZE (set_keys s) e (unat e mod SET_SIZE) 0 = Inr i"
    by (simp add: wf_set_def probe_hit)
  with i show ?thesis by (simp add: set_add_def set_hash_def)
qed

lemma set_add_absent:
  assumes wf: "wf_set s" and r: "set_add s e = Inr (b, s')" and "e \<notin> set_elems s"
  shows "b \<and> wf_set s' \<and> set_elems s' = insert e (set_elems s)"
proof -
  from r obtain j where e: "e \<noteq> 0"
    and pr: "probe SET_SIZE (set_keys s) e (unat e mod SET_SIZE) 0 = Inr j"
    and res: "(if set_keys s j = e then (False, s)
       else (True, s\<lparr>set_table := (set_table s)[j := e]\<rparr>)) = (b, s')"
    by (auto simp: set_add_def set_hash_def bindE_eq_Inr assertE_eq_Inr split: if_splits)
  from probe_hit_or_empty [OF pr] have j: "j < SET_SIZE" by simp
  with assms(1,3) e probe_hit_or_empty [OF pr] have z: "set_keys s j = 0"
    by (auto simp: in_set_elems)
  with res e have bs: "b" "s' = s\<lparr>set_table := (set_table s)[j := e]\<rparr>" by auto
  from wf pr e have "probe_inv SET_SIZE ((set_keys s)(j := e))"
    by (intro probe_inv_insert) (auto simp: wf_set_def)
  from set_keys_update [OF wf j this] bs(2) have wf': "wf_set s'" by simp
  have "x \<in> set_elems s' \<longleftrightarrow> x \<in> insert e (set_elems s)" for x
    using wf wf' bs(2) j z e
    by (auto simp: in_set_elems nth_list_update wf_set_def)
  with bs(1) wf' show ?thesis by blast
qed

text \<open>The visited-set contract holds of \<^verbatim>\<open>set_add\<close>.\<close>

lemma set_add_Inr:
  assumes "wf_set s" and "set_add s e = Inr (b, s')"
  shows "(b \<longleftrightarrow> e \<notin> set_elems s) \<and> set_elems s' = insert e (set_elems s) \<and> wf_set s'"
proof (cases "e \<in> set_elems s")
  case True
  with set_add_present [OF assms(1) True] assms show ?thesis by auto
next
  case False
  with set_add_absent [OF assms False] show ?thesis by simp
qed

interpretation hset: visited_set set_add set_elems wf_set
proof (unfold_locales, goal_cases)
  case (1 s e b s')
  from set_add_Inr [OF 1] show ?case by blast
next
  case (2 s e b s')
  from set_add_Inr [OF 2] show ?case by blast
next
  case (3 s e b s')
  from set_add_Inr [OF 3] show ?case by blast
next
  case (4 s e)
  then show ?case by (rule set_add_present)
qed

lemma card_set_keys:
  assumes "wf_set s"
  shows "card {j. j < SET_SIZE \<and> set_keys s j \<noteq> 0} = card (set_elems s)"
proof (rule bij_betw_same_card [of "set_keys s"])
  show "bij_betw (set_keys s) {j. j < SET_SIZE \<and> set_keys s j \<noteq> 0} (set_elems s)"
    unfolding bij_betw_def
  proof
    show "inj_on (set_keys s) {j. j < SET_SIZE \<and> set_keys s j \<noteq> 0}"
      using assms probe_inv_unique [of SET_SIZE "set_keys s"]
      by (auto simp: wf_set_def inj_on_def)
    show "set_keys s ` {j. j < SET_SIZE \<and> set_keys s j \<noteq> 0} = set_elems s"
      using in_set_elems [OF assms] by auto
  qed
qed

lemma set_add_room:
  assumes "wf_set s" and "e \<noteq> 0" and "card (set_elems s) \<le> MAX_SEARCH_COUNT"
  shows "\<exists>b s'. set_add s e = Inr (b, s')"
proof -
  have "MAX_SEARCH_COUNT < SET_SIZE" by (simp add: MAX_SEARCH_COUNT_def SET_SIZE_def)
  with probe_room [of SET_SIZE "set_keys s" e] card_set_keys [OF assms(1)] assms(3)
  obtain j where "probe SET_SIZE (set_keys s) e (unat e mod SET_SIZE) 0 = Inr j" by auto
  with assms(2) show ?thesis by (auto simp: set_add_def set_hash_def)
qed

subsection \<open>\<^verbatim>\<open>set_has\<close>\<close>

lemma set_has_loop_returns:
  assumes "set_has_loop s e i = Some b"
  shows "set_keys s i = 0 \<or> set_keys s i = e"
proof (rule set_has_loop.raw_induct [where P = "\<lambda>s e i b. set_keys s i = 0 \<or> set_keys s i = e",
      OF _ assms])
  fix f s e i b
  assume IH: "\<And>s e i b. f s e i = Some b \<Longrightarrow> set_keys s i = 0 \<or> set_keys s i = e"
    and eq: "(if set_keys s i \<noteq> 0 then if set_keys s i = e then Some True else f s e i
       else Some False) = Some b"
  then show "set_keys s i = 0 \<or> set_keys s i = e" by (metis (full_types))
qed

lemma set_has_first_slot:
  assumes "e \<noteq> 0"
  shows "set_has s e = (if set_keys s (set_hash e) = e then Some (Inr True)
     else if set_keys s (set_hash e) = 0 then Some (Inr False) else None)"
proof -
  consider "set_keys s (set_hash e) = e" | "set_keys s (set_hash e) = 0"
    | "set_keys s (set_hash e) \<notin> {0, e}" by blast
  then show ?thesis
  proof cases
    case 3
    then have "set_has_loop s e (set_hash e) = None"
      using set_has_loop_returns [of s e "set_hash e"] by (cases "set_has_loop s e (set_hash e)") auto
    with 3 assms show ?thesis by (simp add: set_has_def)
  qed (use assms in \<open>simp_all add: set_has_def set_has_loop.simps\<close>)
qed

subsection \<open>Properties of the visited set\<close>

text \<open>
  C16. \<^verbatim>\<open>set_add\<close> is insertion into a set of non-zero program counters: it reports whether the
  element was new, and keeps every element reachable by its probe sequence.
\<close>
theorem set_add_correct:
  "wf_set s \<Longrightarrow> set_add s e = Inr (b, s') \<Longrightarrow>
   (b \<longleftrightarrow> e \<notin> set_elems s) \<and> set_elems s' = insert e (set_elems s) \<and> wf_set s'"
  by (rule set_add_Inr)

lemma set_add_fresh:
  "set_add (set_reset s) 4096 = Inr (True, (set_reset s)\<lparr>set_table := (replicate SET_SIZE 0)[4096 := 4096]\<rparr>)"
  by (simp add: set_add_def set_reset_def set_hash_def probe.simps SET_SIZE_def)

lemma set_add_correct_witness:
  "set_elems ((set_reset \<lparr>set_table = []\<rparr>)\<lparr>set_table := (replicate SET_SIZE 0)[4096 := 4096]\<rparr>) = {4096}"
  using set_add_correct [OF wf_set_reset set_add_fresh] by simp

text \<open>
  C23. Adding a program counter cannot hit the probe-limit assertion while at most 32 are in
  the set.
\<close>
theorem set_add_succeeds:
  "wf_set s \<Longrightarrow> e \<noteq> 0 \<Longrightarrow> card (set_elems s) \<le> MAX_SEARCH_COUNT \<Longrightarrow> \<exists>b s'. set_add s e = Inr (b, s')"
  by (rule set_add_room)

lemma set_add_succeeds_witness: "\<exists>b s'. set_add (set_reset \<lparr>set_table = []\<rparr>) 7 = Inr (b, s')"
  by (rule set_add_succeeds) (simp_all add: wf_set_reset)

text \<open>
  C26. \<^verbatim>\<open>set_has\<close> inspects one slot only: it answers from the slot the element hashes to, and does
  not return when that slot holds a different element.
\<close>
theorem set_has_one_slot:
  "e \<noteq> 0 \<Longrightarrow> set_has s e = (if set_table s ! set_hash e = e then Some (Inr True)
     else if set_table s ! set_hash e = 0 then Some (Inr False) else None)"
  by (rule set_has_first_slot)

lemma set_has_one_slot_witness:
  "set_has \<lparr>set_table = (replicate SET_SIZE 0)[1 := 1]\<rparr> (of_nat SET_SIZE + 1) = None"
proof -
  have e: "(of_nat SET_SIZE + 1 :: u64) = 32769" "set_hash 32769 = 1"
    by (simp_all add: SET_SIZE_def set_hash_def)
  have "1 < SET_SIZE" by (simp add: SET_SIZE_def)
  then have "set_has \<lparr>set_table = (replicate SET_SIZE 0)[1 := 1]\<rparr> 32769 = None"
    by (subst set_has_one_slot) (simp_all add: e)
  then show ?thesis by (simp only: e)
qed

end
