(* ===== verification/Str_Buf.thy ===== *)
theory Str_Buf
  imports Interfaces
begin

text \<open>
  \<^verbatim>\<open>src/str.c\<close> and the string part of \<^verbatim>\<open>inc/riscvemu.h\<close>: the growing text buffer the code
  generator writes into. \<^verbatim>\<open>str_t\<close> points behind a header with the length and the capacity; the
  model is the header together with the bytes the allocation holds behind it. \<^verbatim>\<open>str_new\<close> allocates
  the header only, so there is no byte yet even for the terminator. A write outside the
  allocation is \<^const>\<open>Undefined\<close>. Host allocation is taken to succeed, and the bytes
  \<^verbatim>\<open>realloc\<close> adds are arbitrary: they are an argument of the operations that call it.
\<close>

subsection \<open>Operations\<close>

definition STR_MAX_PREALLOC :: u64 where
  "STR_MAX_PREALLOC = 1024 * 1024"

record strhdr_t =
  str_hlen :: u64
  str_halloc :: u64
  str_hbuf :: string

definition str_new :: strhdr_t where
  "str_new = \<lparr>str_hlen = 0, str_halloc = 0, str_hbuf = []\<rparr>"

definition str_len :: "strhdr_t \<Rightarrow> u64" where
  "str_len s = str_hlen s"

definition str_avail :: "strhdr_t \<Rightarrow> u64" where
  "str_avail s = str_halloc s - str_hlen s"

text \<open>\<^verbatim>\<open>memcpy(str + at, t, len)\<close> and \<^verbatim>\<open>str[at] = c\<close>\<close>

definition str_poke :: "strhdr_t \<Rightarrow> nat \<Rightarrow> string \<Rightarrow> strhdr_t result" where
  "str_poke s at t =
     (if at + length t \<le> length (str_hbuf s)
      then Inr (s\<lparr>str_hbuf := take at (str_hbuf s) @ t @ drop (at + length t) (str_hbuf s)\<rparr>)
      else Inl (Undefined ''write outside the string buffer''))"

definition str_realloc :: "string \<Rightarrow> strhdr_t \<Rightarrow> nat \<Rightarrow> strhdr_t" where
  "str_realloc junk s n = s\<lparr>str_hbuf := take n (str_hbuf s @ junk @ replicate n (CHR 0x00))\<rparr>"

definition str_make_room :: "string \<Rightarrow> strhdr_t \<Rightarrow> u64 \<Rightarrow> strhdr_t result" where
  "str_make_room junk s addlen =
     (if str_avail s \<ge> addlen then Inr s
      else
        let curlen = str_len s; newlen = curlen + addlen in
        bindE (assertE ''newlen > curlen'' (newlen > curlen)) (\<lambda>_.
        let newlen = (if newlen < STR_MAX_PREALLOC then newlen * 2 else newlen + STR_MAX_PREALLOC) in
        Inr ((str_realloc junk s (unat newlen + 1))\<lparr>str_halloc := newlen\<rparr>)))"

definition str_setlen :: "strhdr_t \<Rightarrow> u64 \<Rightarrow> strhdr_t" where
  "str_setlen s newlen = s\<lparr>str_hlen := newlen\<rparr>"

definition str_append :: "string \<Rightarrow> strhdr_t \<Rightarrow> string \<Rightarrow> strhdr_t result" where
  "str_append junk s t =
     (let len = of_nat (length t) in
      bindE (str_make_room junk s len) (\<lambda>s.
      let curlen = str_len s in
      bindE (str_poke s (unat curlen) t) (\<lambda>s.
      let s = str_setlen s (curlen + len) in
      str_poke s (unat (curlen + len)) [CHR 0x00])))"

definition str_clear :: "strhdr_t \<Rightarrow> strhdr_t result" where
  "str_clear s = str_poke (str_setlen s 0) 0 [CHR 0x00]"

subsection \<open>Invariant and abstraction\<close>

text \<open>
  A buffer is either fresh, with no room at all, or has room for its capacity and a
  terminator, and is terminated at its length.
\<close>

definition wf_str :: "strhdr_t \<Rightarrow> bool" where
  "wf_str s \<longleftrightarrow> s = str_new \<or>
     (length (str_hbuf s) = unat (str_halloc s) + 1 \<and> str_hlen s \<le> str_halloc s \<and>
      str_hbuf s ! unat (str_hlen s) = CHR 0x00)"

definition str_text :: "strhdr_t \<Rightarrow> string" where
  "str_text s = take (unat (str_hlen s)) (str_hbuf s)"

definition room :: "strhdr_t \<Rightarrow> bool" where
  "room s \<longleftrightarrow> length (str_hbuf s) = unat (str_halloc s) + 1 \<and> str_hlen s \<le> str_halloc s"

lemma wf_str_new [simp]: "wf_str str_new"
  by (simp add: wf_str_def)

lemma wf_str_room: "wf_str s \<Longrightarrow> s \<noteq> str_new \<Longrightarrow> room s"
  by (auto simp: wf_str_def room_def)

lemma str_text_new [simp]: "str_text str_new = []"
  by (simp add: str_text_def str_new_def)

lemma room_len: "room s \<Longrightarrow> unat (str_hlen s) + unat (str_avail s) = unat (str_halloc s)"
  by (simp add: room_def str_avail_def unat_sub word_le_nat_alt)

lemma str_text_length: "room s \<Longrightarrow> length (str_text s) = unat (str_hlen s)"
  by (simp add: room_def str_text_def word_le_nat_alt)

subsection \<open>Making room\<close>

text \<open>The capacity chosen for a wanted length below 2^62 neither wraps nor is too small.\<close>

definition grown :: "u64 \<Rightarrow> u64" where
  "grown n = (if n < STR_MAX_PREALLOC then n * 2 else n + STR_MAX_PREALLOC)"

lemma unat_grown:
  assumes "unat n < 2 ^ 62"
  shows "unat (grown n) = (if unat n < 2 ^ 20 then unat n * 2 else unat n + 2 ^ 20)"
proof (cases "n < STR_MAX_PREALLOC")
  case True
  then have "unat n < 2 ^ 20" by (simp add: STR_MAX_PREALLOC_def word_less_nat_alt)
  with True show ?thesis by (simp add: grown_def unat_word_ariths)
next
  case False
  then have "\<not> unat n < 2 ^ 20" by (simp add: STR_MAX_PREALLOC_def word_less_nat_alt)
  with False assms show ?thesis by (simp add: grown_def unat_word_ariths STR_MAX_PREALLOC_def)
qed

lemma str_make_room_ok:
  assumes "wf_str s" and "t \<noteq> []" and lt: "unat (str_hlen s) + length t < 2 ^ 62"
  shows "\<exists>s'. str_make_room junk s (of_nat (length t)) = Inr s' \<and> room s' \<and>
     str_hlen s' = str_hlen s \<and> str_text s' = str_text s \<and>
     unat (str_hlen s) + length t \<le> unat (str_halloc s')"
proof (cases "str_avail s \<ge> of_nat (length t)")
  case True
  have l: "unat (of_nat (length t) :: u64) = length t" using lt by (simp add: unat_of_nat)
  have "s \<noteq> str_new"
  proof
    assume "s = str_new"
    with True l assms(2) show False by (simp add: str_avail_def str_new_def word_le_nat_alt)
  qed
  with assms(1) have r: "room s" by (rule wf_str_room)
  with room_len [OF r] True l show ?thesis
    by (auto simp: str_make_room_def word_le_nat_alt)
next
  case False
  define n where "n = str_hlen s + of_nat (length t)"
  have un: "unat n = unat (str_hlen s) + length t"
    using lt by (simp add: n_def unat_word_ariths unat_of_nat)
  with lt have g: "unat (grown n) = (if unat n < 2 ^ 20 then unat n * 2 else unat n + 2 ^ 20)"
    by (intro unat_grown) simp
  define s' where "s' = (str_realloc junk s (unat (grown n) + 1))\<lparr>str_halloc := grown n\<rparr>"
  have gt: "n > str_hlen s" using un assms(2) by (simp add: word_less_nat_alt)
  have "str_make_room junk s (of_nat (length t)) = Inr s'"
    using False gt by (simp add: str_make_room_def s'_def grown_def n_def str_len_def Let_def)
  moreover have le: "unat n \<le> unat (grown n)" using g by auto
  then have "room s'"
    using un by (simp add: s'_def room_def str_realloc_def word_le_nat_alt)
  moreover have "unat (str_hlen s) \<le> length (str_hbuf s)"
    using assms(1) by (auto simp: wf_str_def str_new_def word_le_nat_alt)
  then have "str_text s' = str_text s"
    using le un by (simp add: s'_def str_text_def str_realloc_def min_def)
  ultimately show ?thesis
    using le un by (simp add: s'_def str_realloc_def)
qed

subsection \<open>Appending\<close>

lemma str_append_ok:
  assumes "wf_str s" and "t \<noteq> []" and lt: "length (str_text s) + length t < 2 ^ 62"
  shows "\<exists>s'. str_append junk s t = Inr s' \<and> wf_str s' \<and> str_text s' = str_text s @ t"
proof -
  have lens: "length (str_text s) = unat (str_hlen s)"
    using assms(1) wf_str_room [of s] str_text_length [of s]
    by (cases "s = str_new") (simp_all add: str_new_def str_text_def)
  with lt obtain s1 where s1: "str_make_room junk s (of_nat (length t)) = Inr s1" "room s1"
      "str_hlen s1 = str_hlen s" "str_text s1 = str_text s"
      "unat (str_hlen s) + length t \<le> unat (str_halloc s1)"
    using str_make_room_ok [OF assms(1,2)] by metis
  define n where "n = str_hlen s + of_nat (length t)"
  have un: "unat n = unat (str_hlen s) + length t"
    using lt lens by (simp add: n_def unat_word_ariths unat_of_nat)
  from s1(2) have len1: "length (str_hbuf s1) = unat (str_halloc s1) + 1" by (simp add: room_def)
  define b where "b = str_text s @ t @ [CHR 0x00] @ drop (unat n + 1) (str_hbuf s1)"
  define u where "u = str_hbuf s1"
  have u: "length u = unat (str_halloc s1) + 1" "take (unat (str_hlen s)) u = str_text s"
    using len1 s1(3,4) by (simp_all add: u_def str_text_def)
  have "str_poke s1 (unat (str_hlen s)) t =
      Inr (s1\<lparr>str_hbuf := str_text s @ t @ drop (unat n) u\<rparr>)"
    using s1(5) len1 u(2) by (simp add: str_poke_def un u_def)
  moreover have "str_poke (s1\<lparr>str_hbuf := str_text s @ t @ drop (unat n) u, str_hlen := n\<rparr>) (unat n) [CHR 0x00] =
      Inr (s1\<lparr>str_hbuf := b, str_hlen := n\<rparr>)"
    using s1(5) u(1) un lens by (simp add: str_poke_def b_def u_def)
  ultimately have "str_append junk s t = Inr (s1\<lparr>str_hbuf := b, str_hlen := n\<rparr>)"
    using s1(1,3) by (simp add: str_append_def str_len_def str_setlen_def Let_def n_def)
  moreover have "wf_str (s1\<lparr>str_hbuf := b, str_hlen := n\<rparr>)"
    using s1(5) len1 un lens by (simp add: wf_str_def b_def word_le_nat_alt nth_append)
  moreover have "str_text (s1\<lparr>str_hbuf := b, str_hlen := n\<rparr>) = str_text s @ t"
    using un lens by (simp add: str_text_def b_def)
  ultimately show ?thesis by blast
qed

interpretation strbuf: text_buffer str_append str_text wf_str "2 ^ 62"
proof
  fix s :: strhdr_t and t j :: string
  assume "wf_str s" "t \<noteq> []" "length (str_text s) + length t < 2 ^ 62"
  then show "\<exists>s'. str_append j s t = Inr s' \<and> wf_str s' \<and> str_text s' = str_text s @ t"
    by (rule str_append_ok)
qed

lemma str_clear_ok:
  assumes "wf_str s" and "s \<noteq> str_new"
  shows "\<exists>s'. str_clear s = Inr s' \<and> wf_str s' \<and> str_text s' = [] \<and> str_halloc s' = str_halloc s"
proof -
  from wf_str_room [OF assms] have "length (str_hbuf s) = unat (str_halloc s) + 1"
    by (simp add: room_def)
  then show ?thesis
    by (simp add: str_clear_def str_poke_def str_setlen_def wf_str_def str_text_def)
qed

subsection \<open>Properties of the text buffer\<close>

text \<open>
  C34. Appending any sequence of non-empty pieces never writes outside the buffer, whatever
  bytes reallocation brings, and leaves the concatenation of the pieces, NUL-terminated, while
  the whole text stays below 2^62 bytes.
\<close>
theorem str_append_all:
  "wf_str s \<Longrightarrow> \<forall>p\<in>set ps. snd p \<noteq> [] \<Longrightarrow> length (str_text s) + length (concat (map snd ps)) < 2 ^ 62 \<Longrightarrow>
   \<exists>s'. append_all str_append s ps = Inr s' \<and> wf_str s' \<and> str_text s' = str_text s @ concat (map snd ps)"
  by (rule strbuf.append_all_ok)

lemma str_append_all_witness:
  "\<exists>s'. append_all str_append str_new [([], ''end:;''), (''x'', ''}'')] = Inr s' \<and> str_text s' = ''end:;}''"
  using str_append_all [of str_new "[([], ''end:;''), (''x'', ''}'')]"] by auto

text \<open>
  C39. Clearing a buffer that has been written keeps its capacity and empties it. A fresh
  buffer has no byte for the terminator: clearing it, or appending an empty piece, writes outside
  its allocation.
\<close>
theorem str_clear_correct:
  "(wf_str s \<and> s \<noteq> str_new \<longrightarrow>
     (\<exists>s'. str_clear s = Inr s' \<and> wf_str s' \<and> str_text s' = [] \<and> str_halloc s' = str_halloc s)) \<and>
   str_clear str_new = Inl (Undefined ''write outside the string buffer'') \<and>
   str_append junk str_new [] = Inl (Undefined ''write outside the string buffer'')"
  using str_clear_ok [of s]
  by (simp add: str_clear_def str_append_def str_make_room_def str_poke_def str_new_def str_setlen_def
      str_len_def str_avail_def Let_def)

lemma str_clear_correct_witness:
  "\<exists>s'. str_clear \<lparr>str_hlen = 1, str_halloc = 2, str_hbuf = ''a'' @ [CHR 0x00, CHR 0x00]\<rparr> = Inr s' \<and>
     str_text s' = []"
  using str_clear_correct [of "\<lparr>str_hlen = 1, str_halloc = 2, str_hbuf = ''a'' @ [CHR 0x00, CHR 0x00]\<rparr>"]
  by (auto simp: wf_str_def str_new_def)

end
