(* ===== verification/Codegen.thy ===== *)
theory Codegen
  imports C_Text Interpret Work_Stack Hash_Set Str_Buf
begin

unbundle bit_operations_syntax

text \<open>
  \<^verbatim>\<open>src/codegen.c\<close>: the translation of a hot block into C text. A handler per instruction appends
  statements to the text \<^verbatim>\<open>s\<close>, records the registers the instruction touches in the tracer and pushes
  branch targets on the stack; \<^verbatim>\<open>machine_genblock\<close> visits every instruction reachable by direct
  control flow once and wraps the text in a function that loads the traced registers into local
  variables and stores them back. The text under construction is the list of statements of
  \<open>C_Text\<close>, which prints as the characters the file writes. The handlers have the names of the
  file with the prefix \<open>cg_\<close>, since the interpreter uses the same names.
\<close>

named_theorems cg_defs \<open>the handlers of the code generator\<close>
named_theorems emit_defs \<open>the macros that append statements\<close>

subsection \<open>Tracing register usage\<close>

record tracer_t =
  tr_gp_reg :: "bool list"
  tr_fp_reg :: "bool list"

definition tracer_reset :: tracer_t where
  "tracer_reset = \<lparr>tr_gp_reg = replicate num_gp_regs False, tr_fp_reg = replicate num_fp_regs False\<rparr>"

definition tracer_add_gp_reg_usage :: "tracer_t \<Rightarrow> i8 list \<Rightarrow> tracer_t" where
  "tracer_add_gp_reg_usage t regs = t\<lparr>tr_gp_reg := fold (\<lambda>n bs. bs[unat n := True]) regs (tr_gp_reg t)\<rparr>"

definition tracer_add_fp_reg_usage :: "tracer_t \<Rightarrow> i8 list \<Rightarrow> tracer_t" where
  "tracer_add_fp_reg_usage t regs = t\<lparr>tr_fp_reg := fold (\<lambda>n bs. bs[unat n := True]) regs (tr_fp_reg t)\<rparr>"

text \<open>The declarations and the write-back, one piece per traced register.\<close>

definition tracer_append_prologue :: "tracer_t \<Rightarrow> string list" where
  "tracer_append_prologue t =
     map (\<lambda>i. ''    uint64_t x'' @ dec_nat i @ '' = state->gp_regs['' @ dec_nat i @ ''];'' @ nl)
       (filter (\<lambda>i. tr_gp_reg t ! i) [1..<num_gp_regs]) @
     map (\<lambda>i. ''    fp_reg_t f'' @ dec_nat i @ '' = state->fp_regs['' @ dec_nat i @ ''];'' @ nl)
       (filter (\<lambda>i. tr_fp_reg t ! i) [0..<num_fp_regs])"

definition tracer_append_epilogue :: "tracer_t \<Rightarrow> string list" where
  "tracer_append_epilogue t =
     map (\<lambda>i. ''    state->gp_regs['' @ dec_nat i @ ''] = x'' @ dec_nat i @ '';'' @ nl)
       (filter (\<lambda>i. tr_gp_reg t ! i) [1..<num_gp_regs]) @
     map (\<lambda>i. ''    state->fp_regs['' @ dec_nat i @ ''] = f'' @ dec_nat i @ '';'' @ nl)
       (filter (\<lambda>i. tr_fp_reg t ! i) [0..<num_fp_regs])"

subsection \<open>Emitting statements\<close>

definition REG_SET_VAL :: "i8 \<Rightarrow> u64 \<Rightarrow> stmt list \<Rightarrow> stmt list" where [emit_defs]:
  "REG_SET_VAL reg val s = (if reg \<noteq> 0 then s @ [SetX (unat reg) (LL val)] else s)"

definition REG_SET_EXPR :: "i8 \<Rightarrow> cexpr \<Rightarrow> stmt list \<Rightarrow> stmt list" where [emit_defs]:
  "REG_SET_EXPR reg expr s = (if reg \<noteq> 0 then s @ [SetX (unat reg) expr] else s)"

definition REG_GET :: "i8 \<Rightarrow> string \<Rightarrow> stmt list \<Rightarrow> stmt list" where [emit_defs]:
  "REG_GET reg name s = s @ [GetX name (unat reg)]"

definition FREG_SET_EXPR :: "i8 \<Rightarrow> cexpr \<Rightarrow> ffield \<Rightarrow> stmt list \<Rightarrow> stmt list" where [emit_defs]:
  "FREG_SET_EXPR reg expr fld s = s @ [SetF (unat reg) fld expr]"

definition FREG_GET :: "i8 \<Rightarrow> string \<Rightarrow> ctype \<Rightarrow> ffield \<Rightarrow> stmt list \<Rightarrow> stmt list" where [emit_defs]:
  "FREG_GET reg name typ fld s = s @ [GetF typ name (unat reg) fld]"

definition MEM_LOAD :: "cexpr \<Rightarrow> ctype \<Rightarrow> string \<Rightarrow> stmt list \<Rightarrow> stmt list" where [emit_defs]:
  "MEM_LOAD addr typ name s = s @ [Load typ name addr]"

definition MEM_STORE :: "cexpr \<Rightarrow> ctype \<Rightarrow> string \<Rightarrow> stmt list \<Rightarrow> stmt list" where [emit_defs]:
  "MEM_STORE addr typ data s = s @ [Store typ addr data]"

abbreviation (input) v_rs1 :: cexpr where "v_rs1 \<equiv> Var ''rs1''"
abbreviation (input) v_rs2 :: cexpr where "v_rs2 \<equiv> Var ''rs2''"
abbreviation (input) v_rs3 :: cexpr where "v_rs3 \<equiv> Var ''rs3''"
abbreviation (input) v_rd :: cexpr where "v_rd \<equiv> Var ''rd''"

subsection \<open>The \<^verbatim>\<open>FUNC\<close> macros\<close>

type_synonym cg_func_t =
  "stmt list \<Rightarrow> insn_t \<Rightarrow> tracer_t \<Rightarrow> stack_t \<Rightarrow> u64 \<Rightarrow> (stmt list \<times> insn_t \<times> tracer_t \<times> stack_t) result"

text \<open>\<^verbatim>\<open>rs1 + (int64_t)%ldLL\<close>\<close>

definition addr_expr :: "insn_t \<Rightarrow> cexpr" where [emit_defs]:
  "addr_expr insn = Bin Add v_rs1 (Cast I64 (LL (imm64 insn)))"

definition cg_FUNC_load :: "ctype \<Rightarrow> cg_func_t" where [emit_defs]:
  "cg_FUNC_load typ s insn tracer stack p =
     (let s = REG_GET (insn_rs1 insn) ''rs1'' s;
          s = MEM_LOAD (addr_expr insn) typ ''rd'' s;
          s = REG_SET_EXPR (insn_rd insn) v_rd s;
          tracer = tracer_add_gp_reg_usage tracer [insn_rs1 insn, insn_rd insn]
      in Inr (s, insn, tracer, stack))"

definition cg_FUNC_imm :: "(insn_t \<Rightarrow> cexpr) \<Rightarrow> cg_func_t" where [emit_defs]:
  "cg_FUNC_imm expr s insn tracer stack p =
     (let s = REG_GET (insn_rs1 insn) ''rs1'' s;
          s = REG_SET_EXPR (insn_rd insn) (expr insn) s;
          tracer = tracer_add_gp_reg_usage tracer [insn_rs1 insn, insn_rd insn]
      in Inr (s, insn, tracer, stack))"

definition cg_FUNC_store :: "ctype \<Rightarrow> cg_func_t" where [emit_defs]:
  "cg_FUNC_store typ s insn tracer stack p =
     (let s = REG_GET (insn_rs1 insn) ''rs1'' s;
          s = REG_GET (insn_rs2 insn) ''rs2'' s;
          s = MEM_STORE (addr_expr insn) typ ''rs2'' s;
          tracer = tracer_add_gp_reg_usage tracer [insn_rs1 insn, insn_rs2 insn]
      in Inr (s, insn, tracer, stack))"

definition cg_FUNC_alu :: "cexpr \<Rightarrow> cg_func_t" where [emit_defs]:
  "cg_FUNC_alu expr s insn tracer stack p =
     (let s = REG_GET (insn_rs1 insn) ''rs1'' s;
          s = REG_GET (insn_rs2 insn) ''rs2'' s;
          s = REG_SET_EXPR (insn_rd insn) expr s;
          tracer = tracer_add_gp_reg_usage tracer [insn_rs1 insn, insn_rs2 insn, insn_rd insn]
      in Inr (s, insn, tracer, stack))"

definition cg_FUNC_div :: "stmt \<Rightarrow> cg_func_t" where [emit_defs]:
  "cg_FUNC_div stmt s insn tracer stack p =
     (let s = REG_GET (insn_rs1 insn) ''rs1'' s;
          s = REG_GET (insn_rs2 insn) ''rs2'' s;
          s = s @ [stmt];
          s = REG_SET_EXPR (insn_rd insn) v_rd s;
          tracer = tracer_add_gp_reg_usage tracer [insn_rs1 insn, insn_rs2 insn, insn_rd insn]
      in Inr (s, insn, tracer, stack))"

definition cg_FUNC_branch :: "ctype \<Rightarrow> binop \<Rightarrow> cg_func_t" where [emit_defs]:
  "cg_FUNC_branch typ op s insn tracer stack p =
     (let s = REG_GET (insn_rs1 insn) ''rs1'' s;
          s = REG_GET (insn_rs2 insn) ''rs2'' s;
          target_addr = p + imm64 insn;
          s = s @ [IfGoto (Bin op (Cast typ v_rs1) (Cast typ v_rs2)) target_addr] in
      bindE (stack_push stack target_addr) (\<lambda>stack.
      let tracer = tracer_add_gp_reg_usage tracer [insn_rs1 insn, insn_rs2 insn]
      in Inr (s, insn, tracer, stack)))"

definition cg_FUNC_csr :: cg_func_t where [emit_defs]:
  "cg_FUNC_csr s insn tracer stack p =
     (if insn_csr insn = csr_fflags \<or> insn_csr insn = csr_frm \<or> insn_csr insn = csr_fcsr
      then if insn_rd insn \<noteq> 0
           then Inr (s @ [SetX (unat (insn_rd insn)) (Dec 0)], insn,
             tracer_add_gp_reg_usage tracer [insn_rd insn], stack)
           else Inr (s, insn, tracer, stack)
      else Inl (Fatal ''unsupported csr''))"

definition cg_FUNC_fload :: "ctype \<Rightarrow> cexpr \<Rightarrow> cg_func_t" where [emit_defs]:
  "cg_FUNC_fload typ expr s insn tracer stack p =
     (let s = REG_GET (insn_rs1 insn) ''rs1'' s;
          s = MEM_LOAD (addr_expr insn) typ ''rd'' s;
          s = FREG_SET_EXPR (insn_rd insn) expr Fv s;
          tracer = tracer_add_gp_reg_usage tracer [insn_rs1 insn];
          tracer = tracer_add_fp_reg_usage tracer [insn_rd insn]
      in Inr (s, insn, tracer, stack))"

definition cg_FUNC_fstore :: "ctype \<Rightarrow> cg_func_t" where [emit_defs]:
  "cg_FUNC_fstore typ s insn tracer stack p =
     (let s = REG_GET (insn_rs1 insn) ''rs1'' s;
          s = FREG_GET (insn_rs2 insn) ''rs2'' U64 Fv s;
          s = MEM_STORE (addr_expr insn) typ ''rs2'' s;
          tracer = tracer_add_gp_reg_usage tracer [insn_rs1 insn];
          tracer = tracer_add_fp_reg_usage tracer [insn_rs2 insn]
      in Inr (s, insn, tracer, stack))"

definition cg_FUNC_fma :: "ctype \<Rightarrow> ffield \<Rightarrow> cexpr \<Rightarrow> cg_func_t" where [emit_defs]:
  "cg_FUNC_fma typ fld expr s insn tracer stack p =
     (let s = FREG_GET (insn_rs1 insn) ''rs1'' typ fld s;
          s = FREG_GET (insn_rs2 insn) ''rs2'' typ fld s;
          s = FREG_GET (insn_rs3 insn) ''rs3'' typ fld s;
          s = FREG_SET_EXPR (insn_rd insn) expr fld s;
          tracer = tracer_add_fp_reg_usage tracer [insn_rs1 insn, insn_rs2 insn, insn_rs3 insn, insn_rd insn]
      in Inr (s, insn, tracer, stack))"

definition cg_FUNC_fp :: "ctype \<Rightarrow> ffield \<Rightarrow> cexpr \<Rightarrow> cg_func_t" where [emit_defs]:
  "cg_FUNC_fp typ fld expr s insn tracer stack p =
     (let s = FREG_GET (insn_rs1 insn) ''rs1'' typ fld s;
          s = FREG_GET (insn_rs2 insn) ''rs2'' typ fld s;
          s = FREG_SET_EXPR (insn_rd insn) expr fld s;
          tracer = tracer_add_fp_reg_usage tracer [insn_rs1 insn, insn_rs2 insn, insn_rd insn]
      in Inr (s, insn, tracer, stack))"

definition cg_FUNC_fcmp :: "ctype \<Rightarrow> ffield \<Rightarrow> cexpr \<Rightarrow> cg_func_t" where [emit_defs]:
  "cg_FUNC_fcmp typ fld expr s insn tracer stack p =
     (let s = FREG_GET (insn_rs1 insn) ''rs1'' typ fld s;
          s = FREG_GET (insn_rs2 insn) ''rs2'' typ fld s;
          s = REG_SET_EXPR (insn_rd insn) expr s;
          tracer = tracer_add_gp_reg_usage tracer [insn_rd insn];
          tracer = tracer_add_fp_reg_usage tracer [insn_rs1 insn, insn_rs2 insn]
      in Inr (s, insn, tracer, stack))"

text \<open>The instructions left to the interpreter.\<close>

definition cg_FUNC_interp :: cg_func_t where [emit_defs]:
  "cg_FUNC_interp s insn tracer stack p =
     Inr (s @ [SetExit interp, SetReenter (ULL p), GotoEnd, Close], insn\<lparr>insn_cont := True\<rparr>, tracer, stack)"

text \<open>Handlers written out without a macro: an integer to a floating-point register, back, and between
  two floating-point registers.\<close>

definition cg_x_to_f :: "ffield \<Rightarrow> cexpr \<Rightarrow> cg_func_t" where [emit_defs]:
  "cg_x_to_f fld expr s insn tracer stack p =
     (let s = REG_GET (insn_rs1 insn) ''rs1'' s;
          s = FREG_SET_EXPR (insn_rd insn) expr fld s;
          tracer = tracer_add_gp_reg_usage tracer [insn_rs1 insn];
          tracer = tracer_add_fp_reg_usage tracer [insn_rd insn]
      in Inr (s, insn, tracer, stack))"

definition cg_f_to_x :: "ctype \<Rightarrow> ffield \<Rightarrow> cexpr \<Rightarrow> cg_func_t" where [emit_defs]:
  "cg_f_to_x typ fld expr s insn tracer stack p =
     (let s = FREG_GET (insn_rs1 insn) ''rs1'' typ fld s;
          s = REG_SET_EXPR (insn_rd insn) expr s;
          tracer = tracer_add_gp_reg_usage tracer [insn_rd insn];
          tracer = tracer_add_fp_reg_usage tracer [insn_rs1 insn]
      in Inr (s, insn, tracer, stack))"

definition cg_f_to_f :: "ctype \<Rightarrow> ffield \<Rightarrow> ffield \<Rightarrow> cexpr \<Rightarrow> cg_func_t" where [emit_defs]:
  "cg_f_to_f typ fld fld' expr s insn tracer stack p =
     (let s = FREG_GET (insn_rs1 insn) ''rs1'' typ fld s;
          s = FREG_SET_EXPR (insn_rd insn) expr fld' s;
          tracer = tracer_add_fp_reg_usage tracer [insn_rs1 insn, insn_rd insn]
      in Inr (s, insn, tracer, stack))"

subsection \<open>Handlers\<close>

definition cg_func_empty :: cg_func_t where [cg_defs]: "cg_func_empty s insn tracer stack p = Inr (s, insn, tracer, stack)"
definition cg_func_lb :: cg_func_t where [cg_defs]: "cg_func_lb = cg_FUNC_load I8"
definition cg_func_lh :: cg_func_t where [cg_defs]: "cg_func_lh = cg_FUNC_load I16"
definition cg_func_lw :: cg_func_t where [cg_defs]: "cg_func_lw = cg_FUNC_load I32"
definition cg_func_ld :: cg_func_t where [cg_defs]: "cg_func_ld = cg_FUNC_load I64"
definition cg_func_lbu :: cg_func_t where [cg_defs]: "cg_func_lbu = cg_FUNC_load U8"
definition cg_func_lhu :: cg_func_t where [cg_defs]: "cg_func_lhu = cg_FUNC_load U16"
definition cg_func_lwu :: cg_func_t where [cg_defs]: "cg_func_lwu = cg_FUNC_load U32"
definition cg_func_addi :: cg_func_t where [cg_defs]:
  "cg_func_addi = cg_FUNC_imm (\<lambda>insn. Bin Add v_rs1 (Cast I64 (LL (imm64 insn))))"
definition cg_func_slli :: cg_func_t where [cg_defs]:
  "cg_func_slli = cg_FUNC_imm (\<lambda>insn. Bin Shl v_rs1 (Dec (unat (insn_imm insn AND 0x3f))))"
definition cg_func_slti :: cg_func_t where [cg_defs]:
  "cg_func_slti = cg_FUNC_imm (\<lambda>insn. Cond (Bin Lt (Cast I64 v_rs1) (Cast I64 (LL (imm64 insn)))) (Dec 1) (Dec 0))"
definition cg_func_sltiu :: cg_func_t where [cg_defs]:
  "cg_func_sltiu = cg_FUNC_imm (\<lambda>insn. Cond (Bin Lt v_rs1 (ULL (imm64 insn))) (Dec 1) (Dec 0))"
definition cg_func_xori :: cg_func_t where [cg_defs]:
  "cg_func_xori = cg_FUNC_imm (\<lambda>insn. Bin BXor v_rs1 (LL (imm64 insn)))"
definition cg_func_srli :: cg_func_t where [cg_defs]:
  "cg_func_srli = cg_FUNC_imm (\<lambda>insn. Bin Shr v_rs1 (Dec (unat (insn_imm insn AND 0x3f))))"
definition cg_func_srai :: cg_func_t where [cg_defs]:
  "cg_func_srai = cg_FUNC_imm (\<lambda>insn. Bin Shr (Cast I64 v_rs1) (Dec (unat (insn_imm insn AND 0x3f))))"
definition cg_func_ori :: cg_func_t where [cg_defs]:
  "cg_func_ori = cg_FUNC_imm (\<lambda>insn. Bin BOr v_rs1 (ULL (imm64 insn)))"
definition cg_func_andi :: cg_func_t where [cg_defs]:
  "cg_func_andi = cg_FUNC_imm (\<lambda>insn. Bin BAnd v_rs1 (ULL (imm64 insn)))"
definition cg_func_addiw :: cg_func_t where [cg_defs]:
  "cg_func_addiw = cg_FUNC_imm (\<lambda>insn. Cast I64 (Cast I32 (Par (Bin Add v_rs1 (Cast I64 (LL (imm64 insn)))))))"
definition cg_func_slliw :: cg_func_t where [cg_defs]:
  "cg_func_slliw = cg_FUNC_imm (\<lambda>insn. Cast I64 (Cast I32 (Par (Bin Shl v_rs1 (Dec (unat (insn_imm insn AND 0x1f)))))))"
definition cg_func_srliw :: cg_func_t where [cg_defs]:
  "cg_func_srliw = cg_FUNC_imm (\<lambda>insn. Cast I64 (Cast I32 (Par (Bin Shr (Cast U32 v_rs1) (Dec (unat (insn_imm insn AND 0x1f)))))))"
definition cg_func_sraiw :: cg_func_t where [cg_defs]:
  "cg_func_sraiw = cg_FUNC_imm (\<lambda>insn. Cast I64 (Par (Bin Shr (Cast I32 v_rs1) (Dec (unat (insn_imm insn AND 0x1f))))))"
definition cg_func_auipc :: cg_func_t where [cg_defs]:
  "cg_func_auipc s insn tracer stack p =
     (let val = p + imm64 insn;
          s = REG_SET_VAL (insn_rd insn) val s;
          tracer = tracer_add_gp_reg_usage tracer [insn_rd insn]
      in Inr (s, insn, tracer, stack))"
definition cg_func_sb :: cg_func_t where [cg_defs]: "cg_func_sb = cg_FUNC_store U8"
definition cg_func_sh :: cg_func_t where [cg_defs]: "cg_func_sh = cg_FUNC_store U16"
definition cg_func_sw :: cg_func_t where [cg_defs]: "cg_func_sw = cg_FUNC_store U32"
definition cg_func_sd :: cg_func_t where [cg_defs]: "cg_func_sd = cg_FUNC_store U64"
definition cg_func_add :: cg_func_t where [cg_defs]:
  "cg_func_add = cg_FUNC_alu (Bin Add v_rs1 v_rs2)"
definition cg_func_sll :: cg_func_t where [cg_defs]:
  "cg_func_sll = cg_FUNC_alu (Bin Shl v_rs1 (Par (Bin BAnd v_rs2 (Hex 0x3f))))"
definition cg_func_slt :: cg_func_t where [cg_defs]:
  "cg_func_slt = cg_FUNC_alu (Cond (Par (Bin Lt (Cast I64 v_rs1) (Cast I64 v_rs2))) (Dec 1) (Dec 0))"
definition cg_func_sltu :: cg_func_t where [cg_defs]:
  "cg_func_sltu = cg_FUNC_alu (Cond (Par (Bin Lt (Cast U64 v_rs1) (Cast U64 v_rs2))) (Dec 1) (Dec 0))"
definition cg_func_xor :: cg_func_t where [cg_defs]:
  "cg_func_xor = cg_FUNC_alu (Bin BXor v_rs1 v_rs2)"
definition cg_func_srl :: cg_func_t where [cg_defs]:
  "cg_func_srl = cg_FUNC_alu (Bin Shr v_rs1 (Par (Bin BAnd v_rs2 (Hex 0x3f))))"
definition cg_func_or :: cg_func_t where [cg_defs]: "cg_func_or = cg_FUNC_alu (Bin BOr v_rs1 v_rs2)"
definition cg_func_and :: cg_func_t where [cg_defs]:
  "cg_func_and = cg_FUNC_alu (Bin BAnd v_rs1 v_rs2)"
definition cg_func_mul :: cg_func_t where [cg_defs]:
  "cg_func_mul = cg_FUNC_alu (Bin Mul v_rs1 v_rs2)"
definition cg_func_sub :: cg_func_t where [cg_defs]:
  "cg_func_sub = cg_FUNC_alu (Bin Sub v_rs1 v_rs2)"
definition cg_func_sra :: cg_func_t where [cg_defs]:
  "cg_func_sra = cg_FUNC_alu (Bin Shr (Cast I64 v_rs1) (Par (Bin BAnd v_rs2 (Hex 0x3f))))"
definition cg_func_remu :: cg_func_t where [cg_defs]:
  "cg_func_remu = cg_FUNC_alu (Par (Cond (Bin Eq v_rs2 (Dec 0)) v_rs1 (Bin Mod v_rs1 v_rs2)))"
definition cg_func_addw :: cg_func_t where [cg_defs]:
  "cg_func_addw = cg_FUNC_alu (Cast I64 (Cast I32 (Par (Bin Add v_rs1 v_rs2))))"
definition cg_func_sllw :: cg_func_t where [cg_defs]:
  "cg_func_sllw = cg_FUNC_alu (Cast I64 (Cast I32 (Par (Bin Shl v_rs1 (Par (Bin BAnd v_rs2 (Hex 0x1f)))))))"
definition cg_func_srlw :: cg_func_t where [cg_defs]:
  "cg_func_srlw = cg_FUNC_alu (Cast I64 (Cast I32 (Par (Bin Shr (Cast U32 v_rs1) (Par (Bin BAnd v_rs2 (Hex 0x1f)))))))"
definition cg_func_mulw :: cg_func_t where [cg_defs]:
  "cg_func_mulw = cg_FUNC_alu (Cast I64 (Cast I32 (Par (Bin Mul v_rs1 v_rs2))))"
definition cg_func_divw :: cg_func_t where [cg_defs]:
  "cg_func_divw = cg_FUNC_alu (Par (Cond (Bin Eq v_rs2 (Dec 0)) UINT64_MAX (Cast I32 (Par (Bin Div (Cast I64 (Cast I32 v_rs1)) (Cast I64 (Cast I32 v_rs2)))))))"
definition cg_func_divuw :: cg_func_t where [cg_defs]:
  "cg_func_divuw = cg_FUNC_alu (Par (Cond (Bin Eq v_rs2 (Dec 0)) UINT64_MAX (Cast I32 (Par (Bin Div (Cast U32 v_rs1) (Cast U32 v_rs2))))))"
definition cg_func_remw :: cg_func_t where [cg_defs]:
  "cg_func_remw = cg_FUNC_alu (Par (Cond (Bin Eq v_rs2 (Dec 0)) (Cast I64 (Cast I32 v_rs1)) (Cast I64 (Cast I32 (Par (Bin Mod (Cast I64 (Cast I32 v_rs1)) (Cast I64 (Cast I32 v_rs2))))))))"
definition cg_func_remuw :: cg_func_t where [cg_defs]:
  "cg_func_remuw = cg_FUNC_alu (Par (Cond (Bin Eq v_rs2 (Dec 0)) (Cast I64 (Cast I32 (Cast U32 v_rs1))) (Cast I64 (Cast I32 (Par (Bin Mod (Cast U32 v_rs1) (Cast U32 v_rs2)))))))"
definition cg_func_subw :: cg_func_t where [cg_defs]:
  "cg_func_subw = cg_FUNC_alu (Cast I64 (Cast I32 (Par (Bin Sub v_rs1 v_rs2))))"
definition cg_func_sraw :: cg_func_t where [cg_defs]:
  "cg_func_sraw = cg_FUNC_alu (Cast I64 (Cast I32 (Par (Bin Shr (Cast I32 v_rs1) (Par (Bin BAnd v_rs2 (Hex 0x1f)))))))"
definition cg_func_div :: cg_func_t where [cg_defs]:
  "cg_func_div = cg_FUNC_div (RdCases 55
    [(Bin Eq v_rs2 (Dec 0), UINT64_MAX),
     (Bin LAnd (Bin Eq v_rs1 INT64_MIN) (Bin Eq v_rs2 UINT64_MAX), INT64_MIN)]
    (Bin Div (Cast I64 v_rs1) (Cast I64 v_rs2)))"
definition cg_func_divu :: cg_func_t where [cg_defs]:
  "cg_func_divu = cg_FUNC_div (RdCases 24
    [(Bin Eq v_rs2 (Dec 0), UINT64_MAX)]
    (Bin Div v_rs1 v_rs2))"
definition cg_func_rem :: cg_func_t where [cg_defs]:
  "cg_func_rem = cg_FUNC_div (RdCases 55
    [(Bin Eq v_rs2 (Dec 0), v_rs1),
     (Bin LAnd (Bin Eq v_rs1 INT64_MIN) (Bin Eq v_rs2 UINT64_MAX), Dec 0)]
    (Bin Mod (Cast I64 v_rs1) (Cast I64 v_rs2)))"
definition cg_func_lui :: cg_func_t where [cg_defs]:
  "cg_func_lui s insn tracer stack p =
     (let tracer = tracer_add_gp_reg_usage tracer [insn_rd insn];
          s = REG_SET_VAL (insn_rd insn) (imm64 insn) s
      in Inr (s, insn, tracer, stack))"
definition cg_func_beq :: cg_func_t where [cg_defs]: "cg_func_beq = cg_FUNC_branch U64 Eq"
definition cg_func_bne :: cg_func_t where [cg_defs]: "cg_func_bne = cg_FUNC_branch U64 Ne"
definition cg_func_blt :: cg_func_t where [cg_defs]: "cg_func_blt = cg_FUNC_branch I64 Lt"
definition cg_func_bge :: cg_func_t where [cg_defs]: "cg_func_bge = cg_FUNC_branch I64 Ge"
definition cg_func_bltu :: cg_func_t where [cg_defs]: "cg_func_bltu = cg_FUNC_branch U64 Lt"
definition cg_func_bgeu :: cg_func_t where [cg_defs]: "cg_func_bgeu = cg_FUNC_branch U64 Ge"
definition cg_func_jalr :: cg_func_t where [cg_defs]:
  "cg_func_jalr s insn tracer stack p =
     (let return_addr = p + (if insn_rvc insn then 2 else 4);
          s = REG_GET (insn_rs1 insn) ''rs1'' s;
          s = REG_SET_VAL (insn_rd insn) return_addr s;
          s = s @ [SetExit indirect_branch,
            SetReenter (Bin BAnd (Par (Bin Add v_rs1 (Cast I64 (LL (imm64 insn))))) (BNot (Cast U64 (Dec 1)))), GotoEnd, Close];
          tracer = tracer_add_gp_reg_usage tracer [insn_rs1 insn, insn_rd insn]
      in Inr (s, insn, tracer, stack))"
definition cg_func_jal :: cg_func_t where [cg_defs]:
  "cg_func_jal s insn tracer stack p =
     (let return_addr = p + (if insn_rvc insn then 2 else 4);
          target_addr = p + imm64 insn;
          s = REG_SET_VAL (insn_rd insn) return_addr s;
          s = s @ [Goto target_addr] in
      bindE (stack_push stack target_addr) (\<lambda>stack.
      let s = s @ [Close];
          tracer = tracer_add_gp_reg_usage tracer [insn_rd insn]
      in Inr (s, insn, tracer, stack)))"
definition cg_func_ecall :: cg_func_t where [cg_defs]:
  "cg_func_ecall s insn tracer stack p =
     Inr (s @ [SetExit ecall, SetReenter (ULL (p + 4)), GotoEnd, Close], insn, tracer, stack)"
definition cg_func_csrrw :: cg_func_t where [cg_defs]: "cg_func_csrrw = cg_FUNC_csr"
definition cg_func_csrrs :: cg_func_t where [cg_defs]: "cg_func_csrrs = cg_FUNC_csr"
definition cg_func_csrrc :: cg_func_t where [cg_defs]: "cg_func_csrrc = cg_FUNC_csr"
definition cg_func_csrrwi :: cg_func_t where [cg_defs]: "cg_func_csrrwi = cg_FUNC_csr"
definition cg_func_csrrsi :: cg_func_t where [cg_defs]: "cg_func_csrrsi = cg_FUNC_csr"
definition cg_func_csrrci :: cg_func_t where [cg_defs]: "cg_func_csrrci = cg_FUNC_csr"
definition cg_func_flw :: cg_func_t where [cg_defs]:
  "cg_func_flw = cg_FUNC_fload U32 (Bin BOr v_rd (Par (Bin Shl (Cast U64 (Neg (Dec 1))) (Dec 32))))"
definition cg_func_fld :: cg_func_t where [cg_defs]: "cg_func_fld = cg_FUNC_fload U64 v_rd"
definition cg_func_fsw :: cg_func_t where [cg_defs]: "cg_func_fsw = cg_FUNC_fstore U32"
definition cg_func_fsd :: cg_func_t where [cg_defs]: "cg_func_fsd = cg_FUNC_fstore U64"
definition cg_func_fmadd_s :: cg_func_t where [cg_defs]:
  "cg_func_fmadd_s = cg_FUNC_fma F32 Ff (Bin Add (Bin Mul v_rs1 v_rs2) v_rs3)"
definition cg_func_fmsub_s :: cg_func_t where [cg_defs]:
  "cg_func_fmsub_s = cg_FUNC_fma F32 Ff (Bin Sub (Bin Mul v_rs1 v_rs2) v_rs3)"
definition cg_func_fnmsub_s :: cg_func_t where [cg_defs]:
  "cg_func_fnmsub_s = cg_FUNC_fma F32 Ff (Bin Add (Neg (Par (Bin Mul v_rs1 v_rs2))) v_rs3)"
definition cg_func_fnmadd_s :: cg_func_t where [cg_defs]:
  "cg_func_fnmadd_s = cg_FUNC_fma F32 Ff (Bin Sub (Neg (Par (Bin Mul v_rs1 v_rs2))) v_rs3)"
definition cg_func_fmadd_d :: cg_func_t where [cg_defs]:
  "cg_func_fmadd_d = cg_FUNC_fma F64 Fd (Bin Add (Bin Mul v_rs1 v_rs2) v_rs3)"
definition cg_func_fmsub_d :: cg_func_t where [cg_defs]:
  "cg_func_fmsub_d = cg_FUNC_fma F64 Fd (Bin Sub (Bin Mul v_rs1 v_rs2) v_rs3)"
definition cg_func_fnmsub_d :: cg_func_t where [cg_defs]:
  "cg_func_fnmsub_d = cg_FUNC_fma F64 Fd (Bin Add (Neg (Par (Bin Mul v_rs1 v_rs2))) v_rs3)"
definition cg_func_fnmadd_d :: cg_func_t where [cg_defs]:
  "cg_func_fnmadd_d = cg_FUNC_fma F64 Fd (Bin Sub (Neg (Par (Bin Mul v_rs1 v_rs2))) v_rs3)"
definition cg_func_fadd_s :: cg_func_t where [cg_defs]:
  "cg_func_fadd_s = cg_FUNC_fp F32 Ff (Bin Add v_rs1 v_rs2)"
definition cg_func_fsub_s :: cg_func_t where [cg_defs]:
  "cg_func_fsub_s = cg_FUNC_fp F32 Ff (Bin Sub v_rs1 v_rs2)"
definition cg_func_fmul_s :: cg_func_t where [cg_defs]:
  "cg_func_fmul_s = cg_FUNC_fp F32 Ff (Bin Mul v_rs1 v_rs2)"
definition cg_func_fdiv_s :: cg_func_t where [cg_defs]:
  "cg_func_fdiv_s = cg_FUNC_fp F32 Ff (Bin Div v_rs1 v_rs2)"
definition cg_func_fmin_s :: cg_func_t where [cg_defs]:
  "cg_func_fmin_s = cg_FUNC_fp F32 Ff (Cond (Bin Lt v_rs1 v_rs2) v_rs1 v_rs2)"
definition cg_func_fmax_s :: cg_func_t where [cg_defs]:
  "cg_func_fmax_s = cg_FUNC_fp F32 Ff (Cond (Bin Gt v_rs1 v_rs2) v_rs1 v_rs2)"
definition cg_func_fcvt_s_w :: cg_func_t where [cg_defs]:
  "cg_func_fcvt_s_w = cg_x_to_f Ff (Cast F32 (Cast I32 v_rs1))"
definition cg_func_fcvt_s_wu :: cg_func_t where [cg_defs]:
  "cg_func_fcvt_s_wu = cg_x_to_f Ff (Cast F32 (Cast U32 v_rs1))"
definition cg_func_fcvt_d_w :: cg_func_t where [cg_defs]:
  "cg_func_fcvt_d_w = cg_x_to_f Fd (Cast F64 (Cast I32 v_rs1))"
definition cg_func_fcvt_d_wu :: cg_func_t where [cg_defs]:
  "cg_func_fcvt_d_wu = cg_x_to_f Fd (Cast F64 (Cast U32 v_rs1))"
definition cg_func_fmv_x_w :: cg_func_t where [cg_defs]:
  "cg_func_fmv_x_w = cg_f_to_x U32 Fw (Cast I64 (Cast I32 v_rs1))"
definition cg_func_fmv_w_x :: cg_func_t where [cg_defs]:
  "cg_func_fmv_w_x = cg_x_to_f Fw (Cast U32 v_rs1)"
definition cg_func_fmv_x_d :: cg_func_t where [cg_defs]: "cg_func_fmv_x_d = cg_f_to_x U64 Fv v_rs1"
definition cg_func_fmv_d_x :: cg_func_t where [cg_defs]: "cg_func_fmv_d_x = cg_x_to_f Fv v_rs1"
definition cg_func_feq_s :: cg_func_t where [cg_defs]:
  "cg_func_feq_s = cg_FUNC_fcmp F32 Ff (Bin Eq v_rs1 v_rs2)"
definition cg_func_flt_s :: cg_func_t where [cg_defs]:
  "cg_func_flt_s = cg_FUNC_fcmp F32 Ff (Bin Lt v_rs1 v_rs2)"
definition cg_func_fle_s :: cg_func_t where [cg_defs]:
  "cg_func_fle_s = cg_FUNC_fcmp F32 Ff (Bin Le v_rs1 v_rs2)"
definition cg_func_feq_d :: cg_func_t where [cg_defs]:
  "cg_func_feq_d = cg_FUNC_fcmp F64 Fd (Bin Eq v_rs1 v_rs2)"
definition cg_func_flt_d :: cg_func_t where [cg_defs]:
  "cg_func_flt_d = cg_FUNC_fcmp F64 Fd (Bin Lt v_rs1 v_rs2)"
definition cg_func_fle_d :: cg_func_t where [cg_defs]:
  "cg_func_fle_d = cg_FUNC_fcmp F64 Fd (Bin Le v_rs1 v_rs2)"
definition cg_func_fcvt_s_l :: cg_func_t where [cg_defs]:
  "cg_func_fcvt_s_l = cg_x_to_f Ff (Cast F32 (Cast I64 v_rs1))"
definition cg_func_fcvt_s_lu :: cg_func_t where [cg_defs]:
  "cg_func_fcvt_s_lu = cg_x_to_f Ff (Cast F32 (Cast U64 v_rs1))"
definition cg_func_fadd_d :: cg_func_t where [cg_defs]:
  "cg_func_fadd_d = cg_FUNC_fp F64 Fd (Bin Add v_rs1 v_rs2)"
definition cg_func_fsub_d :: cg_func_t where [cg_defs]:
  "cg_func_fsub_d = cg_FUNC_fp F64 Fd (Bin Sub v_rs1 v_rs2)"
definition cg_func_fmul_d :: cg_func_t where [cg_defs]:
  "cg_func_fmul_d = cg_FUNC_fp F64 Fd (Bin Mul v_rs1 v_rs2)"
definition cg_func_fdiv_d :: cg_func_t where [cg_defs]:
  "cg_func_fdiv_d = cg_FUNC_fp F64 Fd (Bin Div v_rs1 v_rs2)"
definition cg_func_fmin_d :: cg_func_t where [cg_defs]:
  "cg_func_fmin_d = cg_FUNC_fp F64 Fd (Cond (Bin Lt v_rs1 v_rs2) v_rs1 v_rs2)"
definition cg_func_fmax_d :: cg_func_t where [cg_defs]:
  "cg_func_fmax_d = cg_FUNC_fp F64 Fd (Cond (Bin Gt v_rs1 v_rs2) v_rs1 v_rs2)"
definition cg_func_fcvt_s_d :: cg_func_t where [cg_defs]:
  "cg_func_fcvt_s_d = cg_f_to_f F64 Fd Ff (Cast F32 v_rs1)"
definition cg_func_fcvt_d_s :: cg_func_t where [cg_defs]:
  "cg_func_fcvt_d_s = cg_f_to_f F32 Ff Fd (Cast F64 v_rs1)"
definition cg_func_fcvt_d_l :: cg_func_t where [cg_defs]:
  "cg_func_fcvt_d_l = cg_x_to_f Fd (Cast F64 (Cast I64 v_rs1))"
definition cg_func_fcvt_d_lu :: cg_func_t where [cg_defs]:
  "cg_func_fcvt_d_lu = cg_x_to_f Fd (Cast F64 (Cast U64 v_rs1))"
definition cg_func_mulh :: cg_func_t where [cg_defs]: "cg_func_mulh = cg_FUNC_interp"
definition cg_func_mulhsu :: cg_func_t where [cg_defs]: "cg_func_mulhsu = cg_FUNC_interp"
definition cg_func_mulhu :: cg_func_t where [cg_defs]: "cg_func_mulhu = cg_FUNC_interp"
definition cg_func_fsqrt_s :: cg_func_t where [cg_defs]: "cg_func_fsqrt_s = cg_FUNC_interp"
definition cg_func_fcvt_w_s :: cg_func_t where [cg_defs]: "cg_func_fcvt_w_s = cg_FUNC_interp"
definition cg_func_fcvt_wu_s :: cg_func_t where [cg_defs]: "cg_func_fcvt_wu_s = cg_FUNC_interp"
definition cg_func_fcvt_w_d :: cg_func_t where [cg_defs]: "cg_func_fcvt_w_d = cg_FUNC_interp"
definition cg_func_fcvt_wu_d :: cg_func_t where [cg_defs]: "cg_func_fcvt_wu_d = cg_FUNC_interp"
definition cg_func_fclass_s :: cg_func_t where [cg_defs]: "cg_func_fclass_s = cg_FUNC_interp"
definition cg_func_fclass_d :: cg_func_t where [cg_defs]: "cg_func_fclass_d = cg_FUNC_interp"
definition cg_func_fcvt_l_s :: cg_func_t where [cg_defs]: "cg_func_fcvt_l_s = cg_FUNC_interp"
definition cg_func_fcvt_lu_s :: cg_func_t where [cg_defs]: "cg_func_fcvt_lu_s = cg_FUNC_interp"
definition cg_func_fcvt_l_d :: cg_func_t where [cg_defs]: "cg_func_fcvt_l_d = cg_FUNC_interp"
definition cg_func_fcvt_lu_d :: cg_func_t where [cg_defs]: "cg_func_fcvt_lu_d = cg_FUNC_interp"
definition cg_func_fsgnj_s :: cg_func_t where [cg_defs]: "cg_func_fsgnj_s = cg_FUNC_interp"
definition cg_func_fsgnjn_s :: cg_func_t where [cg_defs]: "cg_func_fsgnjn_s = cg_FUNC_interp"
definition cg_func_fsgnjx_s :: cg_func_t where [cg_defs]: "cg_func_fsgnjx_s = cg_FUNC_interp"
definition cg_func_fsgnj_d :: cg_func_t where [cg_defs]: "cg_func_fsgnj_d = cg_FUNC_interp"
definition cg_func_fsgnjn_d :: cg_func_t where [cg_defs]: "cg_func_fsgnjn_d = cg_FUNC_interp"
definition cg_func_fsgnjx_d :: cg_func_t where [cg_defs]: "cg_func_fsgnjx_d = cg_FUNC_interp"
definition cg_func_fsqrt_d :: cg_func_t where [cg_defs]: "cg_func_fsqrt_d = cg_FUNC_interp"

definition cg_funcs :: "cg_func_t list" where
  "cg_funcs = [
    cg_func_lb, cg_func_lh, cg_func_lw, cg_func_ld, cg_func_lbu, cg_func_lhu, cg_func_lwu,
    cg_func_empty, cg_func_empty, cg_func_addi, cg_func_slli, cg_func_slti, cg_func_sltiu,
    cg_func_xori, cg_func_srli, cg_func_srai, cg_func_ori, cg_func_andi, cg_func_auipc,
    cg_func_addiw, cg_func_slliw, cg_func_srliw, cg_func_sraiw, cg_func_sb, cg_func_sh, cg_func_sw,
    cg_func_sd, cg_func_add, cg_func_sll, cg_func_slt, cg_func_sltu, cg_func_xor, cg_func_srl,
    cg_func_or, cg_func_and, cg_func_mul, cg_func_mulh, cg_func_mulhsu, cg_func_mulhu, cg_func_div,
    cg_func_divu, cg_func_rem, cg_func_remu, cg_func_sub, cg_func_sra, cg_func_lui, cg_func_addw,
    cg_func_sllw, cg_func_srlw, cg_func_mulw, cg_func_divw, cg_func_divuw, cg_func_remw,
    cg_func_remuw, cg_func_subw, cg_func_sraw, cg_func_beq, cg_func_bne, cg_func_blt, cg_func_bge,
    cg_func_bltu, cg_func_bgeu, cg_func_jalr, cg_func_jal, cg_func_ecall, cg_func_csrrw,
    cg_func_csrrs, cg_func_csrrc, cg_func_csrrwi, cg_func_csrrsi, cg_func_csrrci, cg_func_flw,
    cg_func_fsw, cg_func_fmadd_s, cg_func_fmsub_s, cg_func_fnmsub_s, cg_func_fnmadd_s,
    cg_func_fadd_s, cg_func_fsub_s, cg_func_fmul_s, cg_func_fdiv_s, cg_func_fsqrt_s,
    cg_func_fsgnj_s, cg_func_fsgnjn_s, cg_func_fsgnjx_s, cg_func_fmin_s, cg_func_fmax_s,
    cg_func_fcvt_w_s, cg_func_fcvt_wu_s, cg_func_fmv_x_w, cg_func_feq_s, cg_func_flt_s,
    cg_func_fle_s, cg_func_fclass_s, cg_func_fcvt_s_w, cg_func_fcvt_s_wu, cg_func_fmv_w_x,
    cg_func_fcvt_l_s, cg_func_fcvt_lu_s, cg_func_fcvt_s_l, cg_func_fcvt_s_lu, cg_func_fld,
    cg_func_fsd, cg_func_fmadd_d, cg_func_fmsub_d, cg_func_fnmsub_d, cg_func_fnmadd_d,
    cg_func_fadd_d, cg_func_fsub_d, cg_func_fmul_d, cg_func_fdiv_d, cg_func_fsqrt_d,
    cg_func_fsgnj_d, cg_func_fsgnjn_d, cg_func_fsgnjx_d, cg_func_fmin_d, cg_func_fmax_d,
    cg_func_fcvt_s_d, cg_func_fcvt_d_s, cg_func_feq_d, cg_func_flt_d, cg_func_fle_d,
    cg_func_fclass_d, cg_func_fcvt_w_d, cg_func_fcvt_wu_d, cg_func_fcvt_d_w, cg_func_fcvt_d_wu,
    cg_func_fcvt_l_d, cg_func_fcvt_lu_d, cg_func_fmv_x_d, cg_func_fcvt_d_l, cg_func_fcvt_d_lu,
    cg_func_fmv_d_x]"

subsection \<open>The function around the body\<close>

definition CODEGEN_PROLOGUE :: string where
  "CODEGEN_PROLOGUE = concat (map (\<lambda>l. l @ nl) [
     ''#define OFFSET 0x088800000000ULL               '',
     ''#define TO_HOST(addr) (addr + OFFSET)          '',
     ''enum exit_reason_t {                           '',
     ''   none,                                       '',
     ''   direct_branch,                              '',
     ''   indirect_branch,                            '',
     ''   interp,                                     '',
     ''   ecall,                                      '',
     ''};                                             '',
     ''typedef union {                                '',
     ''    uint64_t v;                                '',
     ''    uint32_t w;                                '',
     ''    double d;                                  '',
     ''    float f;                                   '',
     ''} fp_reg_t;                                    '',
     ''typedef struct {                               '',
     ''    enum exit_reason_t exit_reason;            '',
     ''    uint64_t reenter_pc;                       '',
     ''    uint64_t gp_regs[32];                      '',
     ''    fp_reg_t fp_regs[32];                      '',
     ''    uint64_t pc;                               '',
     ''    uint32_t fcsr;                             '',
     ''} state_t;                                     '',
     ''void start(volatile state_t *restrict state) { ''])"

definition CODEGEN_EPILOGUE :: string where
  "CODEGEN_EPILOGUE = ''}''"

text \<open>
  What \<^verbatim>\<open>machine_genblock\<close> works on: the text of the body, the stack, the set of visited program
  counters, the tracer and the static instruction buffer.
\<close>

record gen_t =
  gb_body :: "stmt list"
  gb_stack :: stack_t
  gb_set :: set_t
  gb_tracer :: tracer_t
  gb_insn :: insn_t

text \<open>One round of the loop for a popped program counter.\<close>

definition genblock_visit :: "mem \<Rightarrow> gen_t \<Rightarrow> u64 \<Rightarrow> gen_t result" where
  "genblock_visit m g p =
     bindE (set_add (gb_set g) p) (\<lambda>(new, set).
     let g = g\<lparr>gb_set := set\<rparr> in
     if \<not> new then Inr g
     else
       let body = gb_body g @ [Label p] in
       bindE (load_u32 m (TO_HOST p)) (\<lambda>data.
       bindE (insn_decode (gb_insn g) data) (\<lambda>insn.
       bindE ((cg_funcs ! insn_type insn) body insn (gb_tracer g) (gb_stack g) p) (\<lambda>(body, insn, tracer, stack).
       let g = g\<lparr>gb_body := body, gb_insn := insn, gb_tracer := tracer, gb_stack := stack\<rparr> in
       if insn_cont insn then Inr g
       else
         let p = p + (if insn_rvc insn then 2 else 4) in
         bindE (stack_push stack p) (\<lambda>stack.
         Inr (g\<lparr>gb_body := body @ [Goto p, Close], gb_stack := stack\<rparr>))))))"

definition genblock_round :: "mem \<Rightarrow> gen_t \<Rightarrow> gen_t result + gen_t" where
  "genblock_round m g = (case stack_pop (gb_stack g) of
     None \<Rightarrow> Inl (Inr g)
   | Some (p, stack) \<Rightarrow> (case genblock_visit m (g\<lparr>gb_stack := stack\<rparr>) p of
       Inl e \<Rightarrow> Inl (Inl e)
     | Inr g' \<Rightarrow> Inr g'))"

definition genblock_loop :: "mem \<Rightarrow> gen_t \<Rightarrow> gen_t result option" where
  "genblock_loop m g = drive (genblock_round m) g"

text \<open>
  The static variables of \<^verbatim>\<open>machine_genblock\<close> at the start of a call: the body is emptied, the set
  and the tracer are cleared, the stack is reset and holds the program counter; the instruction buffer keeps what the
  previous call left.
\<close>

definition genblock_start :: "gen_t \<Rightarrow> u64 \<Rightarrow> gen_t result" where
  "genblock_start statics p =
     bindE (stack_push (stack_reset (gb_stack statics)) p) (\<lambda>stack.
     Inr (statics\<lparr>gb_body := [], gb_stack := stack, gb_set := set_reset (gb_set statics),
       gb_tracer := tracer_reset\<rparr>))"

definition genblock_blocks :: "mem \<Rightarrow> gen_t \<Rightarrow> u64 \<Rightarrow> gen_t result option" where
  "genblock_blocks m statics p =
     (case genblock_start statics p of Inl e \<Rightarrow> Some (Inl e) | Inr g \<Rightarrow> genblock_loop m g)"

text \<open>The pieces of the source text in the order they are appended.\<close>

definition source_pieces :: "gen_t \<Rightarrow> string list" where
  "source_pieces g =
     [''#include <stdint.h>'' @ nl, ''#include <stdbool.h>'' @ nl, CODEGEN_PROLOGUE] @
     tracer_append_prologue (gb_tracer g) @ [body_text (gb_body g), ''end:;'' @ nl] @
     tracer_append_epilogue (gb_tracer g) @ [CODEGEN_EPILOGUE]"

definition machine_genblock :: "mem \<Rightarrow> gen_t \<Rightarrow> u64 \<Rightarrow> (string \<times> gen_t) result option" where
  "machine_genblock m statics p =
     map_option (\<lambda>r. bindE r (\<lambda>g. Inr (concat (source_pieces g), g))) (genblock_blocks m statics p)"

end
