(* ===== verification/C_Sem.thy ===== *)
theory C_Sem
  imports C_Text Interpret
begin

unbundle bit_operations_syntax

text \<open>
  The meaning of the C text of \<open>C_Text\<close> on an x86-64 host with 32-bit \<^verbatim>\<open>int\<close>: integer promotion and the
  usual arithmetic conversions, arithmetic at the common type, undefined behaviour (signed overflow,
  oversized shifts, undeclared variables) as \<^const>\<open>Undefined\<close>, a zero divisor as \<^const>\<open>Sigfpe\<close>. A value
  of a type is held in 64 bits, sign-extended for a signed and zero-extended for an unsigned integer
  type; a floating-point value is its bit pattern. The generated function runs by statements: its
  registers are the local variables \<^verbatim>\<open>x1\<close> to \<^verbatim>\<open>x31\<close> and \<^verbatim>\<open>f0\<close> to \<^verbatim>\<open>f31\<close> its prologue declares.
\<close>

subsection \<open>Values and types\<close>

fun norm :: "ctype \<Rightarrow> u64 \<Rightarrow> u64" where
  "norm I8 w = scast (ucast w :: 8 word)"
| "norm I16 w = scast (ucast w :: 16 word)"
| "norm I32 w = scast (ucast w :: 32 word)"
| "norm I64 w = w"
| "norm U8 w = ucast (ucast w :: 8 word)"
| "norm U16 w = ucast (ucast w :: 16 word)"
| "norm U32 w = ucast (ucast w :: 32 word)"
| "norm U64 w = w"
| "norm F32 w = ucast (ucast w :: 32 word)"
| "norm F64 w = w"

definition signed_type :: "ctype \<Rightarrow> bool" where
  "signed_type t \<longleftrightarrow> t \<in> {I8, I16, I32, I64}"

definition float_type :: "ctype \<Rightarrow> bool" where
  "float_type t \<longleftrightarrow> t \<in> {F32, F64}"

definition width :: "ctype \<Rightarrow> nat" where
  "width t = (if t \<in> {I64, U64, F64} then 64 else if t \<in> {I32, U32, F32} then 32
     else if t \<in> {I16, U16} then 16 else 8)"

definition promote :: "ctype \<Rightarrow> ctype" where
  "promote t = (if t \<in> {I8, I16, U8, U16} then I32 else t)"

definition usual :: "ctype \<Rightarrow> ctype \<Rightarrow> ctype" where
  "usual a b = (let a = promote a; b = promote b in
     if a = F64 \<or> b = F64 then F64 else if a = F32 \<or> b = F32 then F32
     else if a = U64 \<or> b = U64 then U64 else if a = I64 \<or> b = I64 then I64
     else if a = U32 \<or> b = U32 then U32 else I32)"

definition int_value :: "ctype \<Rightarrow> u64 \<Rightarrow> int" where
  "int_value t w = (if signed_type t then sint w else uint w)"

text \<open>Conversion of a value of the first type to the second.\<close>

definition convert :: "ctype \<Rightarrow> ctype \<Rightarrow> u64 \<Rightarrow> u64 result" where
  "convert s t w =
     (if s = t then Inr w
      else if s = F32 then (if t = F64 then Inr (f64_of_f32 (ucast w)) else Inl (Undefined ''conversion''))
      else if s = F64 then (if t = F32 then Inr (ucast (f32_of_f64 w)) else Inl (Undefined ''conversion''))
      else if t = F32 then Inr (ucast (f32_of_int (int_value s w)))
      else if t = F64 then Inr (f64_of_int (int_value s w))
      else Inr (norm t w))"

definition is_compare :: "binop \<Rightarrow> bool" where
  "is_compare op \<longleftrightarrow> op \<in> {Lt, Gt, Le, Ge, Eq, Ne}"

type_synonym tenv = "string \<rightharpoonup> ctype"

fun typeof :: "tenv \<Rightarrow> cexpr \<Rightarrow> ctype option" where
  "typeof G (Var x) = G x"
| "typeof G (LL v) = Some I64"
| "typeof G (ULL v) = Some U64"
| "typeof G (Dec n) = Some I32"
| "typeof G (Hex n) = Some I32"
| "typeof G UINT64_MAX = Some U64"
| "typeof G INT64_MIN = Some I64"
| "typeof G (Cast t e) = Some t"
| "typeof G (Neg e) = map_option promote (typeof G e)"
| "typeof G (BNot e) = map_option promote (typeof G e)"
| "typeof G (Bin op a b) =
     (case typeof G a of None \<Rightarrow> None | Some s \<Rightarrow> (case typeof G b of None \<Rightarrow> None | Some t \<Rightarrow>
       Some (if is_compare op \<or> op = LAnd then I32
             else if op = Shl \<or> op = Shr then promote s else usual s t)))"
| "typeof G (Cond c a b) =
     (case typeof G a of None \<Rightarrow> None | Some s \<Rightarrow> map_option (usual s) (typeof G b))"
| "typeof G (Par e) = typeof G e"

subsection \<open>Operators\<close>

definition in_type :: "ctype \<Rightarrow> int \<Rightarrow> u64 result" where
  "in_type t r = (if - (2 ^ (width t - 1)) \<le> r \<and> r < 2 ^ (width t - 1) then Inr (word_of_int r)
     else Inl (Undefined ''signed overflow''))"

definition arith :: "ctype \<Rightarrow> (int \<Rightarrow> int \<Rightarrow> int) \<Rightarrow> (u64 \<Rightarrow> u64 \<Rightarrow> u64) \<Rightarrow> u64 \<Rightarrow> u64 \<Rightarrow> u64 result" where
  "arith t f g a b = (if signed_type t then in_type t (f (sint a) (sint b)) else Inr (norm t (g a b)))"

definition divide :: "ctype \<Rightarrow> (i64 \<Rightarrow> i64 \<Rightarrow> i64) \<Rightarrow> (u64 \<Rightarrow> u64 \<Rightarrow> u64) \<Rightarrow> u64 \<Rightarrow> u64 \<Rightarrow> u64 result" where
  "divide t f g a b =
     (if b = 0 then Inl Sigfpe
      else if signed_type t then
        (if sint a = - (2 ^ (width t - 1)) \<and> b = - 1 then Inl (Undefined ''signed overflow'') else Inr (f a b))
      else Inr (g a b))"

definition shift :: "binop \<Rightarrow> ctype \<Rightarrow> u64 \<Rightarrow> int \<Rightarrow> u64 result" where
  "shift op t a n =
     (if n < 0 \<or> int (width t) \<le> n \<or> float_type t then Inl (Undefined ''shift'')
      else if op = Shr then Inr (if signed_type t then signed_drop_bit (nat n) a else drop_bit (nat n) a)
      else if signed_type t then Inl (Undefined ''shift of a signed value'')
      else Inr (norm t (push_bit (nat n) a)))"

fun float_op :: "binop \<Rightarrow> (nat \<Rightarrow> nat \<Rightarrow> nat \<Rightarrow> nat \<Rightarrow> nat) option" where
  "float_op Add = Some fadd" | "float_op Sub = Some fsub"
| "float_op Mul = Some fmul" | "float_op Div = Some fdiv"
| "float_op _ = None"

definition apply_float :: "ctype \<Rightarrow> binop \<Rightarrow> u64 \<Rightarrow> u64 \<Rightarrow> u64 result" where
  "apply_float t op a b = (case float_op op of
     None \<Rightarrow> Inl (Undefined ''operands'')
   | Some f \<Rightarrow> Inr (if t = F32 then ucast (f32_op2 f (ucast a) (ucast b)) else f64_op2 f a b))"

definition apply_int :: "ctype \<Rightarrow> binop \<Rightarrow> u64 \<Rightarrow> u64 \<Rightarrow> u64 result" where
  "apply_int t op a b = (case op of
     Add \<Rightarrow> arith t (+) (+) a b | Sub \<Rightarrow> arith t (-) (-) a b | Mul \<Rightarrow> arith t (*) (*) a b
   | Div \<Rightarrow> divide t sdiv64 (div) a b | Mod \<Rightarrow> divide t smod64 (mod) a b
   | BAnd \<Rightarrow> Inr (a AND b) | BOr \<Rightarrow> Inr (a OR b) | BXor \<Rightarrow> Inr (a XOR b)
   | _ \<Rightarrow> Inl (Undefined ''operands''))"

definition float_rel :: "ctype \<Rightarrow> (nat \<Rightarrow> nat \<Rightarrow> nat \<Rightarrow> nat \<Rightarrow> bool) \<Rightarrow> u64 \<Rightarrow> u64 \<Rightarrow> bool" where
  "float_rel t rel a b = (if t = F32 then f32_rel rel (ucast a) (ucast b) else f64_rel rel a b)"

definition compare :: "ctype \<Rightarrow> binop \<Rightarrow> u64 \<Rightarrow> u64 \<Rightarrow> bool" where
  "compare t op a b =
     (if float_type t then
        (case op of Lt \<Rightarrow> float_rel t flt a b | Gt \<Rightarrow> float_rel t flt b a | Le \<Rightarrow> float_rel t fle a b
         | Ge \<Rightarrow> float_rel t fle b a | Eq \<Rightarrow> float_rel t feq a b | _ \<Rightarrow> \<not> float_rel t feq a b)
      else if signed_type t then
        (case op of Lt \<Rightarrow> a <s b | Gt \<Rightarrow> b <s a | Le \<Rightarrow> a \<le>s b | Ge \<Rightarrow> b \<le>s a | Eq \<Rightarrow> a = b | _ \<Rightarrow> a \<noteq> b)
      else (case op of Lt \<Rightarrow> a < b | Gt \<Rightarrow> b < a | Le \<Rightarrow> a \<le> b | Ge \<Rightarrow> b \<le> a | Eq \<Rightarrow> a = b | _ \<Rightarrow> a \<noteq> b))"

text \<open>One binary operator on values of the given types.\<close>

definition binary :: "binop \<Rightarrow> ctype \<Rightarrow> ctype \<Rightarrow> u64 \<Rightarrow> u64 \<Rightarrow> u64 result" where
  "binary op s t a b =
     (if op = Shl \<or> op = Shr then
        bindE (convert s (promote s) a) (\<lambda>a. shift op (promote s) a (int_value t b))
      else if op = LAnd then Inr (of_bool (a \<noteq> 0 \<and> b \<noteq> 0))
      else
        bindE (convert s (usual s t) a) (\<lambda>a. bindE (convert t (usual s t) b) (\<lambda>b.
        if is_compare op then Inr (of_bool (compare (usual s t) op a b))
        else if float_type (usual s t) then apply_float (usual s t) op a b
        else apply_int (usual s t) op a b)))"

type_synonym venv = "string \<rightharpoonup> ctype \<times> u64"

abbreviation tenv_of :: "venv \<Rightarrow> tenv" where
  "tenv_of E \<equiv> map_option fst \<circ> E"

definition negate :: "ctype \<Rightarrow> u64 \<Rightarrow> u64 result" where
  "negate t a = (if t = F32 then Inr (ucast (f32_op1 fneg (ucast a))) else if t = F64 then Inr (f64_op1 fneg a)
     else arith t (-) (-) 0 a)"

text \<open>
  \<open>typed G e\<close> is the type of \<open>e\<close>; an ill-typed expression does not compile, which is an error
  value here like an undeclared variable.
\<close>

definition typed :: "tenv \<Rightarrow> cexpr \<Rightarrow> ctype result" where
  "typed G e = (case typeof G e of None \<Rightarrow> Inl (Undefined ''undeclared variable'') | Some t \<Rightarrow> Inr t)"

fun eval :: "venv \<Rightarrow> cexpr \<Rightarrow> u64 result" where
  "eval E (Var x) = (case E x of None \<Rightarrow> Inl (Undefined ''undeclared variable'') | Some (t, v) \<Rightarrow> Inr v)"
| "eval E (LL v) = Inr v"
| "eval E (ULL v) = Inr v"
| "eval E (Dec n) = Inr (of_nat n)"
| "eval E (Hex n) = Inr (of_nat n)"
| "eval E UINT64_MAX = Inr (- 1)"
| "eval E INT64_MIN = Inr 0x8000000000000000"
| "eval E (Cast t e) = bindE (typed (tenv_of E) e) (\<lambda>s. bindE (eval E e) (convert s t))"
| "eval E (Neg e) = bindE (typed (tenv_of E) e) (\<lambda>s. bindE (eval E e) (\<lambda>a.
     bindE (convert s (promote s) a) (negate (promote s))))"
| "eval E (BNot e) = bindE (typed (tenv_of E) e) (\<lambda>s. bindE (eval E e) (\<lambda>a.
     bindE (convert s (promote s) a) (\<lambda>a. Inr (norm (promote s) (NOT a)))))"
| "eval E (Bin op a b) =
     bindE (typed (tenv_of E) a) (\<lambda>s. bindE (typed (tenv_of E) b) (\<lambda>t.
     bindE (eval E a) (\<lambda>x. 
       if op = LAnd \<and> x = 0 then Inr 0
       else bindE (eval E b) (\<lambda>y. binary op s t x y))))"
| "eval E (Cond c a b) =
     bindE (typed (tenv_of E) a) (\<lambda>s. bindE (typed (tenv_of E) b) (\<lambda>t.
     bindE (eval E c) (\<lambda>x.
       if x \<noteq> 0 then bindE (eval E a) (convert s (usual s t)) else bindE (eval E b) (convert t (usual s t)))))"
| "eval E (Par e) = eval E e"

text \<open>The value of an expression assigned to an object of a type.\<close>

definition eval_as :: "ctype \<Rightarrow> venv \<Rightarrow> cexpr \<Rightarrow> u64 result" where
  "eval_as t E e = bindE (typed (tenv_of E) e) (\<lambda>s. bindE (eval E e) (convert s t))"

subsection \<open>Statements\<close>

record gstate =
  g_x :: "nat \<rightharpoonup> u64"
  g_f :: "nat \<rightharpoonup> u64"
  g_loc :: venv
  g_exit :: exit_reason_t
  g_reenter :: u64
  g_mem :: mem

datatype flow = Next | Jump u64 | End

fun field_type :: "ffield \<Rightarrow> ctype" where
  "field_type Fv = U64" | "field_type Fw = U32" | "field_type Fd = F64" | "field_type Ff = F32"

definition field_get :: "ffield \<Rightarrow> fp_reg_t \<Rightarrow> u64" where
  "field_get fd r = (if fd = Fw \<or> fd = Ff then ucast (fp_w r) else r)"

definition field_set :: "ffield \<Rightarrow> fp_reg_t \<Rightarrow> u64 \<Rightarrow> fp_reg_t" where
  "field_set fd r v = (if fd = Fw \<or> fd = Ff then fp_set_w r (ucast v) else v)"

fun load_typed :: "ctype \<Rightarrow> mem \<Rightarrow> u64 \<Rightarrow> u64 result" where
  "load_typed I8 m a = bindE (load_u8 m a) (\<lambda>v. Inr (scast v))"
| "load_typed I16 m a = bindE (load_u16 m a) (\<lambda>v. Inr (scast v))"
| "load_typed I32 m a = bindE (load_u32 m a) (\<lambda>v. Inr (scast v))"
| "load_typed I64 m a = load_u64 m a"
| "load_typed U8 m a = bindE (load_u8 m a) (\<lambda>v. Inr (ucast v))"
| "load_typed U16 m a = bindE (load_u16 m a) (\<lambda>v. Inr (ucast v))"
| "load_typed U32 m a = bindE (load_u32 m a) (\<lambda>v. Inr (ucast v))"
| "load_typed U64 m a = load_u64 m a"
| "load_typed F32 m a = bindE (load_u32 m a) (\<lambda>v. Inr (ucast v))"
| "load_typed F64 m a = load_u64 m a"

definition store_typed :: "ctype \<Rightarrow> mem \<Rightarrow> u64 \<Rightarrow> u64 \<Rightarrow> mem result" where
  "store_typed t m a v =
     (if width t = 8 then store_u8 m a (ucast v) else if width t = 16 then store_u16 m a (ucast v)
      else if width t = 32 then store_u32 m a (ucast v) else store_u64 m a v)"

fun eval_cases :: "venv \<Rightarrow> (cexpr \<times> cexpr) list \<Rightarrow> cexpr \<Rightarrow> u64 result" where
  "eval_cases E [] e = eval_as U64 E e"
| "eval_cases E ((c, v) # cs) e =
     bindE (eval E c) (\<lambda>x. if x \<noteq> 0 then eval_as U64 E v else eval_cases E cs e)"

text \<open>A local variable that has to be declared.\<close>

definition declared :: "'a option \<Rightarrow> ('a \<Rightarrow> 'b result) \<Rightarrow> 'b result" where
  "declared x k = (case x of None \<Rightarrow> Inl (Undefined ''undeclared variable'') | Some v \<Rightarrow> k v)"

fun exec_stmt :: "stmt \<Rightarrow> gstate \<Rightarrow> (flow \<times> gstate) result" where
  "exec_stmt (Label p) g = Inr (Next, g\<lparr>g_loc := Map.empty\<rparr>)"
| "exec_stmt Close g = Inr (Next, g\<lparr>g_loc := Map.empty\<rparr>)"
| "exec_stmt (GetX x r) g =
     declared (if r = 0 then Some 0 else g_x g r) (\<lambda>v. Inr (Next, g\<lparr>g_loc := (g_loc g)(x \<mapsto> (U64, v))\<rparr>))"
| "exec_stmt (SetX r e) g =
     declared (g_x g r) (\<lambda>_. bindE (eval_as U64 (g_loc g) e) (\<lambda>v. Inr (Next, g\<lparr>g_x := (g_x g)(r \<mapsto> v)\<rparr>)))"
| "exec_stmt (GetF t x r fd) g =
     declared (g_f g r) (\<lambda>v. bindE (convert (field_type fd) t (field_get fd v)) (\<lambda>v.
       Inr (Next, g\<lparr>g_loc := (g_loc g)(x \<mapsto> (t, v))\<rparr>)))"
| "exec_stmt (SetF r fd e) g =
     declared (g_f g r) (\<lambda>old. bindE (eval_as (field_type fd) (g_loc g) e) (\<lambda>v.
       Inr (Next, g\<lparr>g_f := (g_f g)(r \<mapsto> field_set fd old v)\<rparr>)))"
| "exec_stmt (Load t x a) g =
     bindE (eval_as U64 (g_loc g) (Bin Add a (ULL GUEST_MEMORY_OFFSET))) (\<lambda>p.
     bindE (load_typed t (g_mem g) p) (\<lambda>v. Inr (Next, g\<lparr>g_loc := (g_loc g)(x \<mapsto> (t, v))\<rparr>)))"
| "exec_stmt (Store t a x) g =
     bindE (eval_as U64 (g_loc g) (Bin Add a (ULL GUEST_MEMORY_OFFSET))) (\<lambda>p.
     bindE (eval (g_loc g) (Cast t (Var x))) (\<lambda>v.
     bindE (store_typed t (g_mem g) p v) (\<lambda>m. Inr (Next, g\<lparr>g_mem := m\<rparr>))))"
| "exec_stmt (RdCases w cs e) g =
     bindE (eval_cases (g_loc g) cs e) (\<lambda>v. Inr (Next, g\<lparr>g_loc := (g_loc g)(''rd'' \<mapsto> (U64, v))\<rparr>))"
| "exec_stmt (IfGoto c p) g = bindE (eval (g_loc g) c) (\<lambda>v. Inr (if v \<noteq> 0 then Jump p else Next, g))"
| "exec_stmt (Goto p) g = Inr (Jump p, g)"
| "exec_stmt (SetExit r) g = Inr (Next, g\<lparr>g_exit := r\<rparr>)"
| "exec_stmt (SetReenter e) g = bindE (eval_as U64 (g_loc g) e) (\<lambda>v. Inr (Next, g\<lparr>g_reenter := v\<rparr>))"
| "exec_stmt GotoEnd g = Inr (End, g)"

fun exec_stmts :: "stmt list \<Rightarrow> gstate \<Rightarrow> (flow \<times> gstate) result" where
  "exec_stmts [] g = Inr (End, g)"
| "exec_stmts (s # ss) g = bindE (exec_stmt s g) (\<lambda>(fl, g').
     if fl = Next then exec_stmts ss g' else Inr (fl, g'))"

definition at_label :: "u64 \<Rightarrow> stmt list \<Rightarrow> stmt list" where
  "at_label p body = dropWhile (\<lambda>s. s \<noteq> Label p) body"

text \<open>
  The body of the generated function from the statements \<open>ss\<close> on: a jump continues at its label,
  running off the end reaches the label \<^verbatim>\<open>end\<close>. \<^const>\<open>None\<close> is a run that does not end.
\<close>

definition body_step :: "stmt list \<Rightarrow> stmt list \<times> gstate \<Rightarrow> gstate result + stmt list \<times> gstate" where
  "body_step body = (\<lambda>(ss, g). case exec_stmts ss g of
     Inl e \<Rightarrow> Inl (Inl e)
   | Inr (fl, g') \<Rightarrow> (case fl of
       Jump p \<Rightarrow> if at_label p body = [] then Inl (Inl (Undefined ''undeclared label''))
                 else Inr (at_label p body, g')
     | _ \<Rightarrow> Inl (Inr g')))"

definition run_body :: "stmt list \<Rightarrow> gstate \<Rightarrow> gstate result option" where
  "run_body body g = drive (body_step body) (body, g)"

end
