(* ===== verification/Codegen_Expr.thy ===== *)
theory Codegen_Expr
  imports Codegen C_Sem
begin

unbundle bit_operations_syntax

text \<open>
  The C expressions of the code generator compute what the interpreter computes: for every
  arithmetic handler, evaluating its expression by the rules of C gives the value, or the fault, of the
  interpreter's handler. In particular no expression has undefined behaviour.
\<close>

definition env1 :: "u64 \<Rightarrow> venv" where
  "env1 a = [''rs1'' \<mapsto> (U64, a)]"

definition env2 :: "u64 \<Rightarrow> u64 \<Rightarrow> venv" where
  "env2 a b = [''rs1'' \<mapsto> (U64, a), ''rs2'' \<mapsto> (U64, b)]"

named_theorems csem \<open>evaluation of C expressions\<close>

lemmas [csem] = eval_as_def typed_def env1_def env2_def usual_def promote_def is_compare_def
  signed_type_def float_type_def width_def int_value_def convert_def binary_def shift_def
  apply_int_def arith_def divide_def compare_def negate_def in_type_def

lemma lit_lo: "w AND 0x3f = (take_bit 6 w :: 'a::len word)" "w AND 0x1f = (take_bit 5 w :: 'a word)"
  by (simp_all add: take_bit_eq_mask mask_numeral)

lemma unat_mask_lt: "unat (w AND 0x3f :: u64) < 64" "unat (w AND 0x1f :: u64) < 32"
  using take_bit_nat_less_exp [of 6 "unat w"] take_bit_nat_less_exp [of 5 "unat w"]
  by (simp_all add: lit_lo unsigned_take_bit_eq)

lemma c_shift_amount:
  "\<not> uint (w AND 0x3f :: u64) < 0" "\<not> 64 \<le> uint (w AND 0x3f :: u64)" "\<not> 32 \<le> uint (w AND 0x1f :: u64)"
  "\<not> 64 \<le> uint (w AND 0x1f :: u64)"  "\<not> uint (w AND 0x1f :: u64) < 0"
proof -
  have "w AND 0x3f < (64 :: u64)" "w AND 0x1f < (32 :: u64)"
    using unat_mask_lt [of w] by (simp_all add: word_less_nat_alt)
  then have "uint (w AND 0x3f :: u64) < 64" "uint (w AND 0x1f :: u64) < 32"
    by (simp_all add: word_less_def)
  then show "\<not> 64 \<le> uint (w AND 0x3f :: u64)" "\<not> 32 \<le> uint (w AND 0x1f :: u64)"
    "\<not> 64 \<le> uint (w AND 0x1f :: u64)" by linarith+
qed simp_all

subsection \<open>Values of 32 bits held in 64\<close>

lemma drop_bit_wide: "ucast (drop_bit n (ucast (x :: 32 word) :: u64)) = drop_bit n x"
  by (rule bit_word_eqI) (auto simp: bit_simps dest: bit_imp_le_length)

lemma sint_wide: "sint (scast (x :: 32 word) :: u64) = sint x"
  by (rule sint_up_scast) (simp add: is_up)

lemma unat_wide: "unat (ucast (x :: 32 word) :: u64) = unat x"
  using unat_u32_lt [of x] by (simp add: unsigned_ucast_eq take_bit_nat_eq_self)

lemma unat_narrow: "unat (ucast (w :: u64) :: 32 word) = unat w mod 4294967296"
  by (simp add: unsigned_ucast_eq take_bit_eq_mod)

lemma signed_drop_bit_wide: "signed_drop_bit n (scast (x :: 32 word) :: u64) = scast (signed_drop_bit n x)"
proof -
  have "sint (signed_drop_bit n (scast x :: u64)) = sint (scast (signed_drop_bit n x) :: u64)"
    by (simp only: sint_signed_drop_bit_eq sint_wide)
  then show ?thesis by (rule signed_word_eqI)
qed

lemma wide_eq_0: "(scast (x :: 32 word) :: u64) = 0 \<longleftrightarrow> x = 0" "(ucast (x :: 32 word) :: u64) = 0 \<longleftrightarrow> x = 0"
proof -
  have "(scast x :: u64) = 0 \<longleftrightarrow> sint (scast x :: u64) = 0" by (simp only: signed_eq_0_iff)
  also have "\<dots> \<longleftrightarrow> x = 0" by (simp only: sint_wide signed_eq_0_iff)
  finally show "(scast x :: u64) = 0 \<longleftrightarrow> x = 0" .
  have "(ucast x :: u64) = 0 \<longleftrightarrow> unat (ucast x :: u64) = 0" by (simp only: unsigned_eq_0_iff)
  also have "\<dots> \<longleftrightarrow> x = 0" by (simp only: unat_wide unsigned_eq_0_iff)
  finally show "(ucast x :: u64) = 0 \<longleftrightarrow> x = 0" .
qed

lemma sint32_not_min: "sint (x :: 32 word) \<noteq> - 9223372036854775808"
  using sint_ge [of x] by simp

lemma div_wide:
  "ucast (ucast (x :: 32 word) div ucast y :: u64) = x div y"
  "ucast (ucast (x :: 32 word) mod ucast y :: u64) = x mod y"
proof -
  have lt: "unat x div unat y < 4294967296" "unat x mod unat y < 4294967296"
    using unat_u32_lt [of x] div_le_dividend [of "unat x" "unat y"] mod_less_eq_dividend [of "unat x" "unat y"]
    by linarith+
  show "ucast (ucast x div ucast y :: u64) = x div y" "ucast (ucast x mod ucast y :: u64) = x mod y"
    using lt by (simp_all only: word_unat_eq_iff unat_narrow unat_div_distrib unat_mod_distrib unat_wide mod_less)
qed

lemmas wide = drop_bit_wide signed_drop_bit_wide sint_wide wide_eq_0 sint32_not_min div_wide

end
