(* ===== verification/Codegen_Sim.thy ===== *)
theory Codegen_Sim
  imports Codegen_Expr
begin

unbundle bit_operations_syntax

text \<open>
  Handler by handler, the statements the code generator emits for an instruction do to the local variables of the
  generated function what the interpreter's handler does to the registers. \<open>gof X F s m loc ex re\<close>
  is the state of the generated function that corresponds to the CPU state \<open>s\<close> when the registers
  \<open>X\<close> and \<open>F\<close> are declared as local variables.
\<close>

subsection \<open>Corresponding states\<close>

definition gof :: "nat set \<Rightarrow> nat set \<Rightarrow> state_t \<Rightarrow> mem \<Rightarrow> venv \<Rightarrow> exit_reason_t \<Rightarrow> u64 \<Rightarrow> gstate" where
  "gof X F s m loc ex re =
     \<lparr>g_x = \<lambda>r. if r \<in> X then Some (gp_regs s ! r) else None,
      g_f = \<lambda>r. if r \<in> F then Some (fp_regs s ! r) else None,
      g_loc = loc, g_exit = ex, g_reenter = re, g_mem = m\<rparr>"

definition covers :: "tracer_t \<Rightarrow> nat set \<Rightarrow> nat set \<Rightarrow> bool" where
  "covers t X F \<longleftrightarrow> (\<forall>r<32. tr_gp_reg t ! r \<and> r \<noteq> 0 \<longrightarrow> r \<in> X) \<and> (\<forall>r<32. tr_fp_reg t ! r \<longrightarrow> r \<in> F)"

definition wf_tracer :: "tracer_t \<Rightarrow> bool" where
  "wf_tracer t \<longleftrightarrow> length (tr_gp_reg t) = 32 \<and> length (tr_fp_reg t) = 32"

definition keeps :: "nat set \<Rightarrow> nat set \<Rightarrow> state_t \<Rightarrow> state_t \<Rightarrow> bool" where
  "keeps X F s s1 \<longleftrightarrow> (\<forall>r. r \<notin> X \<longrightarrow> r \<noteq> 0 \<longrightarrow> gp_regs s1 ! r = gp_regs s ! r) \<and>
     (\<forall>r. r \<notin> F \<longrightarrow> fp_regs s1 ! r = fp_regs s ! r)"

definition same_control :: "state_t \<Rightarrow> state_t \<Rightarrow> bool" where
  "same_control s s1 \<longleftrightarrow> pc s1 = pc s \<and> exit_reason s1 = exit_reason s \<and> reenter_pc s1 = reenter_pc s"

definition regs_within :: "nat set \<Rightarrow> nat set \<Rightarrow> bool" where
  "regs_within X F \<longleftrightarrow> X \<subseteq> {1..<32} \<and> F \<subseteq> {..<32}"

lemma nth_fold_update:
  "r < length bs \<Longrightarrow> fold (\<lambda>n bs. bs[unat n := True]) rs bs ! r \<longleftrightarrow> bs ! r \<or> r \<in> (\<lambda>n. unat n) ` set rs"
proof (induction rs arbitrary: bs)
  case (Cons n rs)
  then have "bs[unat n := True] ! r \<longleftrightarrow> bs ! r \<or> r = unat n" by (cases "r = unat n") simp_all
  with Cons.IH [of "bs[unat n := True]"] Cons.prems show ?case by auto
qed simp

lemma length_fold_update: "length (fold (\<lambda>n bs. bs[unat n := True]) rs bs) = length bs"
  by (induction rs arbitrary: bs) auto

lemma covers_gp:
  assumes "covers (tracer_add_gp_reg_usage t rs) X F" and "wf_tracer t" and "r \<in> set rs" and "unat r < 32"
  shows "r = 0 \<or> unat r \<in> X"
proof -
  from assms(2-4) have "tr_gp_reg (tracer_add_gp_reg_usage t rs) ! unat r"
    by (auto simp: tracer_add_gp_reg_usage_def nth_fold_update wf_tracer_def)
  with assms(1,4) have "unat r = 0 \<or> unat r \<in> X" by (auto simp: covers_def)
  then show ?thesis by (simp only: unsigned_eq_0_iff)
qed

lemma covers_fp:
  assumes "covers (tracer_add_fp_reg_usage t rs) X F" and "wf_tracer t" and "r \<in> set rs" and "unat r < 32"
  shows "unat r \<in> F"
proof -
  from assms(2-4) have "tr_fp_reg (tracer_add_fp_reg_usage t rs) ! unat r"
    by (auto simp: tracer_add_fp_reg_usage_def nth_fold_update wf_tracer_def)
  with assms(1,4) show ?thesis by (auto simp: covers_def)
qed

lemma covers_fp_gp:
  "covers (tracer_add_fp_reg_usage (tracer_add_gp_reg_usage t rs) fs) X F \<Longrightarrow> wf_tracer t \<Longrightarrow>
     covers (tracer_add_gp_reg_usage t rs) X F"
  by (auto simp: covers_def tracer_add_fp_reg_usage_def tracer_add_gp_reg_usage_def nth_fold_update wf_tracer_def)

lemma wf_tracer_add [simp]:
  "wf_tracer (tracer_add_gp_reg_usage t rs) = wf_tracer t"
  "wf_tracer (tracer_add_fp_reg_usage t rs) = wf_tracer t"
  by (simp_all add: wf_tracer_def tracer_add_gp_reg_usage_def tracer_add_fp_reg_usage_def length_fold_update)

subsection \<open>Statements on corresponding states\<close>

lemma x_GetX:
  assumes "r = 0 \<or> unat r \<in> X" and "gp s 0 = 0"
  shows "exec_stmts (GetX x (unat r) # ss) (gof X F s m loc ex re) =
     exec_stmts ss (gof X F s m (loc(x \<mapsto> (U64, gp s r))) ex re)"
  using assms by (auto simp: gof_def declared_def gp_def unat_eq_0 split: option.splits if_splits)

lemma gof_set_gp:
  assumes "unat r \<in> X" and "unat r < length (gp_regs s)"
  shows "(gof X F s m loc ex re)\<lparr>g_x := (g_x (gof X F s m loc ex re))(unat r \<mapsto> v)\<rparr> = gof X F (set_gp r v s) m loc ex re"
  using assms by (auto simp: gof_def set_gp_def fun_eq_iff nth_list_update)

lemma x_SetX:
  assumes "unat r \<in> X" and "wf_state s" and "unat r < 32"
  shows "exec_stmts (SetX (unat r) e # ss) (gof X F s m loc ex re) =
     bindE (eval_as U64 loc e) (\<lambda>v. exec_stmts ss (gof X F (set_gp r v s) m loc ex re))"
proof -
  have d: "g_x (gof X F s m loc ex re) (unat r) = Some (gp_regs s ! unat r)" "g_loc (gof X F s m loc ex re) = loc"
    using assms(1) by (simp_all add: gof_def)
  have u: "(gof X F s m loc ex re)\<lparr>g_x := (g_x (gof X F s m loc ex re))(unat r \<mapsto> v)\<rparr> = gof X F (set_gp r v s) m loc ex re" for v
    using assms by (intro gof_set_gp) simp_all
  show ?thesis by (simp add: d declared_def u bindE_def split: sum.splits del: fun_upd_apply)
qed

lemma x_GetF:
  assumes "unat r \<in> F" and "t = field_type fd"
  shows "exec_stmts (GetF t x (unat r) fd # ss) (gof X F s m loc ex re) =
     exec_stmts ss (gof X F s m (loc(x \<mapsto> (t, field_get fd (fp s r)))) ex re)"
  using assms by (simp add: gof_def declared_def fp_def convert_def)

lemma gof_set_fp:
  assumes "unat r \<in> F" and "unat r < length (fp_regs s)"
  shows "(gof X F s m loc ex re)\<lparr>g_f := (g_f (gof X F s m loc ex re))(unat r \<mapsto> v)\<rparr> = gof X F (set_fp r v s) m loc ex re"
  using assms by (auto simp: gof_def set_fp_def fun_eq_iff nth_list_update)

lemma x_SetF:
  assumes "unat r \<in> F" and "wf_state s" and "unat r < 32"
  shows "exec_stmts (SetF (unat r) fd e # ss) (gof X F s m loc ex re) =
     bindE (eval_as (field_type fd) loc e) (\<lambda>v. exec_stmts ss (gof X F (set_fp r (field_set fd (fp s r) v) s) m loc ex re))"
proof -
  have d: "g_f (gof X F s m loc ex re) (unat r) = Some (fp s r)" "g_loc (gof X F s m loc ex re) = loc"
    using assms(1) by (simp_all add: gof_def fp_def)
  have u: "(gof X F s m loc ex re)\<lparr>g_f := (g_f (gof X F s m loc ex re))(unat r \<mapsto> v)\<rparr> = gof X F (set_fp r v s) m loc ex re" for v
    using assms by (intro gof_set_fp) simp_all
  show ?thesis by (simp add: d declared_def u bindE_def split: sum.splits del: fun_upd_apply)
qed

lemma x_Load:
  assumes "loc ''rs1'' = Some (U64, a)"
  shows "exec_stmts (Load t x (addr_expr i) # ss) (gof X F s m loc ex re) =
     bindE (load_typed t m (TO_HOST (a + imm64 i))) (\<lambda>v. exec_stmts ss (gof X F s m (loc(x \<mapsto> (t, v))) ex re))"
  using assms by (simp add: gof_def addr_expr_def csem TO_HOST_def)

lemma narrow_again:
  "ucast (ucast (ucast (b :: u64) :: u8) :: u64) = (ucast b :: u8)"
  "ucast (ucast (ucast (b :: u64) :: u16) :: u64) = (ucast b :: u16)"
  "ucast (ucast (ucast (b :: u64) :: u32) :: u64) = (ucast b :: u32)"
  by (rule bit_word_eqI, simp add: bit_simps)+

lemma x_Store:
  assumes "loc ''rs1'' = Some (U64, a)" and "loc x = Some (U64, b)" and "t \<in> {U8, U16, U32, U64}"
  shows "exec_stmts (Store t (addr_expr i) x # ss) (gof X F s m loc ex re) =
     bindE (store_typed t m (TO_HOST (a + imm64 i)) b) (\<lambda>m'. exec_stmts ss (gof X F s m' loc ex re))"
  using assms by (auto simp: gof_def addr_expr_def csem TO_HOST_def store_typed_def narrow_again)

lemma x_RdCases:
  "exec_stmts (RdCases w cs e # ss) (gof X F s m loc ex re) =
     bindE (eval_cases loc cs e) (\<lambda>v. exec_stmts ss (gof X F s m (loc(''rd'' \<mapsto> (U64, v))) ex re))"
  by (simp add: gof_def)

lemma x_IfGoto:
  "exec_stmts (IfGoto c p # ss) (gof X F s m loc ex re) =
     bindE (eval loc c) (\<lambda>v. if v \<noteq> 0 then Inr (Jump p, gof X F s m loc ex re) else exec_stmts ss (gof X F s m loc ex re))"
  by (simp add: gof_def bindE_def split: sum.splits)

lemma x_exit:
  "exec_stmts (SetExit r # SetReenter e # GotoEnd # ss) (gof X F s m loc ex re) =
     bindE (eval_as U64 loc e) (\<lambda>v. Inr (End, gof X F s m loc r v))"
  by (simp add: gof_def bindE_def split: sum.splits)

lemma x_Goto: "exec_stmts (Goto p # ss) g = Inr (Jump p, g)"
  by simp

subsection \<open>Straight-line handlers\<close>

text \<open>
  \<open>straight h f\<close>: the statements of the handler \<open>h\<close> of the code generator, in front of any others,
  have the effect of the handler \<open>f\<close> of the interpreter, faults included, whenever the registers the tracer has recorded are
  declared. The one exception is a division fault of an instruction that writes \<^verbatim>\<open>x0\<close>, for which no
  division is emitted.
\<close>

definition effect :: "func_t \<Rightarrow> stmt list \<Rightarrow> insn_t \<Rightarrow> nat set \<Rightarrow> nat set \<Rightarrow> state_t \<Rightarrow> mem \<Rightarrow> exit_reason_t \<Rightarrow> u64 \<Rightarrow> stmt list \<Rightarrow> bool" where
  "effect f ss i X F s m ex re tail \<longleftrightarrow> (case f s m i of
     Inl e \<Rightarrow> (insn_rd i = 0 \<and> e = Sigfpe) \<or> exec_stmts (ss @ tail) (gof X F s m Map.empty ex re) = Inl e
   | Inr (s1, m1, i1) \<Rightarrow> i1 = i \<and> keeps X F s s1 \<and> same_control s s1 \<and>
      (\<exists>loc. exec_stmts (ss @ tail) (gof X F s m Map.empty ex re) = exec_stmts tail (gof X F s1 m1 loc ex re)))"

definition straight :: "cg_func_t \<Rightarrow> func_t \<Rightarrow> bool" where
  "straight h f \<longleftrightarrow> (\<forall>i tr st q ss i' tr' st' X F s m ex re tail.
     wf_insn i \<longrightarrow> wf_tracer tr \<longrightarrow> h [] i tr st q = Inr (ss, i', tr', st') \<longrightarrow> covers tr' X F \<longrightarrow> regs_within X F \<longrightarrow>
     wf_state s \<longrightarrow> gp s 0 = 0 \<longrightarrow> pc s = q \<longrightarrow> i' = i \<and> st' = st \<and> effect f ss i X F s m ex re tail)"

lemma keeps_refl [simp]: "keeps X F s s" "same_control s s"
  by (simp_all add: keeps_def same_control_def)

lemma keeps_set_gp [simp]: "r = 0 \<or> unat r \<in> X \<Longrightarrow> keeps X F s (set_gp r v s)" "same_control s (set_gp r v s)"
  by (auto simp: keeps_def same_control_def set_gp_def intro!: nth_list_update_neq)

lemma keeps_set_fp [simp]: "unat r \<in> F \<Longrightarrow> keeps X F s (set_fp r v s)" "same_control s (set_fp r v s)"
  by (auto simp: keeps_def same_control_def set_fp_def intro!: nth_list_update_neq)

lemma gof_x0: "regs_within X F \<Longrightarrow> gof X F (set_gp 0 v s) m loc ex re = gof X F s m loc ex re"
  by (auto simp: gof_def set_gp_def fun_eq_iff regs_within_def)

lemma wf_insn_regs:
  assumes "wf_insn i"
  shows "unat (insn_rd i) < 32" "unat (insn_rs1 i) < 32" "unat (insn_rs2 i) < 32" "unat (insn_rs3 i) < 32"
  using assms by (simp_all add: wf_insn_def)

lemma straightI:
  assumes "\<And>i tr st q. h [] i tr st q = Inr (ss i q, i, T i tr, st)"
    and "\<And>i tr X F s m ex re tail. wf_insn i \<Longrightarrow> wf_tracer tr \<Longrightarrow> covers (T i tr) X F \<Longrightarrow> regs_within X F \<Longrightarrow>
     wf_state s \<Longrightarrow> gp s 0 = 0 \<Longrightarrow> effect f (ss i (pc s)) i X F s m ex re tail"
  shows "straight h f"
  using assms unfolding straight_def by auto

lemma covers_gpD:
  "covers (tracer_add_gp_reg_usage t rs) X F \<Longrightarrow> wf_tracer t \<Longrightarrow> \<forall>r\<in>set rs. unat r < 32 \<longrightarrow> r = 0 \<or> unat r \<in> X"
  using covers_gp by blast

lemma covers_fpD:
  "covers (tracer_add_fp_reg_usage t rs) X F \<Longrightarrow> wf_tracer t \<Longrightarrow> \<forall>r\<in>set rs. unat r < 32 \<longrightarrow> unat r \<in> F"
  using covers_fp by blast

text \<open>The write of a result to a general-purpose register, with or without a statement.\<close>

lemma x_result:
  assumes "insn_rd i = 0 \<or> unat (insn_rd i) \<in> X" and "regs_within X F" and "wf_state s" and "wf_insn i"
    and "eval_as U64 loc e = Inr v \<or> insn_rd i = 0"
  shows "exec_stmts (REG_SET_EXPR (insn_rd i) e [] @ tail) (gof X F s m loc ex re) =
     exec_stmts tail (gof X F (set_gp (insn_rd i) v s) m loc ex re)"
proof (cases "insn_rd i = 0")
  case True
  then show ?thesis using assms(2) by (simp add: REG_SET_EXPR_def gof_x0)
next
  case False
  with assms have "unat (insn_rd i) \<in> X" "unat (insn_rd i) < 32" "eval_as U64 loc e = Inr v"
    by (simp_all add: wf_insn_regs)
  with assms(3) False show ?thesis
    by (simp add: REG_SET_EXPR_def x_SetX del: exec_stmts.simps)
qed

lemma REG_SET_EXPR_append: "REG_SET_EXPR r e ss = ss @ REG_SET_EXPR r e []"
  by (simp add: REG_SET_EXPR_def)

lemma effect_put_gp:
  assumes w: "wf_insn i" "wf_state s" "regs_within X F" "insn_rd i = 0 \<or> unat (insn_rd i) \<in> X"
    and run: "exec_stmts (ss @ tail) (gof X F s m Map.empty ex re) =
      exec_stmts (REG_SET_EXPR (insn_rd i) e [] @ tail) (gof X F s m loc ex re)"
    and f: "f s m i = bindE r (\<lambda>v. Inr (set_gp (insn_rd i) v s, m, i))"
    and e: "eval_as U64 loc e = r" and fault: "\<And>er. r = Inl er \<Longrightarrow> er = Sigfpe"
  shows "effect f ss i X F s m ex re tail"
proof (cases r)
  case (Inl er)
  with fault have er: "er = Sigfpe" by blast
  show ?thesis
  proof (cases "insn_rd i = 0")
    case False
    with w run e Inl er have "exec_stmts (ss @ tail) (gof X F s m Map.empty ex re) = Inl Sigfpe"
      by (simp add: REG_SET_EXPR_def x_SetX wf_insn_regs del: exec_stmts.simps)
    with f Inl er show ?thesis by (simp add: effect_def)
  qed (use f Inl er in \<open>simp add: effect_def\<close>)
next
  case (Inr v)
  with x_result [of i X F s loc e v tail m ex re] w run f e show ?thesis by (auto simp: effect_def)
qed

lemma effect_put_fp:
  assumes w: "wf_insn i" "wf_state s" "unat (insn_rd i) \<in> F"
    and run: "exec_stmts (ss @ tail) (gof X F s m Map.empty ex re) =
      exec_stmts (SetF (unat (insn_rd i)) fd e # tail) (gof X F s m loc ex re)"
    and f: "f s m i = Inr (set_fp (insn_rd i) (field_set fd (fp s (insn_rd i)) v) s, m, i)"
    and e: "eval_as (field_type fd) loc e = Inr v"
  shows "effect f ss i X F s m ex re tail"
  using x_SetF [of "insn_rd i" F s fd e tail X m loc ex re] w run f e
  by (auto simp: effect_def wf_insn_regs simp del: exec_stmts.simps)

lemma straight_alu:
  assumes "\<And>a b. eval_as U64 (env2 a b) e = g a b" and "\<And>a b er. g a b = Inl er \<Longrightarrow> er = Sigfpe"
  shows "straight (cg_FUNC_alu e) (FUNC_alu g)"
proof (rule straightI)
  fix i tr st q
  show "cg_FUNC_alu e [] i tr st q = Inr (GetX ''rs1'' (unat (insn_rs1 i)) # GetX ''rs2'' (unat (insn_rs2 i)) #
      REG_SET_EXPR (insn_rd i) e [], i, tracer_add_gp_reg_usage tr [insn_rs1 i, insn_rs2 i, insn_rd i], st)"
    by (simp add: emit_defs Let_def)
next
  fix i tr X F s m ex re tail
  assume w: "wf_insn i" "wf_tracer tr" "wf_state s" "gp s 0 = 0" "regs_within X F"
    and c: "covers (tracer_add_gp_reg_usage tr [insn_rs1 i, insn_rs2 i, insn_rd i]) X F"
  from covers_gpD [OF c w(2)] w show "effect (FUNC_alu g) (GetX ''rs1'' (unat (insn_rs1 i)) #
      GetX ''rs2'' (unat (insn_rs2 i)) # REG_SET_EXPR (insn_rd i) e []) i X F s m ex re tail"
    by (intro effect_put_gp [where loc = "env2 (gp s (insn_rs1 i)) (gp s (insn_rs2 i))", OF _ _ _ _ _ _ assms(1)])
      (simp_all add: wf_insn_regs x_GetX env2_def FUNC_alu_def assms(2) del: exec_stmts.simps)
qed

lemma straight_imm:
  assumes "\<And>i a. eval_as U64 (env1 a) (e i) = Inr (g a (imm64 i))"
  shows "straight (cg_FUNC_imm e) (FUNC_imm g)"
proof (rule straightI)
  fix i tr st q
  show "cg_FUNC_imm e [] i tr st q = Inr (GetX ''rs1'' (unat (insn_rs1 i)) # REG_SET_EXPR (insn_rd i) (e i) [],
      i, tracer_add_gp_reg_usage tr [insn_rs1 i, insn_rd i], st)"
    by (simp add: emit_defs Let_def)
next
  fix i tr X F s m ex re tail
  assume w: "wf_insn i" "wf_tracer tr" "wf_state s" "gp s 0 = 0" "regs_within X F"
    and c: "covers (tracer_add_gp_reg_usage tr [insn_rs1 i, insn_rd i]) X F"
  from covers_gpD [OF c w(2)] w show "effect (FUNC_imm g) (GetX ''rs1'' (unat (insn_rs1 i)) #
      REG_SET_EXPR (insn_rd i) (e i) []) i X F s m ex re tail"
    by (intro effect_put_gp [where loc = "env1 (gp s (insn_rs1 i))", OF _ _ _ _ _ _ assms])
      (simp_all add: wf_insn_regs x_GetX env1_def FUNC_imm_def Let_def del: exec_stmts.simps)
qed

lemma straight_load:
  assumes "\<And>m a. load_typed t m a = bindE (ld m a) (\<lambda>x. Inr (ext x))" and "\<not> float_type t"
  shows "straight (cg_FUNC_load t) (FUNC_load ld ext)"
proof (rule straightI)
  fix i tr st q
  show "cg_FUNC_load t [] i tr st q = Inr (GetX ''rs1'' (unat (insn_rs1 i)) # Load t ''rd'' (addr_expr i) #
      REG_SET_EXPR (insn_rd i) (Var ''rd'') [], i, tracer_add_gp_reg_usage tr [insn_rs1 i, insn_rd i], st)"
    by (simp add: emit_defs Let_def)
next
  fix i tr X F s m ex re tail
  assume w: "wf_insn i" "wf_tracer tr" "wf_state s" "gp s 0 = 0" "regs_within X F"
    and c: "covers (tracer_add_gp_reg_usage tr [insn_rs1 i, insn_rd i]) X F"
  let ?a = "gp s (insn_rs1 i)" and ?ss = "GetX ''rs1'' (unat (insn_rs1 i)) # Load t ''rd'' (addr_expr i) #
      REG_SET_EXPR (insn_rd i) (Var ''rd'') []"
  have v: "eval_as U64 (loc(''rd'' \<mapsto> (t, v))) (Var ''rd'') = Inr v" for loc v
    using assms(2) by (cases t) (simp_all add: csem)
  show "effect (FUNC_load ld ext) ?ss i X F s m ex re tail"
  proof (cases "ld m (TO_HOST (?a + imm64 i))")
    case (Inl er)
    with covers_gpD [OF c w(2)] w show ?thesis
      by (simp add: effect_def FUNC_load_def x_GetX x_Load wf_insn_regs assms(1) del: exec_stmts.simps)
  next
    case (Inr x)
    with covers_gpD [OF c w(2)] w show ?thesis
      by (intro effect_put_gp [where loc = "[''rs1'' \<mapsto> (U64, ?a), ''rd'' \<mapsto> (t, ext x)]", OF _ _ _ _ _ _ v])
        (simp_all add: FUNC_load_def x_GetX x_Load wf_insn_regs assms(1) del: exec_stmts.simps)
  qed
qed

lemma straight_store:
  assumes "\<And>m a v. store_typed t m a v = st m a (ucast v)" and "t \<in> {U8, U16, U32, U64}"
  shows "straight (cg_FUNC_store t) (FUNC_store st)"
proof (rule straightI)
  fix i tr k q
  show "cg_FUNC_store t [] i tr k q = Inr ([GetX ''rs1'' (unat (insn_rs1 i)), GetX ''rs2'' (unat (insn_rs2 i)),
      Store t (addr_expr i) ''rs2''], i, tracer_add_gp_reg_usage tr [insn_rs1 i, insn_rs2 i], k)"
    by (simp add: emit_defs Let_def)
next
  fix i tr X F s m ex re tail
  assume w: "wf_insn i" "wf_tracer tr" "wf_state s" "gp s 0 = 0" "regs_within X F"
    and c: "covers (tracer_add_gp_reg_usage tr [insn_rs1 i, insn_rs2 i]) X F"
  let ?a = "gp s (insn_rs1 i)" and ?b = "gp s (insn_rs2 i)"
  let ?loc = "[''rs1'' \<mapsto> (U64, ?a), ''rs2'' \<mapsto> (U64, ?b)]"
  have "exec_stmts ([GetX ''rs1'' (unat (insn_rs1 i)), GetX ''rs2'' (unat (insn_rs2 i)), Store t (addr_expr i) ''rs2''] @ tail)
      (gof X F s m Map.empty ex re) = exec_stmts (Store t (addr_expr i) ''rs2'' # tail) (gof X F s m ?loc ex re)"
    using covers_gpD [OF c w(2)] w by (simp add: x_GetX wf_insn_regs del: exec_stmts.simps)
  also have "\<dots> = bindE (st m (TO_HOST (?a + imm64 i)) (ucast ?b)) (\<lambda>m'. exec_stmts tail (gof X F s m' ?loc ex re))"
    using x_Store [of ?loc ?a "''rs2''" ?b t i tail X F s m ex re] assms by simp
  finally show "effect (FUNC_store st) [GetX ''rs1'' (unat (insn_rs1 i)), GetX ''rs2'' (unat (insn_rs2 i)),
      Store t (addr_expr i) ''rs2''] i X F s m ex re tail"
    by (cases "st m (TO_HOST (?a + imm64 i)) (ucast ?b)") (auto simp: effect_def FUNC_store_def Let_def)
qed

lemma straight_div:
  assumes "\<And>a b. eval_cases (env2 a b) cs e = Inr (g a b)"
  shows "straight (cg_FUNC_div (RdCases w cs e)) (FUNC_alu (\<lambda>a b. Inr (g a b)))"
proof (rule straightI)
  fix i tr st q
  show "cg_FUNC_div (RdCases w cs e) [] i tr st q = Inr (GetX ''rs1'' (unat (insn_rs1 i)) # GetX ''rs2'' (unat (insn_rs2 i)) #
      RdCases w cs e # REG_SET_EXPR (insn_rd i) (Var ''rd'') [], i,
      tracer_add_gp_reg_usage tr [insn_rs1 i, insn_rs2 i, insn_rd i], st)"
    by (simp add: emit_defs Let_def)
next
  fix i tr X F s m ex re tail
  assume wf: "wf_insn i" "wf_tracer tr" "wf_state s" "gp s 0 = 0" "regs_within X F"
    and c: "covers (tracer_add_gp_reg_usage tr [insn_rs1 i, insn_rs2 i, insn_rd i]) X F"
  let ?loc = "env2 (gp s (insn_rs1 i)) (gp s (insn_rs2 i))" and ?v = "g (gp s (insn_rs1 i)) (gp s (insn_rs2 i))"
  have "exec_stmts (RdCases w cs e # ss) (gof X F s m ?loc ex re) =
      exec_stmts ss (gof X F s m (?loc(''rd'' \<mapsto> (U64, ?v))) ex re)" for ss
    by (simp add: x_RdCases assms del: exec_stmts.simps)
  note rc = this [unfolded env2_def]
  have v: "eval_as U64 (loc(''rd'' \<mapsto> (U64, x))) (Var ''rd'') = Inr x" for loc x by (simp add: csem)
  from covers_gpD [OF c wf(2)] wf show "effect (FUNC_alu (\<lambda>a b. Inr (g a b))) (GetX ''rs1'' (unat (insn_rs1 i)) #
      GetX ''rs2'' (unat (insn_rs2 i)) # RdCases w cs e # REG_SET_EXPR (insn_rd i) (Var ''rd'') []) i X F s m ex re tail"
    by (intro effect_put_gp [where loc = "?loc(''rd'' \<mapsto> (U64, ?v))", OF _ _ _ _ _ _ v])
      (simp_all add: FUNC_alu_def x_GetX rc wf_insn_regs env2_def Let_def del: exec_stmts.simps)
qed

lemma REG_SET_VAL_eq: "REG_SET_VAL r v = REG_SET_EXPR r (LL v)"
  by (simp add: REG_SET_VAL_def REG_SET_EXPR_def fun_eq_iff)

lemma straight_const:
  assumes "\<And>i tr st q. h [] i tr st q =
      Inr (REG_SET_EXPR (insn_rd i) (e i q) [], i, tracer_add_gp_reg_usage tr [insn_rd i], st)"
    and "\<And>i s. eval_as U64 Map.empty (e i (pc s)) = Inr (g s i)"
  shows "straight h (put_gp g)"
proof (rule straightI)
  fix i tr st q
  show "h [] i tr st q = Inr (REG_SET_EXPR (insn_rd i) (e i q) [], i, tracer_add_gp_reg_usage tr [insn_rd i], st)"
    by (rule assms(1))
next
  fix i tr X F s m ex re tail
  assume w: "wf_insn i" "wf_tracer tr" "wf_state s" "gp s 0 = 0" "regs_within X F"
    and c: "covers (tracer_add_gp_reg_usage tr [insn_rd i]) X F"
  from covers_gpD [OF c w(2)] w show "effect (put_gp g) (REG_SET_EXPR (insn_rd i) (e i (pc s)) []) i X F s m ex re tail"
    by (intro effect_put_gp [where loc = Map.empty, OF _ _ _ _ _ _ assms(2)])
      (simp_all add: wf_insn_regs put_gp_def del: exec_stmts.simps)
qed

lemma straight_empty: "straight cg_func_empty func_empty"
  by (auto simp: straight_def cg_func_empty_def func_empty_def effect_def)

lemma straight_csr: "straight cg_FUNC_csr FUNC_csr"
  unfolding straight_def
proof (intro allI impI)
  fix i tr st q ss i' tr' st' X F s m ex re tail
  assume w: "wf_insn i" "wf_tracer tr" "regs_within X F" "wf_state s" "gp s 0 = 0"
    and h: "cg_FUNC_csr [] i tr st q = Inr (ss, i', tr', st')" and c: "covers tr' X F"
  from h have csr: "insn_csr i = csr_fflags \<or> insn_csr i = csr_frm \<or> insn_csr i = csr_fcsr"
    and eq: "ss = REG_SET_EXPR (insn_rd i) (Dec 0) []" "i' = i" "st' = st"
      "insn_rd i = 0 \<or> tr' = tracer_add_gp_reg_usage tr [insn_rd i]"
    by (auto simp: cg_FUNC_csr_def REG_SET_EXPR_def split: if_splits)
  from eq(4) c w have "insn_rd i = 0 \<or> unat (insn_rd i) \<in> X"
    using covers_gpD [of tr "[insn_rd i]" X F] by (auto simp: wf_insn_regs)
  with w csr have "effect FUNC_csr (REG_SET_EXPR (insn_rd i) (Dec 0) []) i X F s m ex re tail"
    by (intro effect_put_gp [where loc = Map.empty and r = "Inr 0" and e = "Dec 0"])
      (auto simp: csem FUNC_csr_def)
  with eq show "i' = i \<and> st' = st \<and> effect FUNC_csr ss i X F s m ex re tail" by simp
qed

subsection \<open>Floating point\<close>

definition fenv2 :: "ctype \<Rightarrow> u64 \<Rightarrow> u64 \<Rightarrow> venv" where [csem]:
  "fenv2 t a b = [''rs1'' \<mapsto> (t, a), ''rs2'' \<mapsto> (t, b)]"

definition fenv3 :: "ctype \<Rightarrow> u64 \<Rightarrow> u64 \<Rightarrow> u64 \<Rightarrow> venv" where [csem]:
  "fenv3 t a b c = [''rs1'' \<mapsto> (t, a), ''rs2'' \<mapsto> (t, b), ''rs3'' \<mapsto> (t, c)]"

lemma narrow_wide [simp]: "ucast (ucast (x :: u32) :: u64) = x"
  by (rule bit_word_eqI) (simp add: bit_simps)

lemma straight_fma:
  assumes "t = field_type fd"
    and "\<And>s m i. f s m i = Inr (set_fp (insn_rd i) (field_set fd (fp s (insn_rd i)) (g (field_get fd (fp s (insn_rs1 i)))
      (field_get fd (fp s (insn_rs2 i))) (field_get fd (fp s (insn_rs3 i))))) s, m, i)"
    and "\<And>a b c. eval_as t (fenv3 t (field_get fd a) (field_get fd b) (field_get fd c)) e =
      Inr (g (field_get fd a) (field_get fd b) (field_get fd c))"
  shows "straight (cg_FUNC_fma t fd e) f"
proof (rule straightI)
  fix i tr st q
  show "cg_FUNC_fma t fd e [] i tr st q = Inr ([GetF t ''rs1'' (unat (insn_rs1 i)) fd, GetF t ''rs2'' (unat (insn_rs2 i)) fd,
      GetF t ''rs3'' (unat (insn_rs3 i)) fd, SetF (unat (insn_rd i)) fd e], i,
      tracer_add_fp_reg_usage tr [insn_rs1 i, insn_rs2 i, insn_rs3 i, insn_rd i], st)"
    by (simp add: emit_defs Let_def)
next
  fix i tr X F s m ex re tail
  assume w: "wf_insn i" "wf_tracer tr" "wf_state s" "gp s 0 = 0" "regs_within X F"
    and c: "covers (tracer_add_fp_reg_usage tr [insn_rs1 i, insn_rs2 i, insn_rs3 i, insn_rd i]) X F"
  from covers_fpD [OF c w(2)] w show "effect f [GetF t ''rs1'' (unat (insn_rs1 i)) fd, GetF t ''rs2'' (unat (insn_rs2 i)) fd,
      GetF t ''rs3'' (unat (insn_rs3 i)) fd, SetF (unat (insn_rd i)) fd e] i X F s m ex re tail"
    using assms(3) [of "fp s (insn_rs1 i)" "fp s (insn_rs2 i)" "fp s (insn_rs3 i)"]
    by (intro effect_put_fp [OF _ _ _ _ assms(2)])
      (simp_all add: wf_insn_regs x_GetF assms(1) fenv3_def del: exec_stmts.simps)
qed

lemma straight_fp:
  assumes "t = field_type fd"
    and "\<And>s m i. f s m i = Inr (set_fp (insn_rd i) (field_set fd (fp s (insn_rd i)) (g (field_get fd (fp s (insn_rs1 i)))
      (field_get fd (fp s (insn_rs2 i))))) s, m, i)"
    and "\<And>a b. eval_as t (fenv2 t (field_get fd a) (field_get fd b)) e = Inr (g (field_get fd a) (field_get fd b))"
  shows "straight (cg_FUNC_fp t fd e) f"
proof (rule straightI)
  fix i tr st q
  show "cg_FUNC_fp t fd e [] i tr st q = Inr ([GetF t ''rs1'' (unat (insn_rs1 i)) fd, GetF t ''rs2'' (unat (insn_rs2 i)) fd,
      SetF (unat (insn_rd i)) fd e], i, tracer_add_fp_reg_usage tr [insn_rs1 i, insn_rs2 i, insn_rd i], st)"
    by (simp add: emit_defs Let_def)
next
  fix i tr X F s m ex re tail
  assume w: "wf_insn i" "wf_tracer tr" "wf_state s" "gp s 0 = 0" "regs_within X F"
    and c: "covers (tracer_add_fp_reg_usage tr [insn_rs1 i, insn_rs2 i, insn_rd i]) X F"
  from covers_fpD [OF c w(2)] w show "effect f [GetF t ''rs1'' (unat (insn_rs1 i)) fd, GetF t ''rs2'' (unat (insn_rs2 i)) fd,
      SetF (unat (insn_rd i)) fd e] i X F s m ex re tail"
    using assms(3) [of "fp s (insn_rs1 i)" "fp s (insn_rs2 i)"]
    by (intro effect_put_fp [OF _ _ _ _ assms(2)])
      (simp_all add: wf_insn_regs x_GetF assms(1) fenv2_def del: exec_stmts.simps)
qed

lemma straight_fcmp:
  assumes "t = field_type fd"
    and "\<And>s m i. f s m i = Inr (set_gp (insn_rd i) (g (field_get fd (fp s (insn_rs1 i))) (field_get fd (fp s (insn_rs2 i)))) s, m, i)"
    and "\<And>a b. eval_as U64 (fenv2 t (field_get fd a) (field_get fd b)) e = Inr (g (field_get fd a) (field_get fd b))"
  shows "straight (cg_FUNC_fcmp t fd e) f"
proof (rule straightI)
  fix i tr st q
  show "cg_FUNC_fcmp t fd e [] i tr st q = Inr (GetF t ''rs1'' (unat (insn_rs1 i)) fd # GetF t ''rs2'' (unat (insn_rs2 i)) fd #
      REG_SET_EXPR (insn_rd i) e [], i,
      tracer_add_fp_reg_usage (tracer_add_gp_reg_usage tr [insn_rd i]) [insn_rs1 i, insn_rs2 i], st)"
    by (simp add: emit_defs Let_def)
next
  fix i tr X F s m ex re tail
  assume w: "wf_insn i" "wf_tracer tr" "wf_state s" "gp s 0 = 0" "regs_within X F"
    and c: "covers (tracer_add_fp_reg_usage (tracer_add_gp_reg_usage tr [insn_rd i]) [insn_rs1 i, insn_rs2 i]) X F"
  from covers_gpD [OF covers_fp_gp [OF c w(2)] w(2)] covers_fpD [OF c] w show "effect f (GetF t ''rs1'' (unat (insn_rs1 i)) fd #
      GetF t ''rs2'' (unat (insn_rs2 i)) fd # REG_SET_EXPR (insn_rd i) e []) i X F s m ex re tail"
    by (intro effect_put_gp [OF _ _ _ _ _ _ assms(3) [of "fp s (insn_rs1 i)" "fp s (insn_rs2 i)"]])
      (simp_all add: wf_insn_regs x_GetF assms(1,2) fenv2_def del: exec_stmts.simps)
qed

lemma straight_f_to_x:
  assumes "t = field_type fd"
    and "\<And>s m i. f s m i = Inr (set_gp (insn_rd i) (g (field_get fd (fp s (insn_rs1 i)))) s, m, i)"
    and "\<And>a. eval_as U64 [''rs1'' \<mapsto> (t, field_get fd a)] e = Inr (g (field_get fd a))"
  shows "straight (cg_f_to_x t fd e) f"
proof (rule straightI)
  fix i tr st q
  show "cg_f_to_x t fd e [] i tr st q = Inr (GetF t ''rs1'' (unat (insn_rs1 i)) fd # REG_SET_EXPR (insn_rd i) e [], i,
      tracer_add_fp_reg_usage (tracer_add_gp_reg_usage tr [insn_rd i]) [insn_rs1 i], st)"
    by (simp add: emit_defs Let_def)
next
  fix i tr X F s m ex re tail
  assume w: "wf_insn i" "wf_tracer tr" "wf_state s" "gp s 0 = 0" "regs_within X F"
    and c: "covers (tracer_add_fp_reg_usage (tracer_add_gp_reg_usage tr [insn_rd i]) [insn_rs1 i]) X F"
  from covers_gpD [OF covers_fp_gp [OF c w(2)] w(2)] covers_fpD [OF c] w
  show "effect f (GetF t ''rs1'' (unat (insn_rs1 i)) fd # REG_SET_EXPR (insn_rd i) e []) i X F s m ex re tail"
    by (intro effect_put_gp [OF _ _ _ _ _ _ assms(3) [of "fp s (insn_rs1 i)"]])
      (simp_all add: wf_insn_regs x_GetF assms(1,2) del: exec_stmts.simps)
qed

lemma straight_f_to_f:
  assumes "t = field_type fd"
    and "\<And>s m i. f s m i = Inr (set_fp (insn_rd i) (field_set fd' (fp s (insn_rd i)) (g (field_get fd (fp s (insn_rs1 i))))) s, m, i)"
    and "\<And>a. eval_as (field_type fd') [''rs1'' \<mapsto> (t, field_get fd a)] e = Inr (g (field_get fd a))"
  shows "straight (cg_f_to_f t fd fd' e) f"
proof (rule straightI)
  fix i tr st q
  show "cg_f_to_f t fd fd' e [] i tr st q = Inr ([GetF t ''rs1'' (unat (insn_rs1 i)) fd, SetF (unat (insn_rd i)) fd' e], i,
      tracer_add_fp_reg_usage tr [insn_rs1 i, insn_rd i], st)"
    by (simp add: emit_defs Let_def)
next
  fix i tr X F s m ex re tail
  assume w: "wf_insn i" "wf_tracer tr" "wf_state s" "gp s 0 = 0" "regs_within X F"
    and c: "covers (tracer_add_fp_reg_usage tr [insn_rs1 i, insn_rd i]) X F"
  from covers_fpD [OF c w(2)] w
  show "effect f [GetF t ''rs1'' (unat (insn_rs1 i)) fd, SetF (unat (insn_rd i)) fd' e] i X F s m ex re tail"
    using assms(3) [of "fp s (insn_rs1 i)"] by (intro effect_put_fp [OF _ _ _ _ assms(2)])
      (simp_all add: wf_insn_regs x_GetF assms(1) del: exec_stmts.simps)
qed

lemma straight_x_to_f:
  assumes "\<And>s m i. f s m i = Inr (set_fp (insn_rd i) (field_set fd (fp s (insn_rd i)) (g (gp s (insn_rs1 i)))) s, m, i)"
    and "\<And>a. eval_as (field_type fd) (env1 a) e = Inr (g a)"
  shows "straight (cg_x_to_f fd e) f"
proof (rule straightI)
  fix i tr st q
  show "cg_x_to_f fd e [] i tr st q = Inr ([GetX ''rs1'' (unat (insn_rs1 i)), SetF (unat (insn_rd i)) fd e], i,
      tracer_add_fp_reg_usage (tracer_add_gp_reg_usage tr [insn_rs1 i]) [insn_rd i], st)"
    by (simp add: emit_defs Let_def)
next
  fix i tr X F s m ex re tail
  assume w: "wf_insn i" "wf_tracer tr" "wf_state s" "gp s 0 = 0" "regs_within X F"
    and c: "covers (tracer_add_fp_reg_usage (tracer_add_gp_reg_usage tr [insn_rs1 i]) [insn_rd i]) X F"
  from covers_gpD [OF covers_fp_gp [OF c w(2)] w(2)] covers_fpD [OF c] w
  show "effect f [GetX ''rs1'' (unat (insn_rs1 i)), SetF (unat (insn_rd i)) fd e] i X F s m ex re tail"
    using assms(2) [of "gp s (insn_rs1 i)"] by (intro effect_put_fp [OF _ _ _ _ assms(1)])
      (simp_all add: wf_insn_regs x_GetX env1_def del: exec_stmts.simps)
qed

lemma straight_fload:
  assumes "\<And>s m i. f s m i = bindE (ld m (TO_HOST (gp s (insn_rs1 i) + imm64 i))) (\<lambda>x. Inr (set_fp (insn_rd i) (ext x) s, m, i))"
    and "\<And>m a. load_typed t m a = bindE (ld m a) (\<lambda>x. Inr (raw x))"
    and "\<And>a x. eval_as U64 [''rs1'' \<mapsto> (U64, a), ''rd'' \<mapsto> (t, raw x)] e = Inr (ext x)"
  shows "straight (cg_FUNC_fload t e) f"
proof (rule straightI)
  fix i tr st q
  show "cg_FUNC_fload t e [] i tr st q = Inr ([GetX ''rs1'' (unat (insn_rs1 i)), Load t ''rd'' (addr_expr i),
      SetF (unat (insn_rd i)) Fv e], i, tracer_add_fp_reg_usage (tracer_add_gp_reg_usage tr [insn_rs1 i]) [insn_rd i], st)"
    by (simp add: emit_defs Let_def)
next
  fix i tr X F s m ex re tail
  assume w: "wf_insn i" "wf_tracer tr" "wf_state s" "gp s 0 = 0" "regs_within X F"
    and c: "covers (tracer_add_fp_reg_usage (tracer_add_gp_reg_usage tr [insn_rs1 i]) [insn_rd i]) X F"
  note r = covers_gpD [OF covers_fp_gp [OF c w(2)] w(2)] covers_fpD [OF c]
  show "effect f [GetX ''rs1'' (unat (insn_rs1 i)), Load t ''rd'' (addr_expr i), SetF (unat (insn_rd i)) Fv e] i X F s m ex re tail"
  proof (cases "ld m (TO_HOST (gp s (insn_rs1 i) + imm64 i))")
    case (Inl er)
    with r w show ?thesis
      by (simp add: effect_def assms(1,2) x_GetX x_Load wf_insn_regs del: exec_stmts.simps)
  next
    case (Inr x)
    with r w assms(3) [of "gp s (insn_rs1 i)" x] show ?thesis
      by (intro effect_put_fp [where v = "ext x" and fd = Fv and e = e
            and loc = "[''rs1'' \<mapsto> (U64, gp s (insn_rs1 i)), ''rd'' \<mapsto> (t, raw x)]"])
        (simp_all add: assms(1,2) x_GetX x_Load wf_insn_regs field_set_def del: exec_stmts.simps)
  qed
qed

lemma straight_fstore:
  assumes "\<And>m a v. store_typed t m a v = st m a (ucast v)" and "t \<in> {U8, U16, U32, U64}"
  shows "straight (cg_FUNC_fstore t) (FUNC_fstore st)"
proof (rule straightI)
  fix i tr k q
  show "cg_FUNC_fstore t [] i tr k q = Inr ([GetX ''rs1'' (unat (insn_rs1 i)), GetF U64 ''rs2'' (unat (insn_rs2 i)) Fv,
      Store t (addr_expr i) ''rs2''], i, tracer_add_fp_reg_usage (tracer_add_gp_reg_usage tr [insn_rs1 i]) [insn_rs2 i], k)"
    by (simp add: emit_defs Let_def)
next
  fix i tr X F s m ex re tail
  assume w: "wf_insn i" "wf_tracer tr" "wf_state s" "gp s 0 = 0" "regs_within X F"
    and c: "covers (tracer_add_fp_reg_usage (tracer_add_gp_reg_usage tr [insn_rs1 i]) [insn_rs2 i]) X F"
  let ?a = "gp s (insn_rs1 i)" and ?b = "fp s (insn_rs2 i)"
  let ?loc = "[''rs1'' \<mapsto> (U64, ?a), ''rs2'' \<mapsto> (U64, ?b)]"
  have "exec_stmts ([GetX ''rs1'' (unat (insn_rs1 i)), GetF U64 ''rs2'' (unat (insn_rs2 i)) Fv, Store t (addr_expr i) ''rs2''] @ tail)
      (gof X F s m Map.empty ex re) = exec_stmts (Store t (addr_expr i) ''rs2'' # tail) (gof X F s m ?loc ex re)"
    using covers_gpD [OF covers_fp_gp [OF c w(2)] w(2)] covers_fpD [OF c] w
    by (simp add: x_GetX x_GetF field_get_def wf_insn_regs del: exec_stmts.simps)
  also have "\<dots> = bindE (st m (TO_HOST (?a + imm64 i)) (ucast ?b)) (\<lambda>m'. exec_stmts tail (gof X F s m' ?loc ex re))"
    using x_Store [of ?loc ?a "''rs2''" ?b t i tail X F s m ex re] assms by simp
  finally show "effect (FUNC_fstore st) [GetX ''rs1'' (unat (insn_rs1 i)), GetF U64 ''rs2'' (unat (insn_rs2 i)) Fv,
      Store t (addr_expr i) ''rs2''] i X F s m ex re tail"
    by (cases "st m (TO_HOST (?a + imm64 i)) (ucast ?b)") (auto simp: effect_def FUNC_fstore_def Let_def)
qed

end
