(* ===== verification/Codegen_Handlers.thy ===== *)
theory Codegen_Handlers
  imports Codegen_Sim
begin

unbundle bit_operations_syntax

text \<open>
  Every handler of the code generator against its counterpart in the interpreter: the expression of each
  handler evaluates to the interpreter's value.
\<close>

lemma imm_shift_amount:
  "unat (insn_imm i AND 0x3f) = sh6 (imm64 i)" "unat (insn_imm i AND 0x1f) = sh5 (imm64 i)"
proof -
  have "unat (ucast (imm64 i AND 0x3f) :: u32) = unat (imm64 i AND 0x3f)"
    "unat (ucast (imm64 i AND 0x1f) :: u32) = unat (imm64 i AND 0x1f)"
    using unat_mask_lt [of "imm64 i"] by (simp_all add: unat_narrow)
  moreover have "ucast (imm64 i AND 0x3f) = insn_imm i AND 0x3f" "ucast (imm64 i AND 0x1f) = insn_imm i AND 0x1f"
    by (rule bit_word_eqI, auto simp: imm64_def lit_lo bit_simps)+
  ultimately show "unat (insn_imm i AND 0x3f) = sh6 (imm64 i)" "unat (insn_imm i AND 0x1f) = sh5 (imm64 i)"
    by (simp_all add: sh6_def sh5_def)
qed

lemma sh_lt: "sh6 a < 64" "sh5 a < 32" "sh5 a < 64"
  using unat_mask_lt [of a] by (simp_all add: sh6_def sh5_def)

lemma sint_small: "n < 64 \<Longrightarrow> sint (of_nat n :: u64) = int n"
  by (simp add: signed_of_nat signed_take_bit_int_eq_self)

lemma sint_sh [simp]: "sint (of_nat (sh6 a) :: u64) = int (sh6 a)" "sint (of_nat (sh5 a) :: u64) = int (sh5 a)"
  using sh_lt [of a] by (simp_all add: sint_small)

lemma sh_bounds [simp]: "\<not> 64 \<le> sh6 a" "\<not> 32 \<le> sh5 a" "\<not> 64 \<le> sh5 a"
  using sh_lt [of a] by linarith+

lemma straight_imms:
  "straight cg_func_addi func_addi" "straight cg_func_slti func_slti" "straight cg_func_sltiu func_sltiu"
  "straight cg_func_xori func_xori" "straight cg_func_ori func_ori" "straight cg_func_andi func_andi"
  "straight cg_func_addiw func_addiw"
  unfolding cg_defs alu_defs by (rule straight_imm, simp add: csem sx32_def)+

lemma straight_shift_imms:
  "straight cg_func_slli func_slli" "straight cg_func_srli func_srli" "straight cg_func_srai func_srai"
  "straight cg_func_slliw func_slliw" "straight cg_func_srliw func_srliw" "straight cg_func_sraiw func_sraiw"
  unfolding cg_defs alu_defs
  by (rule straight_imm, simp add: csem imm_shift_amount lo32_def sx32_def wide)+

lemma straight_consts: "straight cg_func_auipc func_auipc" "straight cg_func_lui func_lui"
  unfolding func_auipc_def func_lui_def
  by (rule straight_const [where e = "\<lambda>i q. LL (q + imm64 i)"], simp add: cg_defs REG_SET_VAL_eq Let_def, simp add: csem)
    (rule straight_const [where e = "\<lambda>i q. LL (imm64 i)"], simp add: cg_defs REG_SET_VAL_eq Let_def, simp add: csem)

lemma straight_loads:
  "straight cg_func_lb func_lb" "straight cg_func_lh func_lh" "straight cg_func_lw func_lw" "straight cg_func_ld func_ld"
  "straight cg_func_lbu func_lbu" "straight cg_func_lhu func_lhu" "straight cg_func_lwu func_lwu"
  unfolding cg_defs alu_defs by (rule straight_load; simp add: csem bindE_def split: sum.split)+

lemma straight_stores:
  "straight cg_func_sb func_sb" "straight cg_func_sh func_sh" "straight cg_func_sw func_sw" "straight cg_func_sd func_sd"
  unfolding cg_defs alu_defs by (rule straight_store; simp add: store_typed_def width_def)+

lemma straight_alus:
  "straight cg_func_add func_add" "straight cg_func_sll func_sll" "straight cg_func_slt func_slt"
  "straight cg_func_sltu func_sltu" "straight cg_func_xor func_xor" "straight cg_func_srl func_srl"
  "straight cg_func_or func_or" "straight cg_func_and func_and" "straight cg_func_mul func_mul"
  "straight cg_func_sub func_sub" "straight cg_func_sra func_sra" "straight cg_func_remu func_remu"
  unfolding cg_defs alu_defs
  by (rule straight_alu; simp add: csem c_shift_amount sh6_def)+

lemma straight_wide_alus:
  "straight cg_func_addw func_addw" "straight cg_func_sllw func_sllw" "straight cg_func_srlw func_srlw"
  "straight cg_func_mulw func_mulw" "straight cg_func_subw func_subw" "straight cg_func_sraw func_sraw"
  unfolding cg_defs alu_defs
  by (rule straight_alu; simp add: csem c_shift_amount sh5_def lo32_def sx32_def wide)+

lemma straight_wide_divs:
  "straight cg_func_divw func_divw" "straight cg_func_divuw func_divuw" "straight cg_func_remw func_remw"
  "straight cg_func_remuw func_remuw"
  unfolding cg_defs alu_defs
  by (rule straight_alu; simp add: csem lo32_def sx32_def wide split: if_splits)+

lemma sint_min: "sint (x :: u64) = - 9223372036854775808 \<longleftrightarrow> x = 0x8000000000000000"
proof -
  have "sint (0x8000000000000000 :: u64) = - 9223372036854775808" by simp
  then show ?thesis by (metis signed_word_eqI)
qed

lemma straight_divs:
  "straight cg_func_div func_div" "straight cg_func_divu func_divu" "straight cg_func_rem func_rem"
  unfolding cg_defs alu_defs by (rule straight_div; simp add: csem sint_min)+

lemma straight_float_mem:
  "straight cg_func_flw func_flw" "straight cg_func_fld func_fld" "straight cg_func_fsw func_fsw"
  "straight cg_func_fsd func_fsd"
proof -
  show "straight cg_func_flw func_flw" unfolding cg_defs
    by (rule straight_fload [where ld = load_u32 and raw = ucast and ext = "\<lambda>x. ucast x OR push_bit 32 (- 1)"])
      (simp_all add: func_flw_def Let_def csem bindE_def split: sum.split)
  show "straight cg_func_fld func_fld" unfolding cg_defs
    by (rule straight_fload [where ld = load_u64 and raw = id and ext = id])
      (simp_all add: func_fld_def Let_def csem bindE_def split: sum.split)
  show "straight cg_func_fsw func_fsw" "straight cg_func_fsd func_fsd"
    unfolding cg_defs alu_defs by (rule straight_fstore; simp add: store_typed_def width_def)+
qed

lemmas float_defs = field_get_def field_set_def apply_float_def float_rel_def set_f_def set_d_def

lemma straight_fmas:
  "straight cg_func_fmadd_s func_fmadd_s" "straight cg_func_fmsub_s func_fmsub_s"
  "straight cg_func_fnmsub_s func_fnmsub_s" "straight cg_func_fnmadd_s func_fnmadd_s"
  "straight cg_func_fmadd_d func_fmadd_d" "straight cg_func_fmsub_d func_fmsub_d"
  "straight cg_func_fnmsub_d func_fnmsub_d" "straight cg_func_fnmadd_d func_fnmadd_d"
proof -
  have s: "straight (cg_FUNC_fma F32 Ff e) (FUNC_fma_s g)"
    if "\<And>a b c :: u32. eval_as F32 (fenv3 F32 (ucast a) (ucast b) (ucast c)) e = Inr (ucast (g a b c))" for e g
    using that by (intro straight_fma [where g = "\<lambda>a b c. ucast (g (ucast a) (ucast b) (ucast c))"])
      (simp_all add: float_defs FUNC_fma_s_def Let_def)
  have d: "straight (cg_FUNC_fma F64 Fd e) (FUNC_fma_d g)"
    if "\<And>a b c. eval_as F64 (fenv3 F64 a b c) e = Inr (g a b c)" for e g
    using that by (intro straight_fma [where g = g]) (simp_all add: float_defs FUNC_fma_d_def Let_def)
  show "straight cg_func_fmadd_s func_fmadd_s" "straight cg_func_fmsub_s func_fmsub_s"
    "straight cg_func_fnmsub_s func_fnmsub_s" "straight cg_func_fnmadd_s func_fnmadd_s"
    unfolding cg_defs alu_defs by (rule s, simp add: csem float_defs)+
  show "straight cg_func_fmadd_d func_fmadd_d" "straight cg_func_fmsub_d func_fmsub_d"
    "straight cg_func_fnmsub_d func_fnmsub_d" "straight cg_func_fnmadd_d func_fnmadd_d"
    unfolding cg_defs alu_defs by (rule d, simp add: csem float_defs)+
qed

lemma straight_fps:
  "straight cg_func_fadd_s func_fadd_s" "straight cg_func_fsub_s func_fsub_s" "straight cg_func_fmul_s func_fmul_s"
  "straight cg_func_fdiv_s func_fdiv_s" "straight cg_func_fmin_s func_fmin_s" "straight cg_func_fmax_s func_fmax_s"
  "straight cg_func_fadd_d func_fadd_d" "straight cg_func_fsub_d func_fsub_d" "straight cg_func_fmul_d func_fmul_d"
  "straight cg_func_fdiv_d func_fdiv_d" "straight cg_func_fmin_d func_fmin_d" "straight cg_func_fmax_d func_fmax_d"
proof -
  have s: "straight (cg_FUNC_fp F32 Ff e) (FUNC_fp_s g)"
    if "\<And>a b :: u32. eval_as F32 (fenv2 F32 (ucast a) (ucast b)) e = Inr (ucast (g a b))" for e g
    using that by (intro straight_fp [where g = "\<lambda>a b. ucast (g (ucast a) (ucast b))"])
      (simp_all add: float_defs FUNC_fp_s_def Let_def)
  have d: "straight (cg_FUNC_fp F64 Fd e) (FUNC_fp_d g)" if "\<And>a b. eval_as F64 (fenv2 F64 a b) e = Inr (g a b)" for e g
    using that by (intro straight_fp [where g = g]) (simp_all add: float_defs FUNC_fp_d_def Let_def)
  show "straight cg_func_fadd_s func_fadd_s" "straight cg_func_fsub_s func_fsub_s" "straight cg_func_fmul_s func_fmul_s"
    "straight cg_func_fdiv_s func_fdiv_s" "straight cg_func_fmin_s func_fmin_s" "straight cg_func_fmax_s func_fmax_s"
    unfolding cg_defs alu_defs by (rule s, simp add: csem float_defs)+
  show "straight cg_func_fadd_d func_fadd_d" "straight cg_func_fsub_d func_fsub_d" "straight cg_func_fmul_d func_fmul_d"
    "straight cg_func_fdiv_d func_fdiv_d" "straight cg_func_fmin_d func_fmin_d" "straight cg_func_fmax_d func_fmax_d"
    unfolding cg_defs alu_defs by (rule d, simp add: csem float_defs)+
qed

lemma straight_fcmps:
  "straight cg_func_feq_s func_feq_s" "straight cg_func_flt_s func_flt_s" "straight cg_func_fle_s func_fle_s"
  "straight cg_func_feq_d func_feq_d" "straight cg_func_flt_d func_flt_d" "straight cg_func_fle_d func_fle_d"
proof -
  have s: "straight (cg_FUNC_fcmp F32 Ff e) (FUNC_fcmp_s g)"
    if "\<And>a b :: u32. eval_as U64 (fenv2 F32 (ucast a) (ucast b)) e = Inr (of_bool (g a b))" for e g
    using that by (intro straight_fcmp [where g = "\<lambda>a b. of_bool (g (ucast a) (ucast b))"])
      (simp_all add: float_defs FUNC_fcmp_s_def Let_def)
  have d: "straight (cg_FUNC_fcmp F64 Fd e) (FUNC_fcmp_d g)"
    if "\<And>a b. eval_as U64 (fenv2 F64 a b) e = Inr (of_bool (g a b))" for e g
    using that by (intro straight_fcmp [where g = "\<lambda>a b. of_bool (g a b)"]) (simp_all add: float_defs FUNC_fcmp_d_def Let_def)
  show "straight cg_func_feq_s func_feq_s" "straight cg_func_flt_s func_flt_s" "straight cg_func_fle_s func_fle_s"
    unfolding cg_defs alu_defs by (rule s, simp add: csem float_defs)+
  show "straight cg_func_feq_d func_feq_d" "straight cg_func_flt_d func_flt_d" "straight cg_func_fle_d func_fle_d"
    unfolding cg_defs alu_defs by (rule d, simp add: csem float_defs)+
qed

lemma uint_wide: "uint (ucast (x :: u32) :: u64) = uint x"
  by (rule uint_up_ucast) (simp add: is_up)

lemma straight_cvts:
  "straight cg_func_fcvt_s_w func_fcvt_s_w" "straight cg_func_fcvt_s_wu func_fcvt_s_wu"
  "straight cg_func_fcvt_s_l func_fcvt_s_l" "straight cg_func_fcvt_s_lu func_fcvt_s_lu"
  "straight cg_func_fmv_w_x func_fmv_w_x"
  "straight cg_func_fcvt_d_w func_fcvt_d_w" "straight cg_func_fcvt_d_wu func_fcvt_d_wu"
  "straight cg_func_fcvt_d_l func_fcvt_d_l" "straight cg_func_fcvt_d_lu func_fcvt_d_lu"
  "straight cg_func_fmv_d_x func_fmv_d_x"
proof -
  have s: "straight (cg_x_to_f fd e) (put_f (\<lambda>s i. g (gp s (insn_rs1 i))))"
    if "fd = Ff \<or> fd = Fw" "\<And>a. eval_as (field_type fd) (env1 a) e = Inr (ucast (g a :: u32))" for e g fd
    using that by (intro straight_x_to_f [where g = "\<lambda>a. ucast (g a)"]) (auto simp: float_defs put_f_def)
  have d: "straight (cg_x_to_f fd e) (put_d (\<lambda>s i. g (gp s (insn_rs1 i))))"
    if "fd = Fd \<or> fd = Fv" "\<And>a. eval_as (field_type fd) (env1 a) e = Inr (g a)" for e g fd
    using that by (intro straight_x_to_f [where g = g]) (auto simp: float_defs put_d_def)
  show "straight cg_func_fcvt_s_w func_fcvt_s_w" "straight cg_func_fcvt_s_wu func_fcvt_s_wu"
    "straight cg_func_fcvt_s_l func_fcvt_s_l" "straight cg_func_fcvt_s_lu func_fcvt_s_lu"
    "straight cg_func_fmv_w_x func_fmv_w_x"
    unfolding cg_defs alu_defs by (rule s; simp add: csem float_defs lo32_def wide uint_wide)+
  show "straight cg_func_fcvt_d_w func_fcvt_d_w" "straight cg_func_fcvt_d_wu func_fcvt_d_wu"
    "straight cg_func_fcvt_d_l func_fcvt_d_l" "straight cg_func_fcvt_d_lu func_fcvt_d_lu"
    "straight cg_func_fmv_d_x func_fmv_d_x"
    unfolding cg_defs alu_defs by (rule d; simp add: csem float_defs lo32_def wide uint_wide)+
qed

lemma straight_moves:
  "straight cg_func_fmv_x_w func_fmv_x_w" "straight cg_func_fmv_x_d func_fmv_x_d"
  "straight cg_func_fcvt_s_d func_fcvt_s_d" "straight cg_func_fcvt_d_s func_fcvt_d_s"
proof -
  show "straight cg_func_fmv_x_w func_fmv_x_w" unfolding cg_defs alu_defs
    by (rule straight_f_to_x [where g = sx32]) (simp_all add: float_defs put_gp_def sx32_def csem)
  show "straight cg_func_fmv_x_d func_fmv_x_d" unfolding cg_defs alu_defs
    by (rule straight_f_to_x [where g = id]) (simp_all add: float_defs put_gp_def csem)
  show "straight cg_func_fcvt_s_d func_fcvt_s_d" unfolding cg_defs alu_defs
    by (rule straight_f_to_f [where g = "\<lambda>a. ucast (f32_of_f64 a)"]) (simp_all add: float_defs put_f_def csem)
  show "straight cg_func_fcvt_d_s func_fcvt_d_s" unfolding cg_defs alu_defs
    by (rule straight_f_to_f [where g = "\<lambda>a. f64_of_f32 (ucast a)"]) (simp_all add: float_defs put_d_def csem)
qed

lemma straight_csrs:
  "straight cg_func_csrrw func_csrrc" "straight cg_func_csrrs func_csrrci" "straight cg_func_csrrc func_csrrs"
  "straight cg_func_csrrwi func_csrrsi" "straight cg_func_csrrsi func_csrrw" "straight cg_func_csrrci func_csrrwi"
  unfolding cg_defs alu_defs by (rule straight_csr)+

lemmas straights = straight_empty straight_imms straight_shift_imms straight_consts straight_loads straight_stores
  straight_alus straight_wide_alus straight_wide_divs straight_divs straight_csrs straight_float_mem straight_fmas
  straight_fps straight_fcmps straight_cvts straight_moves

text \<open>The instructions whose handler leaves the generated code for the interpreter.\<close>

definition interp_only :: "nat set" where
  "interp_only = {insn_mulh, insn_mulhsu, insn_mulhu, insn_fsqrt_s, insn_fsgnj_s, insn_fsgnjn_s, insn_fsgnjx_s,
     insn_fcvt_w_s, insn_fcvt_wu_s, insn_fclass_s, insn_fcvt_l_s, insn_fcvt_lu_s, insn_fsqrt_d, insn_fsgnj_d,
     insn_fsgnjn_d, insn_fsgnjx_d, insn_fclass_d, insn_fcvt_w_d, insn_fcvt_wu_d, insn_fcvt_l_d, insn_fcvt_lu_d}"

definition branches :: "nat set" where
  "branches = {insn_beq, insn_bne, insn_blt, insn_bge, insn_bltu, insn_bgeu}"

definition branch_entry :: "cg_func_t \<Rightarrow> func_t \<Rightarrow> bool" where
  "branch_entry h f \<longleftrightarrow> (\<exists>ty op g. h = cg_FUNC_branch ty op \<and> f = FUNC_branch g \<and>
     (\<forall>a b. eval (env2 a b) (Bin op (Cast ty (Var ''rs1'')) (Cast ty (Var ''rs2''))) = Inr (of_bool (g a b))))"

lemma branch_entryI:
  "(\<And>a b. eval (env2 a b) (Bin op (Cast ty (Var ''rs1'')) (Cast ty (Var ''rs2''))) = Inr (of_bool (g a b))) \<Longrightarrow>
   branch_entry (cg_FUNC_branch ty op) (FUNC_branch g)"
  unfolding branch_entry_def by blast

lemma branch_entries:
  "branch_entry cg_func_beq func_beq" "branch_entry cg_func_bne func_bne" "branch_entry cg_func_blt func_blt"
  "branch_entry cg_func_bge func_bge" "branch_entry cg_func_bltu func_bltu" "branch_entry cg_func_bgeu func_bgeu"
  unfolding cg_defs alu_defs by (rule branch_entryI, simp add: csem)+

text \<open>What a handler of the table is, by its index.\<close>

definition table_entry :: "nat \<Rightarrow> cg_func_t \<Rightarrow> func_t \<Rightarrow> bool" where
  "table_entry t h f \<longleftrightarrow>
     (if t \<in> interp_only then h = cg_FUNC_interp
      else if t \<in> branches then branch_entry h f
      else if t = insn_jalr then h = cg_func_jalr \<and> f = func_jalr
      else if t = insn_jal then h = cg_func_jal \<and> f = func_jal
      else if t = insn_ecall then h = cg_func_ecall \<and> f = func_ecall
      else straight h f)"

fun entries :: "nat \<Rightarrow> cg_func_t list \<Rightarrow> func_t list \<Rightarrow> bool" where
  "entries t (h # hs) (f # fs) \<longleftrightarrow> table_entry t h f \<and> entries (t + 1) hs fs"
| "entries t [] [] \<longleftrightarrow> True"
| "entries t _ _ \<longleftrightarrow> False"

lemma entries_nth: "entries t hs fs \<Longrightarrow> k < length hs \<Longrightarrow> table_entry (t + k) (hs ! k) (fs ! k)"
proof (induction t hs fs arbitrary: k rule: entries.induct)
  case (1 t h hs f fs)
  then show ?case by (cases k) auto
qed auto

lemmas interp_handlers = cg_func_mulh_def cg_func_mulhsu_def cg_func_mulhu_def cg_func_fsqrt_s_def
  cg_func_fsgnj_s_def cg_func_fsgnjn_s_def cg_func_fsgnjx_s_def cg_func_fcvt_w_s_def cg_func_fcvt_wu_s_def
  cg_func_fclass_s_def cg_func_fcvt_l_s_def cg_func_fcvt_lu_s_def cg_func_fsqrt_d_def cg_func_fsgnj_d_def
  cg_func_fsgnjn_d_def cg_func_fsgnjx_d_def cg_func_fclass_d_def cg_func_fcvt_w_d_def cg_func_fcvt_wu_d_def
  cg_func_fcvt_l_d_def cg_func_fcvt_lu_d_def

lemma entries_tables: "entries 0 cg_funcs funcs"
  unfolding cg_funcs_def funcs_def
  by (simp add: table_entry_def interp_only_def branches_def straights branch_entries interp_handlers)

lemma table_entries:
  assumes "t < num_insns"
  shows "table_entry t (cg_funcs ! t) (funcs ! t)"
  using entries_nth [OF entries_tables, of t] assms by (simp add: cg_funcs_def)

end
