(* ===== verification/Jit_Block.thy ===== *)
theory Jit_Block
  imports Codegen_Handlers Interp_Props
begin

unbundle bit_operations_syntax

text \<open>
  One block of the generated function against one instruction of the interpreter. \<open>hot_step\<close> is
  the interpreter as the generated code follows it: instructions in sequence and through direct branches, until an
  indirect jump, a system call or an instruction that the code generator leaves to the interpreter.
\<close>

subsection \<open>The interpreter inside hot code\<close>

definition fetch :: "mem \<Rightarrow> u64 \<Rightarrow> insn_t result" where
  "fetch m p = bindE (load_u32 m (TO_HOST p)) (insn_decode zero_insn)"

definition left_to_interp :: "mem \<Rightarrow> u64 \<Rightarrow> bool" where
  "left_to_interp m p \<longleftrightarrow> (case fetch m p of Inl _ \<Rightarrow> False | Inr i \<Rightarrow> insn_type i \<in> interp_only)"

definition hot_step :: "state_t \<times> mem \<Rightarrow> (state_t \<times> mem) result + state_t \<times> mem" where
  "hot_step = (\<lambda>(s, m).
     if left_to_interp m (pc s) then Inl (Inr (s\<lparr>exit_reason := interp, reenter_pc := pc s\<rparr>, m))
     else (case interp_step s m of
       Inl e \<Rightarrow> Inl (Inl e)
     | Inr (stop, s1, m1) \<Rightarrow>
         if stop \<and> exit_reason s1 \<noteq> direct_branch then Inl (Inr (s1, m1)) else Inr (s1, m1)))"

lemma fetch_good: "fetch m p = Inr i \<Longrightarrow> \<exists>rv. good rv i"
  unfolding fetch_def bindE_eq_Inr using decode_good [of zero_insn] by auto

lemma fetch_wf:
  assumes "fetch m p = Inr i"
  shows "wf_insn i" "insn_type i < num_insns" "insn_cont i \<longleftrightarrow> insn_type i \<in> {insn_jalr, insn_jal, insn_ecall}"
  using fetch_good [OF assms] by (auto simp: good_def wf_insn_def)

lemma interp_step_fetched:
  assumes "pc s \<noteq> 0" and "fetch m (pc s) = Inr i"
  shows "interp_step s m = bindE ((funcs ! insn_type i) s m i) (\<lambda>(s1, m1, i1).
     if insn_cont i1 then Inr (True, set_gp 0 0 s1, m1)
     else Inr (False, (set_gp 0 0 s1)\<lparr>pc := pc (set_gp 0 0 s1) + (if insn_rvc i1 then 2 else 4)\<rparr>, m1))"
  using assms fetch_wf(2) [OF assms(2)]
  by (auto simp: interp_step_def fetch_def bindE_eq_Inr Let_def)

subsection \<open>Blocks\<close>

definition block_tail :: "u64 \<Rightarrow> insn_t \<Rightarrow> stmt list" where
  "block_tail p i = (if insn_cont i then [] else [Goto (p + (if insn_rvc i then 2 else 4)), Close])"

definition sub_tracer :: "tracer_t \<Rightarrow> tracer_t \<Rightarrow> bool" where
  "sub_tracer t t' \<longleftrightarrow> (\<forall>r<32. tr_gp_reg t ! r \<longrightarrow> tr_gp_reg t' ! r) \<and> (\<forall>r<32. tr_fp_reg t ! r \<longrightarrow> tr_fp_reg t' ! r)"

text \<open>\<open>ss\<close> is what the code generator emits behind the label of the instruction at \<open>p\<close>; the registers it traced
  are among those of \<open>T\<close>.\<close>

definition block_ok :: "mem \<Rightarrow> tracer_t \<Rightarrow> u64 \<Rightarrow> stmt list \<Rightarrow> bool" where
  "block_ok m T p ss \<longleftrightarrow> (\<exists>i tr st hs i' tr' st'. fetch m p = Inr i \<and> wf_tracer tr \<and>
     (cg_funcs ! insn_type i) [] i tr st p = Inr (hs, i', tr', st') \<and> sub_tracer tr' T \<and> ss = hs @ block_tail p i')"

definition targets :: "stmt list \<Rightarrow> u64 set" where
  "targets ss = {p. Goto p \<in> set ss \<or> (\<exists>c. IfGoto c p \<in> set ss)}"

definition traced_x :: "tracer_t \<Rightarrow> nat set" where
  "traced_x T = {r. 0 < r \<and> r < 32 \<and> tr_gp_reg T ! r}"

definition traced_f :: "tracer_t \<Rightarrow> nat set" where
  "traced_f T = {r. r < 32 \<and> tr_fp_reg T ! r}"

lemma regs_within_traced: "regs_within (traced_x T) (traced_f T)"
  by (auto simp: regs_within_def traced_x_def traced_f_def)

lemma covers_sub: "sub_tracer t T \<Longrightarrow> covers t (traced_x T) (traced_f T)"
  by (auto simp: covers_def sub_tracer_def traced_x_def traced_f_def)

text \<open>The statements of a block and a step of the interpreter give the same outcome.\<close>

definition same_outcome :: "nat set \<Rightarrow> nat set \<Rightarrow> exit_reason_t \<Rightarrow> u64 \<Rightarrow> u64 set \<Rightarrow> state_t \<Rightarrow>
    (flow \<times> gstate) result \<Rightarrow> (state_t \<times> mem) result + state_t \<times> mem \<Rightarrow> bool" where
  "same_outcome X F ex re tg s E H \<longleftrightarrow> (case H of
     Inl (Inl e) \<Rightarrow> E = Inl e
   | Inl (Inr (s1, m1)) \<Rightarrow> keeps X F s s1 \<and>
       (\<exists>loc. E = Inr (End, gof X F s1 m1 loc (exit_reason s1) (reenter_pc s1)))
   | Inr (s1, m1) \<Rightarrow> keeps X F s s1 \<and> pc s1 \<in> tg \<and> (\<exists>loc. E = Inr (Jump (pc s1), gof X F s1 m1 loc ex re)))"

lemma gof_control [simp]:
  "gof X F (s\<lparr>pc := p\<rparr>) = gof X F s" "gof X F (s\<lparr>exit_reason := r\<rparr>) = gof X F s"
  "gof X F (s\<lparr>reenter_pc := p\<rparr>) = gof X F s"
  by (simp_all add: gof_def fun_eq_iff)

lemma keeps_control [simp]:
  "keeps X F s (t\<lparr>pc := p\<rparr>) = keeps X F s t" "keeps X F s (t\<lparr>exit_reason := r\<rparr>) = keeps X F s t"
  "keeps X F s (t\<lparr>reenter_pc := p\<rparr>) = keeps X F s t"
  by (simp_all add: keeps_def)

lemma keeps_x0 [simp]: "keeps X F s (set_gp 0 v t) = keeps X F s t"
  by (auto simp: keeps_def set_gp_def)

lemma x_Label: "exec_stmts (Label p # ss) (gof X F s m loc ex re) = exec_stmts ss (gof X F s m Map.empty ex re)"
  by (simp add: gof_def)

subsection \<open>Kinds of instructions\<close>

lemma hot_step_fetched:
  assumes "pc s \<noteq> 0" and "fetch m (pc s) = Inr i" and "insn_type i \<notin> interp_only"
  shows "hot_step (s, m) = (case (funcs ! insn_type i) s m i of
     Inl e \<Rightarrow> Inl (Inl e)
   | Inr (s1, m1, i1) \<Rightarrow>
       if \<not> insn_cont i1 then Inr ((set_gp 0 0 s1)\<lparr>pc := pc s1 + (if insn_rvc i1 then 2 else 4)\<rparr>, m1)
       else if exit_reason s1 = direct_branch then Inr (set_gp 0 0 s1, m1) else Inl (Inr (set_gp 0 0 s1, m1)))"
  using assms
  by (simp add: hot_step_def left_to_interp_def interp_step_fetched bindE_def split: sum.splits prod.splits)

lemma block_interp:
  assumes "fetch m (pc s) = Inr i" and "insn_type i \<in> interp_only" and "cg_FUNC_interp [] i tr st (pc s) = Inr (hs, i', tr', st')"
  shows "same_outcome X F ex re (targets (hs @ block_tail (pc s) i')) s
     (exec_stmts (Label (pc s) # (hs @ block_tail (pc s) i') @ rest) (gof X F s m loc ex re)) (hot_step (s, m))"
proof -
  from assms have "hot_step (s, m) = Inl (Inr (s\<lparr>exit_reason := interp, reenter_pc := pc s\<rparr>, m))"
    by (simp add: hot_step_def left_to_interp_def)
  moreover from assms(3) have "hs = [SetExit interp, SetReenter (ULL (pc s)), GotoEnd, Close]"
    by (auto simp: cg_FUNC_interp_def)
  ultimately show ?thesis
    by (auto simp: same_outcome_def x_Label x_exit csem simp del: exec_stmts.simps)
qed

lemma block_ecall:
  assumes "pc s \<noteq> 0" "fetch m (pc s) = Inr i" "insn_type i = insn_ecall" "regs_within X F"
    and "cg_func_ecall [] i tr st (pc s) = Inr (hs, i', tr', st')"
  shows "same_outcome X F ex re (targets (hs @ block_tail (pc s) i')) s
     (exec_stmts (Label (pc s) # (hs @ block_tail (pc s) i') @ rest) (gof X F s m loc ex re)) (hot_step (s, m))"
proof -
  from assms fetch_wf(3) [OF assms(2)] have "insn_cont i" by simp
  with assms have "hot_step (s, m) = Inl (Inr (set_gp 0 0 (s\<lparr>exit_reason := ecall, reenter_pc := pc s + 4\<rparr>), m))"
    by (simp add: hot_step_fetched assms(3) interp_only_def funcs_jumps func_ecall_def)
  moreover from assms(5) have "hs = [SetExit ecall, SetReenter (ULL (pc s + 4)), GotoEnd, Close]"
    by (auto simp: cg_func_ecall_def)
  ultimately show ?thesis using assms(4)
    by (auto simp: same_outcome_def x_Label x_exit csem gof_x0 simp del: exec_stmts.simps)
qed

lemma block_jal:
  assumes "pc s \<noteq> 0" "fetch m (pc s) = Inr i" "insn_type i = insn_jal" "regs_within X F" "wf_state s"
    and "wf_tracer tr" "covers tr' X F"
    and h: "cg_func_jal [] i tr st (pc s) = Inr (hs, i', tr', st')"
  shows "same_outcome X F ex re (targets (hs @ block_tail (pc s) i')) s
     (exec_stmts (Label (pc s) # (hs @ block_tail (pc s) i') @ rest) (gof X F s m loc ex re)) (hot_step (s, m))"
proof -
  let ?v = "pc s + (if insn_rvc i then 2 else 4)" and ?t = "pc s + imm64 i"
  from assms fetch_wf(3) [OF assms(2)] have "insn_cont i" by simp
  with assms have H: "hot_step (s, m) = Inr (set_gp 0 0 ((set_gp (insn_rd i) ?v s)\<lparr>pc := ?t, reenter_pc := ?t, exit_reason := direct_branch\<rparr>), m)"
    by (simp add: hot_step_fetched assms(3) interp_only_def funcs_jumps func_jal_def Let_def)
  from h have hs: "hs = REG_SET_EXPR (insn_rd i) (LL ?v) [] @ [Goto ?t, Close]"
    and tr: "tr' = tracer_add_gp_reg_usage tr [insn_rd i]"
    by (auto simp: cg_func_jal_def REG_SET_VAL_eq Let_def bindE_eq_Inr REG_SET_EXPR_def)
  note wi = fetch_wf(1) [OF assms(2)]
  from covers_gpD [OF assms(7) [unfolded tr] assms(6)] wi have "insn_rd i = 0 \<or> unat (insn_rd i) \<in> X"
    by (simp add: wf_insn_regs)
  with x_result [of i X F s Map.empty "LL ?v" ?v] assms(4,5) wi H show ?thesis
    by (auto simp: same_outcome_def x_Label hs csem gof_x0 x_Goto targets_def simp del: exec_stmts.simps)
qed

lemma block_jalr:
  assumes "pc s \<noteq> 0" "fetch m (pc s) = Inr i" "insn_type i = insn_jalr" "regs_within X F" "wf_state s" "gp s 0 = 0"
    and "wf_tracer tr" "covers tr' X F"
    and h: "cg_func_jalr [] i tr st (pc s) = Inr (hs, i', tr', st')"
  shows "same_outcome X F ex re (targets (hs @ block_tail (pc s) i')) s
     (exec_stmts (Label (pc s) # (hs @ block_tail (pc s) i') @ rest) (gof X F s m loc ex re)) (hot_step (s, m))"
proof -
  let ?v = "pc s + (if insn_rvc i then 2 else 4)" and ?a = "gp s (insn_rs1 i)"
  let ?e = "Bin BAnd (Par (Bin Add (Var ''rs1'') (Cast I64 (LL (imm64 i))))) (BNot (Cast U64 (Dec 1)))"
  from assms fetch_wf(3) [OF assms(2)] have "insn_cont i" by simp
  with assms have H: "hot_step (s, m) = Inl (Inr (set_gp 0 0 ((set_gp (insn_rd i) ?v s)\<lparr>exit_reason := indirect_branch,
      reenter_pc := (?a + imm64 i) AND NOT 1\<rparr>), m))"
    by (simp add: hot_step_fetched assms(3) interp_only_def funcs_jumps func_jalr_def Let_def)
  from h have hs: "hs = GetX ''rs1'' (unat (insn_rs1 i)) # REG_SET_EXPR (insn_rd i) (LL ?v) [] @
      [SetExit indirect_branch, SetReenter ?e, GotoEnd, Close]"
    and tr: "tr' = tracer_add_gp_reg_usage tr [insn_rs1 i, insn_rd i]"
    by (auto simp: cg_func_jalr_def REG_SET_VAL_eq Let_def REG_SET_EXPR_def REG_GET_def)
  note wi = fetch_wf(1) [OF assms(2)]
  from covers_gpD [OF assms(8) [unfolded tr] assms(7)] wi
  have r: "insn_rs1 i = 0 \<or> unat (insn_rs1 i) \<in> X" "insn_rd i = 0 \<or> unat (insn_rd i) \<in> X"
    by (simp_all add: wf_insn_regs)
  have e: "eval_as U64 [''rs1'' \<mapsto> (U64, ?a)] ?e = Inr ((?a + imm64 i) AND NOT 1)" by (simp add: csem)
  from r x_result [of i X F s "[''rs1'' \<mapsto> (U64, ?a)]" "LL ?v" ?v] assms(4-6) wi H show ?thesis
    by (auto simp: same_outcome_def x_Label hs x_GetX x_exit e csem gof_x0 simp del: exec_stmts.simps)
qed

lemma block_branch:
  assumes "pc s \<noteq> 0" "fetch m (pc s) = Inr i" "insn_type i \<in> branches" "regs_within X F" "wf_state s" "gp s 0 = 0"
    and "wf_tracer tr" "covers tr' X F" and b: "branch_entry h (funcs ! insn_type i)"
    and h: "h [] i tr st (pc s) = Inr (hs, i', tr', st')"
  shows "same_outcome X F ex re (targets (hs @ block_tail (pc s) i')) s
     (exec_stmts (Label (pc s) # (hs @ block_tail (pc s) i') @ rest) (gof X F s m loc ex re)) (hot_step (s, m))"
proof -
  from b obtain ty op g where hf: "h = cg_FUNC_branch ty op" "funcs ! insn_type i = FUNC_branch g"
    and ev: "\<And>a b. eval (env2 a b) (Bin op (Cast ty (Var ''rs1'')) (Cast ty (Var ''rs2''))) = Inr (of_bool (g a b))"
    unfolding branch_entry_def by blast
  let ?a = "gp s (insn_rs1 i)" and ?b = "gp s (insn_rs2 i)"
  let ?c = "Bin op (Cast ty (Var ''rs1'')) (Cast ty (Var ''rs2''))" and ?t = "pc s + imm64 i"
  from h have hs: "hs = [GetX ''rs1'' (unat (insn_rs1 i)), GetX ''rs2'' (unat (insn_rs2 i)), IfGoto ?c ?t]" "i' = i"
    and tr: "tr' = tracer_add_gp_reg_usage tr [insn_rs1 i, insn_rs2 i]"
    by (auto simp: hf cg_FUNC_branch_def Let_def bindE_eq_Inr REG_GET_def)
  from assms(3) fetch_wf(3) [OF assms(2)] have nc: "\<not> insn_cont i" by (auto simp: branches_def)
  from assms(3) have ni: "insn_type i \<notin> interp_only" by (auto simp: branches_def interp_only_def)
  note wi = fetch_wf(1) [OF assms(2)]
  from covers_gpD [OF assms(8) [unfolded tr] assms(7)] wi
  have r: "insn_rs1 i = 0 \<or> unat (insn_rs1 i) \<in> X" "insn_rs2 i = 0 \<or> unat (insn_rs2 i) \<in> X"
    by (simp_all add: wf_insn_regs)
  have E: "exec_stmts (Label (pc s) # (hs @ block_tail (pc s) i') @ rest) (gof X F s m loc ex re) =
      (if g ?a ?b then Inr (Jump ?t, gof X F s m (env2 ?a ?b) ex re)
       else Inr (Jump (pc s + (if insn_rvc i then 2 else 4)), gof X F s m (env2 ?a ?b) ex re))"
    using r assms(6) nc ev [of ?a ?b]
    by (simp add: x_Label hs x_GetX block_tail_def x_IfGoto x_Goto env2_def del: exec_stmts.simps eval.simps)
  from nc ni assms(1,2) have "hot_step (s, m) =
      (if g ?a ?b then Inr (set_gp 0 0 (s\<lparr>pc := ?t, reenter_pc := ?t, exit_reason := direct_branch\<rparr>), m)
       else Inr ((set_gp 0 0 s)\<lparr>pc := pc s + (if insn_rvc i then 2 else 4)\<rparr>, m))"
    by (simp add: hot_step_fetched hf FUNC_branch_def Let_def)
  with E nc show ?thesis
    using gof_x0 [OF assms(4)] by (auto simp: same_outcome_def hs block_tail_def targets_def)
qed

lemma block_straight:
  assumes "pc s \<noteq> 0" "fetch m (pc s) = Inr i" "insn_type i \<notin> interp_only \<union> {insn_jalr, insn_jal, insn_ecall}"
    and "regs_within X F" "wf_state s" "gp s 0 = 0" "wf_tracer tr" "covers tr' X F"
    and st: "straight h (funcs ! insn_type i)"
    and h: "h [] i tr st (pc s) = Inr (hs, i', tr', st')"
    and fault: "insn_rd i = 0 \<Longrightarrow> (funcs ! insn_type i) s m i \<noteq> Inl Sigfpe"
  shows "same_outcome X F ex re (targets (hs @ block_tail (pc s) i')) s
     (exec_stmts (Label (pc s) # (hs @ block_tail (pc s) i') @ rest) (gof X F s m loc ex re)) (hot_step (s, m))"
proof -
  note wi = fetch_wf(1) [OF assms(2)]
  from assms(3) fetch_wf(3) [OF assms(2)] have nc: "\<not> insn_cont i" and ni: "insn_type i \<notin> interp_only" by auto
  from st h assms(4-8) wi have "i' = i" and
    eff: "effect (funcs ! insn_type i) hs i X F s m ex re (block_tail (pc s) i @ rest)"
    unfolding straight_def by blast+
  note H = hot_step_fetched [OF assms(1,2) ni]
  show ?thesis
  proof (cases "(funcs ! insn_type i) s m i")
    case (Inl e)
    with eff fault H \<open>i' = i\<close> show ?thesis
      by (auto simp: effect_def same_outcome_def x_Label simp del: exec_stmts.simps)
  next
    case (Inr r)
    obtain s1 m1 i1 where r: "r = (s1, m1, i1)" by (cases r)
    with eff Inr obtain loc' where "i1 = i" "keeps X F s s1" "same_control s s1" and
      E: "exec_stmts (hs @ block_tail (pc s) i @ rest) (gof X F s m Map.empty ex re) =
        exec_stmts (block_tail (pc s) i @ rest) (gof X F s1 m1 loc' ex re)"
      by (auto simp: effect_def)
    moreover have "exec_stmts (block_tail (pc s) i @ rest) (gof X F s1 m1 loc' ex re) =
        Inr (Jump (pc s + (if insn_rvc i then 2 else 4)), gof X F s1 m1 loc' ex re)"
      using nc by (simp add: block_tail_def x_Goto del: exec_stmts.simps)
    moreover have "Goto (pc s + (if insn_rvc i then 2 else 4)) \<in> set (hs @ block_tail (pc s) i)"
      using nc by (simp add: block_tail_def)
    ultimately show ?thesis
      using H Inr r nc \<open>i' = i\<close> gof_x0 [OF assms(4)]
      by (auto simp: same_outcome_def x_Label targets_def same_control_def simp del: exec_stmts.simps set_append)
  qed
qed

subsection \<open>Faults and stores of the handlers\<close>

text \<open>Only the four narrow divisions raise \<^const>\<open>Sigfpe\<close>; every change of memory is one store.\<close>

definition wdivs :: "nat set" where
  "wdivs = {insn_divw, insn_divuw, insn_remw, insn_remuw}"

definition stores_once :: "func_t \<Rightarrow> bool" where
  "stores_once f \<longleftrightarrow> (\<forall>s m i s' m' i'. f s m i = Inr (s', m', i') \<longrightarrow> m' = m \<or> (\<exists>a bs. store_bytes m a bs = Inr m'))"

definition no_fpe :: "func_t \<Rightarrow> bool" where
  "no_fpe f \<longleftrightarrow> (\<forall>s m i. f s m i \<noteq> Inl Sigfpe)"

lemma bytes_no_fpe: "load_bytes m a n \<noteq> Inl Sigfpe" "store_bytes m a bs \<noteq> Inl Sigfpe"
proof -
  show "load_bytes m a n \<noteq> Inl Sigfpe"
    by (induction n arbitrary: a) (auto simp: bindE_eq_Inl load_byte_def split: option.splits if_splits)
  show "store_bytes m a bs \<noteq> Inl Sigfpe"
    by (induction bs arbitrary: m a) (auto simp: bindE_eq_Inl store_byte_def split: option.splits if_splits)
qed

lemma access_no_fpe:
  "load_u8 m a \<noteq> Inl Sigfpe" "load_u16 m a \<noteq> Inl Sigfpe" "load_u32 m a \<noteq> Inl Sigfpe" "load_u64 m a \<noteq> Inl Sigfpe"
  "store_u8 m a v8 \<noteq> Inl Sigfpe" "store_u16 m a v16 \<noteq> Inl Sigfpe" "store_u32 m a v32 \<noteq> Inl Sigfpe"
  "store_u64 m a v64 \<noteq> Inl Sigfpe"
  unfolding load_u8_def load_u16_def load_u32_def load_u64_def store_u8_def store_u16_def store_u32_def store_u64_def
  by (auto simp: bindE_eq_Inl bytes_no_fpe simp del: load_bytes.simps le_bytes.simps store_bytes.simps)

lemmas macro_defs = FUNC_load_def FUNC_imm_def FUNC_alu_def FUNC_branch_def FUNC_csr_def FUNC_fma_s_def FUNC_fma_d_def
  FUNC_fp_s_def FUNC_fp_d_def FUNC_sgnj_s_def FUNC_sgnj_d_def FUNC_fcmp_s_def FUNC_fcmp_d_def put_gp_def put_f_def
  put_d_def FUNC_store_def FUNC_fstore_def

lemma stores_once_simps [simp]:
  "stores_once (FUNC_load ld ext)" "stores_once (FUNC_imm e2)" "stores_once (FUNC_alu e3)"
  "stores_once (FUNC_branch e4)" "stores_once FUNC_csr" "stores_once (FUNC_fma_s e5)"
  "stores_once (FUNC_fma_d e6)" "stores_once (FUNC_fp_s e7)" "stores_once (FUNC_fp_d e8)"
  "stores_once (FUNC_sgnj_s n x)" "stores_once (FUNC_sgnj_d n x)" "stores_once (FUNC_fcmp_s e9)"
  "stores_once (FUNC_fcmp_d e10)" "stores_once (put_gp e11)" "stores_once (put_f e12)" "stores_once (put_d e13)"
  "stores_once func_empty" "stores_once func_jalr" "stores_once func_jal" "stores_once func_ecall"
  "stores_once func_flw" "stores_once func_fld"
  by (auto simp: stores_once_def macro_defs func_empty_def func_jalr_def func_jal_def func_ecall_def func_flw_def
      func_fld_def Let_def bindE_eq_Inr split: if_splits)

lemma stores_once_stores [simp]:
  "stores_once (FUNC_store store_u8)" "stores_once (FUNC_store store_u16)" "stores_once (FUNC_store store_u32)"
  "stores_once (FUNC_store store_u64)" "stores_once (FUNC_fstore store_u32)" "stores_once (FUNC_fstore store_u64)"
  by (auto simp: stores_once_def FUNC_store_def FUNC_fstore_def Let_def bindE_eq_Inr store_u8_def store_u16_def
      store_u32_def store_u64_def simp del: le_bytes.simps)

lemma no_fpe_simps [simp]:
  "no_fpe (FUNC_imm e2)" "no_fpe (FUNC_alu (\<lambda>a b. Inr (e3 a b)))" "no_fpe (FUNC_branch e4)" "no_fpe FUNC_csr"
  "no_fpe (FUNC_fma_s e5)" "no_fpe (FUNC_fma_d e6)" "no_fpe (FUNC_fp_s e7)" "no_fpe (FUNC_fp_d e8)"
  "no_fpe (FUNC_sgnj_s n x)" "no_fpe (FUNC_sgnj_d n x)" "no_fpe (FUNC_fcmp_s e9)" "no_fpe (FUNC_fcmp_d e10)"
  "no_fpe (put_gp e11)" "no_fpe (put_f e12)" "no_fpe (put_d e13)" "no_fpe func_empty" "no_fpe func_jalr"
  "no_fpe func_jal" "no_fpe func_ecall" "no_fpe func_flw" "no_fpe func_fld"
  by (auto simp: no_fpe_def macro_defs func_empty_def func_jalr_def func_jal_def func_ecall_def func_flw_def
      func_fld_def Let_def bindE_eq_Inl access_no_fpe split: if_splits)

lemma no_fpe_access [simp]:
  "no_fpe (FUNC_load load_u8 e8)" "no_fpe (FUNC_load load_u16 e16)" "no_fpe (FUNC_load load_u32 e32)"
  "no_fpe (FUNC_load load_u64 e64)" "no_fpe (FUNC_store store_u8)" "no_fpe (FUNC_store store_u16)"
  "no_fpe (FUNC_store store_u32)" "no_fpe (FUNC_store store_u64)" "no_fpe (FUNC_fstore store_u32)"
  "no_fpe (FUNC_fstore store_u64)"
  by (auto simp: no_fpe_def macro_defs Let_def bindE_eq_Inl access_no_fpe)

lemma funcs_stores_once: "t < num_insns \<Longrightarrow> stores_once (funcs ! t)"
proof -
  have "list_all stores_once funcs"
    unfolding funcs_def list.pred_inject by (intro conjI TrueI) (simp_all add: alu_defs)
  then show "t < num_insns \<Longrightarrow> stores_once (funcs ! t)" by (simp add: list_all_length)
qed

lemma funcs_no_fpe:
  assumes "t < num_insns" "t \<notin> wdivs"
  shows "no_fpe (funcs ! t)"
proof -
  have "list_all no_fpe (take insn_divw funcs)" "list_all no_fpe (drop (Suc insn_remuw) funcs)"
    unfolding funcs_def by (simp_all add: alu_defs)
  moreover from assms(2) have "t < insn_divw \<or> Suc insn_remuw \<le> t" by (auto simp: wdivs_def)
  ultimately show ?thesis
  proof (elim disjE)
    assume "list_all no_fpe (take insn_divw funcs)" "t < insn_divw"
    with assms(1) show ?thesis by (auto simp: list_all_length dest: spec [of _ t])
  next
    assume "list_all no_fpe (drop (Suc insn_remuw) funcs)" "Suc insn_remuw \<le> t"
    with assms(1) show ?thesis by (auto simp: list_all_length dest: spec [of _ "t - 54"])
  qed
qed

subsection \<open>A whole block\<close>

definition x0_safe :: "mem \<Rightarrow> u64 \<Rightarrow> bool" where
  "x0_safe m p \<longleftrightarrow> (case fetch m p of Inl _ \<Rightarrow> True | Inr i \<Rightarrow> insn_rd i \<noteq> 0 \<or> insn_type i \<notin> wdivs)"

lemma block_exec:
  assumes b: "block_ok m0 T (pc s) ss" and f: "fetch m (pc s) = fetch m0 (pc s)" and p: "pc s \<noteq> 0"
    and s: "wf_state s" "gp s 0 = 0" and x0: "x0_safe m (pc s)"
  shows "same_outcome (traced_x T) (traced_f T) ex re (targets ss) s
     (exec_stmts (Label (pc s) # ss @ rest) (gof (traced_x T) (traced_f T) s m loc ex re)) (hot_step (s, m))"
proof -
  from b f obtain i tr st hs i' tr' st' where i: "fetch m (pc s) = Inr i" and tr: "wf_tracer tr"
    and h: "(cg_funcs ! insn_type i) [] i tr st (pc s) = Inr (hs, i', tr', st')"
    and sub: "sub_tracer tr' T" and ss: "ss = hs @ block_tail (pc s) i'"
    by (auto simp: block_ok_def)
  note cov = covers_sub [OF sub] and rw = regs_within_traced [of T]
  note entry = table_entries [OF fetch_wf(2) [OF i], unfolded table_entry_def]
  consider "insn_type i \<in> interp_only" | "insn_type i \<in> branches" "insn_type i \<notin> interp_only"
    | "insn_type i = insn_jalr" | "insn_type i = insn_jal" | "insn_type i = insn_ecall"
    | "insn_type i \<notin> interp_only \<union> {insn_jalr, insn_jal, insn_ecall}" "insn_type i \<notin> branches" by blast
  then show ?thesis
  proof cases
    case 1
    with entry h show ?thesis unfolding ss by (intro block_interp [OF i]) auto
  next
    case 2
    with entry have "branch_entry (cg_funcs ! insn_type i) (funcs ! insn_type i)" by simp
    from block_branch [OF p i 2(1) rw s tr cov this, of st] h show ?thesis unfolding ss by blast
  next
    case 3
    with entry h show ?thesis unfolding ss
      by (intro block_jalr [OF p i _ rw s tr cov]) (auto simp: interp_only_def branches_def)
  next
    case 4
    with entry h show ?thesis unfolding ss
      by (intro block_jal [OF p i _ rw s(1) tr cov]) (auto simp: interp_only_def branches_def)
  next
    case 5
    with entry h show ?thesis unfolding ss
      by (intro block_ecall [OF p i _ rw]) (auto simp: interp_only_def branches_def)
  next
    case 6
    have "(funcs ! insn_type i) s m i \<noteq> Inl Sigfpe" if "insn_rd i = 0"
      using funcs_no_fpe [OF fetch_wf(2) [OF i]] x0 i that by (auto simp: x0_safe_def no_fpe_def)
    moreover from 6 entry have "straight (cg_funcs ! insn_type i) (funcs ! insn_type i)" by simp
    ultimately show ?thesis
      using block_straight [OF p i 6(1) rw s tr cov, of "cg_funcs ! insn_type i" st] h unfolding ss by blast
  qed
qed

subsection \<open>Code in pages without write permission\<close>

definition protected :: "mem \<Rightarrow> u64 \<Rightarrow> bool" where
  "protected m p \<longleftrightarrow> (\<forall>k<4. case m (TO_HOST p + of_nat k) of None \<Rightarrow> True | Some (pr, v) \<Rightarrow> \<not> writable pr)"

lemma store_bytes_readonly:
  assumes "store_bytes m a bs = Inr m'" and "case m x of None \<Rightarrow> True | Some (pr, v) \<Rightarrow> \<not> writable pr"
  shows "m' x = m x"
  using assms
proof (induction bs arbitrary: m a)
  case (Cons b bs)
  then obtain m1 where m1: "store_byte m a b = Inr m1" "store_bytes m1 (a + 1) bs = Inr m'" by (auto simp: bindE_eq_Inr)
  with Cons.prems have "m1 x = m x" by (auto simp: store_byte_def split: option.splits if_splits prod.splits)
  with Cons.IH [OF m1(2)] Cons.prems show ?case by simp
qed simp

lemma interp_step_readonly:
  assumes "interp_step s m = Inr (stop, s', m')" and "case m x of None \<Rightarrow> True | Some (pr, v) \<Rightarrow> \<not> writable pr"
  shows "m' x = m x"
  using assms(1)
proof (cases rule: interp_step_Inr)
  case (insn data insn s1 i1)
  from funcs_stores_once [OF good_type [OF insn(4)]] insn(5) have "m' = m \<or> (\<exists>a bs. store_bytes m a bs = Inr m')"
    unfolding stores_once_def by blast
  with store_bytes_readonly [of m _ _ m' x] assms(2) show ?thesis by blast
qed simp

lemma load_bytes_agree: "(\<And>k. k < n \<Longrightarrow> m' (a + of_nat k) = m (a + of_nat k)) \<Longrightarrow> load_bytes m' a n = load_bytes m a n"
proof (induction n arbitrary: a)
  case (Suc n)
  from Suc.prems [of 0] have "m' a = m a" by simp
  moreover have "m' (a + 1 + of_nat k) = m (a + 1 + of_nat k)" if "k < n" for k
    using Suc.prems [of "Suc k"] that by (simp add: add.assoc)
  ultimately show ?case using Suc.IH [of "a + 1"] by (simp add: load_byte_def)
qed simp

lemma protected_step:
  assumes "interp_step s m = Inr (stop, s', m')" and "protected m p"
  shows "protected m' p" "fetch m' p = fetch m p"
proof -
  have eq: "m' (TO_HOST p + of_nat k) = m (TO_HOST p + of_nat k)" if "k < 4" for k
    using interp_step_readonly [OF assms(1), of "TO_HOST p + of_nat k"] assms(2) that by (auto simp: protected_def)
  with assms(2) show "protected m' p" by (simp add: protected_def)
  from load_bytes_agree [of 4 m' "TO_HOST p" m] eq have "load_bytes m' (TO_HOST p) 4 = load_bytes m (TO_HOST p) 4" by blast
  then have "load_u32 m' (TO_HOST p) = load_u32 m (TO_HOST p)"
    unfolding load_u32_def by (simp only:)
  then show "fetch m' p = fetch m p" by (simp add: fetch_def)
qed

end
