(* ===== verification/Jit_Gen.thy ===== *)
theory Jit_Gen
  imports Jit_Block
begin

unbundle bit_operations_syntax

text \<open>
  The work list of \<^verbatim>\<open>machine_genblock\<close>: it always ends, and the body it leaves is closed. Every
  label stands once, the labels are the visited program counters, every jump has its label, every
  register of a block is declared, and each block is what the handler emits for its instruction.
\<close>

subsection \<open>What a handler does to the text, the tracer and the stack\<close>

definition appends :: "cg_func_t \<Rightarrow> bool" where
  "appends h \<longleftrightarrow> (\<forall>s i tr st p. h s i tr st p = bindE (h [] i tr st p) (\<lambda>(ss, r). Inr (s @ ss, r)))"

definition handler_gen :: "cg_func_t \<Rightarrow> bool" where
  "handler_gen h \<longleftrightarrow> (\<forall>i tr st p ss i' tr' st'. h [] i tr st p = Inr (ss, i', tr', st') \<longrightarrow> wf_stack st \<longrightarrow> wf_tracer tr \<longrightarrow>
     wf_tracer tr' \<and> sub_tracer tr tr' \<and> wf_stack st' \<and> set (stack_list st') = set (stack_list st) \<union> targets ss \<and>
     (\<forall>q. Label q \<notin> set ss))"

lemma sub_tracer_refl [simp]: "sub_tracer t t"
  by (simp add: sub_tracer_def)

lemma sub_tracer_trans: "sub_tracer t t1 \<Longrightarrow> sub_tracer t1 t2 \<Longrightarrow> sub_tracer t t2"
  by (simp add: sub_tracer_def)

lemma sub_tracer_add_gp: "wf_tracer t \<Longrightarrow> sub_tracer t (tracer_add_gp_reg_usage t rs)"
  by (simp add: sub_tracer_def tracer_add_gp_reg_usage_def nth_fold_update wf_tracer_def)

lemma sub_tracer_add_fp: "wf_tracer t \<Longrightarrow> sub_tracer t (tracer_add_fp_reg_usage t rs)"
  by (simp add: sub_tracer_def tracer_add_fp_reg_usage_def nth_fold_update wf_tracer_def)

lemmas sub_tracer_add [simp] = sub_tracer_add_gp sub_tracer_add_fp
  sub_tracer_trans [OF sub_tracer_add_gp sub_tracer_add_fp]

lemma handler_gen_macros [simp]:
  "handler_gen (cg_FUNC_load t)" "handler_gen (cg_FUNC_imm e)" "handler_gen (cg_FUNC_store t)"
  "handler_gen (cg_FUNC_alu x)" "handler_gen (cg_FUNC_div (RdCases w cs x))" "handler_gen cg_FUNC_csr"
  "handler_gen (cg_FUNC_fload t x)" "handler_gen (cg_FUNC_fstore t)" "handler_gen (cg_FUNC_fma t fd x)"
  "handler_gen (cg_FUNC_fp t fd x)" "handler_gen (cg_FUNC_fcmp t fd x)" "handler_gen cg_FUNC_interp"
  "handler_gen (cg_x_to_f fd x)" "handler_gen (cg_f_to_x t fd x)" "handler_gen (cg_f_to_f t fd fd' x)"
  "handler_gen cg_func_empty" "handler_gen cg_func_auipc" "handler_gen cg_func_lui" "handler_gen cg_func_ecall"
  "handler_gen cg_func_jalr"
  by (auto simp: handler_gen_def emit_defs cg_func_empty_def cg_func_auipc_def cg_func_lui_def cg_func_ecall_def
      cg_func_jalr_def Let_def targets_def split: if_splits)

lemma handler_gen_jumps [simp]: "handler_gen (cg_FUNC_branch t op)" "handler_gen cg_func_jal"
  by (auto simp: handler_gen_def emit_defs cg_func_jal_def Let_def targets_def bindE_eq_Inr wstack.push_set
      dest: wstack.push_inv split: if_splits)

lemma cg_handler_gen: "t < num_insns \<Longrightarrow> handler_gen (cg_funcs ! t)"
proof -
  have "list_all handler_gen cg_funcs"
    unfolding cg_funcs_def list.pred_inject
    by (intro conjI TrueI) (simp_all only: list.pred_inject handler_gen_macros handler_gen_jumps cg_defs)
  then show "t < num_insns \<Longrightarrow> handler_gen (cg_funcs ! t)"
    using list_all_length [of handler_gen cg_funcs] by (simp add: cg_funcs_def)
qed

lemma appends_macros [simp]:
  "appends (cg_FUNC_load t)" "appends (cg_FUNC_imm e)" "appends (cg_FUNC_store t)"
  "appends (cg_FUNC_alu x)" "appends (cg_FUNC_div y)" "appends cg_FUNC_csr"
  "appends (cg_FUNC_fload t x)" "appends (cg_FUNC_fstore t)" "appends (cg_FUNC_fma t fd x)"
  "appends (cg_FUNC_fp t fd x)" "appends (cg_FUNC_fcmp t fd x)" "appends cg_FUNC_interp"
  "appends (cg_x_to_f fd x)" "appends (cg_f_to_x t fd x)" "appends (cg_f_to_f t fd fd' x)"
  "appends cg_func_empty" "appends cg_func_auipc" "appends cg_func_lui" "appends cg_func_ecall"
  "appends cg_func_jalr"
  by (simp_all add: appends_def emit_defs cg_func_empty_def cg_func_auipc_def cg_func_lui_def cg_func_ecall_def
      cg_func_jalr_def Let_def)

lemma appends_jumps [simp]: "appends (cg_FUNC_branch t op)" "appends cg_func_jal"
  by (simp_all add: appends_def emit_defs cg_func_jal_def Let_def)

lemma cg_appends: "t < num_insns \<Longrightarrow> appends (cg_funcs ! t)"
proof -
  have "list_all appends cg_funcs"
    unfolding cg_funcs_def list.pred_inject
    by (intro conjI TrueI) (simp_all only: list.pred_inject appends_macros appends_jumps cg_defs)
  then show "t < num_insns \<Longrightarrow> appends (cg_funcs ! t)"
    using list_all_length [of appends cg_funcs] by (simp add: cg_funcs_def)
qed

subsection \<open>The static instruction buffer\<close>

text \<open>
  Only ECALL leaves fields of the buffer as they were, and its handler does not read them.
\<close>

lemma decode_stale:
  assumes "insn_decode old data = Inr i"
  shows "insn_decode zero_insn data = Inr i \<or>
     (i = old\<lparr>insn_type := insn_ecall, insn_cont := True\<rparr> \<and>
      insn_decode zero_insn data = Inr (zero_insn\<lparr>insn_type := insn_ecall, insn_cont := True\<rparr>))"
proof (cases "data = 0x73")
  case True
  have "insn_decode x 0x73 = Inr (x\<lparr>insn_type := insn_ecall, insn_cont := True\<rparr>)" for x
    by (simp add: insn_decode_def decode_q3_def decode_system_def QUADRANT_def OPCODE_def Let_def)
  with assms True show ?thesis by auto
next
  case False
  then have "insn_decode x data = insn_decode zero_insn data" for x
    by (simp add: insn_decode_def decode_q3_def decode_system_def Let_def)
  with assms show ?thesis by metis
qed

lemma decode_type:
  assumes "insn_decode old data = Inr i"
  shows "insn_type i < num_insns"
  using decode_stale [OF assms]
proof
  assume "insn_decode zero_insn data = Inr i"
  then have "good (QUADRANT data \<noteq> 3) i" by (rule decode_good) simp
  then show ?thesis by (simp add: good_def wf_insn_def)
qed simp

lemma visited_block:
  assumes "load_u32 m (TO_HOST p) = Inr data" and "insn_decode old data = Inr i" and "wf_tracer tr"
    and h: "(cg_funcs ! insn_type i) [] i tr st p = Inr (hs, i', tr', st')"
    and sub: "sub_tracer tr' T"
  shows "block_ok m T p (hs @ block_tail p i')"
proof -
  from decode_stale [OF assms(2)] show ?thesis
  proof
    assume d: "insn_decode zero_insn data = Inr i"
    with assms(1) have f: "fetch m p = Inr i" by (simp add: fetch_def)
    with assms show ?thesis unfolding block_ok_def by blast
  next
    let ?i = "zero_insn\<lparr>insn_type := insn_ecall, insn_cont := True\<rparr>"
    assume d: "i = old\<lparr>insn_type := insn_ecall, insn_cont := True\<rparr> \<and> insn_decode zero_insn data = Inr ?i"
    with assms(1) have f: "fetch m p = Inr ?i" by (simp add: fetch_def)
    have e: "cg_funcs ! insn_ecall = cg_func_ecall" by (simp add: cg_funcs_def)
    with h d have "(cg_funcs ! insn_type ?i) [] ?i tr st p = Inr (hs, ?i, tr', st')"
      "block_tail p i' = block_tail p ?i"
      by (auto simp: cg_func_ecall_def block_tail_def)
    with f assms(3) sub show ?thesis unfolding block_ok_def by metis
  qed
qed

subsection \<open>The invariant of the loop\<close>

abbreviation (input) block_text :: "u64 \<times> stmt list \<Rightarrow> stmt list" where
  "block_text b \<equiv> Label (fst b) # snd b"

definition gen_blocks :: "mem \<Rightarrow> gen_t \<Rightarrow> (u64 \<times> stmt list) list \<Rightarrow> bool" where
  "gen_blocks m g bl \<longleftrightarrow> gb_body g = concat (map block_text bl) \<and> distinct (map fst bl) \<and>
     set (map fst bl) = set_elems (gb_set g) \<and>
     (\<forall>b\<in>set bl. block_ok m (gb_tracer g) (fst b) (snd b) \<and> (\<forall>q. Label q \<notin> set (snd b)) \<and>
       targets (snd b) \<subseteq> set_elems (gb_set g) \<union> set (stack_list (gb_stack g)))"

definition gen_inv :: "mem \<Rightarrow> u64 \<Rightarrow> gen_t \<Rightarrow> bool" where
  "gen_inv m p0 g \<longleftrightarrow> wf_set (gb_set g) \<and> wf_stack (gb_stack g) \<and> wf_tracer (gb_tracer g) \<and>
     (\<exists>bl. gen_blocks m g bl \<and> (if bl = [] then stack_list (gb_stack g) = [p0] else fst (hd bl) = p0))"

lemma block_ok_mono: "block_ok m T p ss \<Longrightarrow> sub_tracer T T' \<Longrightarrow> block_ok m T' p ss"
  unfolding block_ok_def using sub_tracer_trans by blast

text \<open>What a visit of a new program counter adds.\<close>

lemma visit_new:
  assumes inv: "wf_set (gb_set g)" "wf_stack (gb_stack g)" "wf_tracer (gb_tracer g)"
    and new: "p \<notin> set_elems (gb_set g)" and v: "genblock_visit m g p = Inr g'"
  obtains ss where "gb_body g' = gb_body g @ Label p # ss" "block_ok m (gb_tracer g') p ss" "\<forall>q. Label q \<notin> set ss"
    "set (stack_list (gb_stack g')) = set (stack_list (gb_stack g)) \<union> targets ss"
    "wf_stack (gb_stack g')" "wf_tracer (gb_tracer g')" "sub_tracer (gb_tracer g) (gb_tracer g')"
    "wf_set (gb_set g')" "set_elems (gb_set g') = insert p (set_elems (gb_set g))"
proof -
  let ?tr = "gb_tracer g" and ?st = "gb_stack g"
  from v obtain nw st where a: "set_add (gb_set g) p = Inr (nw, st)" by (auto simp: genblock_visit_def bindE_eq_Inr)
  from hset.add_new [OF inv(1) a] new have nw: "nw" by simp
  from v a nw obtain data i body i' tr' k where l: "load_u32 m (TO_HOST p) = Inr data" and d: "insn_decode (gb_insn g) data = Inr i"
    and c: "(cg_funcs ! insn_type i) (gb_body g @ [Label p]) i ?tr ?st p = Inr (body, i', tr', k)"
    and rest: "(if insn_cont i' then Inr (g\<lparr>gb_set := st, gb_body := body, gb_insn := i', gb_tracer := tr', gb_stack := k\<rparr>)
       else bindE (stack_push k (p + (if insn_rvc i' then 2 else 4))) (\<lambda>k'. Inr (g\<lparr>gb_set := st, gb_insn := i', gb_tracer := tr',
         gb_body := body @ [Goto (p + (if insn_rvc i' then 2 else 4)), Close], gb_stack := k'\<rparr>))) = Inr g'"
    by (auto simp: genblock_visit_def bindE_eq_Inr Let_def split: if_splits)
  note t = decode_type [OF d]
  from cg_appends [OF t] c have "bindE ((cg_funcs ! insn_type i) [] i ?tr ?st p) (\<lambda>(ss, r). Inr ((gb_body g @ [Label p]) @ ss, r)) =
      Inr (body, i', tr', k)" unfolding appends_def by metis
  then obtain hs where h: "(cg_funcs ! insn_type i) [] i ?tr ?st p = Inr (hs, i', tr', k)"
    and body: "body = gb_body g @ Label p # hs" by (auto simp: bindE_eq_Inr)
  from cg_handler_gen [OF t] h inv have hg: "wf_tracer tr'" "sub_tracer ?tr tr'" "wf_stack k"
      "set (stack_list k) = set (stack_list ?st) \<union> targets hs" "\<forall>q. Label q \<notin> set hs"
    unfolding handler_gen_def by blast+
  note set = hset.add_inv [OF inv(1) a] hset.add_elems [OF inv(1) a]
  note blk = visited_block [OF l d inv(3) h sub_tracer_refl]
  let ?next = "p + (if insn_rvc i' then 2 else 4)"
  show ?thesis
  proof (cases "insn_cont i'")
    case True
    with rest have g': "g' = g\<lparr>gb_set := st, gb_body := body, gb_insn := i', gb_tracer := tr', gb_stack := k\<rparr>" by simp
    with True hg set body blk show ?thesis
      by (intro that [of hs]) (auto simp: block_tail_def)
  next
    case False
    with rest obtain k' where push: "stack_push k ?next = Inr k'" and g': "g' = g\<lparr>gb_set := st, gb_insn := i',
        gb_tracer := tr', gb_body := body @ [Goto ?next, Close], gb_stack := k'\<rparr>" by (auto simp: bindE_eq_Inr)
    have tg: "targets (hs @ block_tail p i') = insert ?next (targets hs)"
      using False by (auto simp: targets_def block_tail_def)
    from False hg set body blk tg g' wstack.push_set [OF hg(3) push] wstack.push_inv [OF hg(3) push] show ?thesis
      by (intro that [of "hs @ block_tail p i'"]) (auto simp: block_tail_def)
  qed
qed

end
