(* ===== verification/Jit.thy ===== *)
theory Jit
  imports Jit_Gen
begin

unbundle bit_operations_syntax

text \<open>
  The generated function as a whole: its text is closed, and calling it does to the machine what the
  interpreter does until it would leave the hot code.
\<close>

subsection \<open>Rounds of the work list\<close>

lemma card_elems_le: "wf_set s \<Longrightarrow> card (set_elems s) \<le> SET_SIZE"
  using card_set_keys [of s] card_mono [of "{..<SET_SIZE}" "{j. j < SET_SIZE \<and> set_keys s j \<noteq> 0}"] by auto

definition gen_size :: "gen_t \<Rightarrow> nat" where
  "gen_size g = (SET_SIZE - card (set_elems (gb_set g))) * 257 + length (stack_list (gb_stack g))"

lemma round_visited:
  assumes "gen_inv m p0 g" "stack_pop (gb_stack g) = Some (p, st)" "p \<in> set_elems (gb_set g)"
  shows "gen_inv m p0 (g\<lparr>gb_stack := st\<rparr>) \<and> gen_size (g\<lparr>gb_stack := st\<rparr>) < gen_size g"
proof -
  from assms(1) obtain bl where w: "wf_set (gb_set g)" "wf_stack (gb_stack g)" "wf_tracer (gb_tracer g)"
    and bl: "gen_blocks m g bl" "if bl = [] then stack_list (gb_stack g) = [p0] else fst (hd bl) = p0"
    by (auto simp: gen_inv_def)
  note pop = wstack.pop_Some [OF w(2) assms(2)] wstack.pop_inv [OF w(2) assms(2)]
  from bl(1) assms(3) have "bl \<noteq> []" by (auto simp: gen_blocks_def)
  moreover from bl(1) assms(3) pop(1) have "gen_blocks m (g\<lparr>gb_stack := st\<rparr>) bl"
    by (auto simp: gen_blocks_def)
  ultimately show ?thesis using w pop bl(2) by (auto simp: gen_inv_def gen_size_def)
qed

lemma round_new:
  assumes "gen_inv m p0 g" "stack_pop (gb_stack g) = Some (p, st)" "p \<notin> set_elems (gb_set g)"
    and v: "genblock_visit m (g\<lparr>gb_stack := st\<rparr>) p = Inr g'"
  shows "gen_inv m p0 g' \<and> gen_size g' < gen_size g"
proof -
  from assms(1) obtain bl where w: "wf_set (gb_set g)" "wf_stack (gb_stack g)" "wf_tracer (gb_tracer g)"
    and bl: "gen_blocks m g bl" "if bl = [] then stack_list (gb_stack g) = [p0] else fst (hd bl) = p0"
    by (auto simp: gen_inv_def)
  note pop = wstack.pop_Some [OF w(2) assms(2)] wstack.pop_inv [OF w(2) assms(2)]
  from visit_new [OF _ _ _ _ v] w pop assms(3) obtain ss where
    n: "gb_body g' = gb_body g @ Label p # ss" "block_ok m (gb_tracer g') p ss" "\<forall>q. Label q \<notin> set ss"
    "set (stack_list (gb_stack g')) = set (stack_list st) \<union> targets ss"
    "wf_stack (gb_stack g')" "wf_tracer (gb_tracer g')" "sub_tracer (gb_tracer g) (gb_tracer g')"
    "wf_set (gb_set g')" "set_elems (gb_set g') = insert p (set_elems (gb_set g))"
    by auto
  from bl(1) n assms(3) pop(1) have "gen_blocks m g' (bl @ [(p, ss)])"
    by (auto simp: gen_blocks_def intro: block_ok_mono)
  moreover have "fst (hd (bl @ [(p, ss)])) = p0"
    using bl(2) pop(1) by (auto simp: hd_append split: if_splits)
  ultimately have inv: "gen_inv m p0 g'" using n by (auto simp: gen_inv_def)
  have "card (set_elems (gb_set g')) = Suc (card (set_elems (gb_set g)))"
    using n(9) assms(3) by (simp add: set_elems_def)
  with card_elems_le [OF n(8)] have "SET_SIZE - card (set_elems (gb_set g)) = Suc (SET_SIZE - card (set_elems (gb_set g')))" by simp
  moreover have "length (stack_list (gb_stack g')) \<le> 256"
    using n(5) by (simp add: wf_stack_def STACK_CAP_def)
  moreover have "0 < length (stack_list (gb_stack g))" using pop(1) by simp
  ultimately have "gen_size g' < gen_size g" by (simp add: gen_size_def)
  with inv show ?thesis by simp
qed

lemma round_inv:
  assumes "gen_inv m p0 g" and "genblock_round m g = Inr g'"
  shows "gen_inv m p0 g' \<and> gen_size g' < gen_size g"
proof -
  from assms(2) obtain p st where pop: "stack_pop (gb_stack g) = Some (p, st)"
    and v: "genblock_visit m (g\<lparr>gb_stack := st\<rparr>) p = Inr g'"
    by (auto simp: genblock_round_def split: option.splits sum.splits)
  show ?thesis
  proof (cases "p \<in> set_elems (gb_set g)")
    case True
    from assms(1) have "wf_set (gb_set g)" by (simp add: gen_inv_def)
    with v True have "g' = g\<lparr>gb_stack := st\<rparr>" by (simp add: genblock_visit_def hset.add_present)
    with round_visited [OF assms(1) pop True] show ?thesis by simp
  qed (rule round_new [OF assms(1) pop _ v])
qed

lemma gen_inv_start:
  assumes "wf_stack (gb_stack statics)" and "genblock_start statics p = Inr g"
  shows "gen_inv m p g"
proof -
  from assms(2) obtain st where st: "stack_push (stack_reset (gb_stack statics)) p = Inr st"
    and g: "g = statics\<lparr>gb_body := [], gb_stack := st, gb_set := set_reset (gb_set statics), gb_tracer := tracer_reset\<rparr>"
    by (auto simp: genblock_start_def bindE_eq_Inr)
  note w = wf_stack_reset [OF assms(1)]
  have "gen_blocks m g []" "stack_list (gb_stack g) = [p]"
    using wstack.push_elems [OF w st] by (simp_all add: g gen_blocks_def)
  with wstack.push_inv [OF w st] show ?thesis
    by (auto simp: gen_inv_def g wf_set_reset wf_tracer_def tracer_reset_def)
qed

lemma genblock_total:
  assumes "wf_stack (gb_stack statics)"
  shows "\<exists>r. genblock_blocks m statics p = Some r"
proof (cases "genblock_start statics p")
  case (Inr g)
  have "\<exists>r. drive (genblock_round m) g = Some r"
    by (rule drive_terminates [of "gen_inv m p", OF gen_inv_start [OF assms Inr]]) (rule round_inv)
  with Inr show ?thesis by (simp add: genblock_blocks_def genblock_loop_def)
qed (simp add: genblock_blocks_def)

lemma genblock_final:
  assumes "wf_stack (gb_stack statics)" and "genblock_blocks m statics p = Some (Inr g)"
  obtains bl where "wf_tracer (gb_tracer g)" "gen_blocks m g bl" "bl \<noteq> []" "fst (hd bl) = p" "stack_list (gb_stack g) = []"
proof -
  from assms(2) obtain g0 where g0: "genblock_start statics p = Inr g0" and run: "drive (genblock_round m) g0 = Some (Inr g)"
    by (auto simp: genblock_blocks_def genblock_loop_def split: sum.splits)
  from drive_invariant [of _ _ _ "gen_inv m p", OF run gen_inv_start [OF assms(1) g0]] round_inv
  obtain g1 where g1: "gen_inv m p g1" "genblock_round m g1 = Inl (Inr g)" by blast
  from g1(2) have "g1 = g" and pop: "stack_pop (gb_stack g) = None"
    by (auto simp: genblock_round_def split: option.splits sum.splits prod.splits)
  with g1 obtain bl where w: "wf_stack (gb_stack g)" "wf_tracer (gb_tracer g)" "gen_blocks m g bl"
    "if bl = [] then stack_list (gb_stack g) = [p] else fst (hd bl) = p" by (auto simp: gen_inv_def)
  from wstack.pop_None [OF w(1)] pop have "stack_list (gb_stack g) = []" by simp
  moreover with w(4) have "bl \<noteq> []" "fst (hd bl) = p" by (auto split: if_splits)
  ultimately show ?thesis
    using w(2,3) by (intro that [of bl])
qed

subsection \<open>Labels\<close>

lemma at_label_skip: "(\<And>s. s \<in> set xs \<Longrightarrow> s \<noteq> Label p) \<Longrightarrow> at_label p (xs @ ys) = at_label p ys"
  by (simp add: at_label_def dropWhile_append2)

lemma at_label_block:
  assumes "(p, ss) \<in> set bl" "distinct (map fst bl)" "\<forall>b\<in>set bl. \<forall>q. Label q \<notin> set (snd b)"
  shows "\<exists>rest. at_label p (concat (map block_text bl)) = Label p # ss @ rest"
proof -
  from assms(1) obtain xs ys where bl: "bl = xs @ (p, ss) # ys" by (meson split_list)
  with assms(2) have np: "p \<notin> fst ` set xs" by auto
  have "at_label p (concat (map block_text bl)) = at_label p (Label p # ss @ concat (map block_text ys))"
    using np assms(3) unfolding bl by (auto simp: intro!: at_label_skip)
  then show ?thesis by (simp add: at_label_def)
qed

definition gen_labels :: "stmt list \<Rightarrow> u64 list" where
  "gen_labels body = concat (map (\<lambda>s. case s of Label p \<Rightarrow> [p] | _ \<Rightarrow> []) body)"

lemma gen_labels_none: "\<forall>q. Label q \<notin> set ss \<Longrightarrow> gen_labels ss = []"
  by (induction ss) (auto simp: gen_labels_def split: stmt.split)

lemma gen_labels_blocks:
  "\<forall>b\<in>set bl. \<forall>q. Label q \<notin> set (snd b) \<Longrightarrow> gen_labels (concat (map block_text bl)) = map fst bl"
proof (induction bl)
  case (Cons b bl)
  then have "gen_labels (snd b) = []" "gen_labels (concat (map block_text bl)) = map fst bl"
    by (simp_all add: gen_labels_none)
  then show ?case by (simp add: gen_labels_def)
qed (simp add: gen_labels_def)

lemma targets_blocks: "targets (concat (map block_text bl)) = (\<Union>b\<in>set bl. targets (snd b))"
  by (auto simp: targets_def)

subsection \<open>Calling the generated function\<close>

text \<open>
  The prologue copies the traced registers to local variables, the epilogue copies them back;
  \<^verbatim>\<open>exit_reason\<close> and \<^verbatim>\<open>reenter_pc\<close> are written in place.
\<close>

definition jit_enter :: "tracer_t \<Rightarrow> state_t \<Rightarrow> mem \<Rightarrow> gstate" where
  "jit_enter T s m =
     \<lparr>g_x = \<lambda>r. if 0 < r \<and> r < num_gp_regs \<and> tr_gp_reg T ! r then Some (gp_regs s ! r) else None,
      g_f = \<lambda>r. if r < num_fp_regs \<and> tr_fp_reg T ! r then Some (fp_regs s ! r) else None,
      g_loc = Map.empty, g_exit = exit_reason s, g_reenter = reenter_pc s, g_mem = m\<rparr>"

definition written_back :: "(nat \<rightharpoonup> u64) \<Rightarrow> u64 list \<Rightarrow> u64 list" where
  "written_back f xs = map (\<lambda>r. case f r of None \<Rightarrow> xs ! r | Some v \<Rightarrow> v) [0..<length xs]"

definition jit_leave :: "gstate \<Rightarrow> state_t \<Rightarrow> state_t \<times> mem" where
  "jit_leave g s = (s\<lparr>exit_reason := g_exit g, reenter_pc := g_reenter g,
     gp_regs := written_back (g_x g) (gp_regs s), fp_regs := written_back (g_f g) (fp_regs s)\<rparr>, g_mem g)"

definition jit_call :: "gen_t \<Rightarrow> state_t \<Rightarrow> mem \<Rightarrow> (state_t \<times> mem) result option" where
  "jit_call g s m = map_option (\<lambda>r. bindE r (\<lambda>gs. Inr (jit_leave gs s)))
     (run_body (gb_body g) (jit_enter (gb_tracer g) s m))"

lemma jit_enter_gof: "jit_enter T s m = gof (traced_x T) (traced_f T) s m Map.empty (exit_reason s) (reenter_pc s)"
  by (simp add: jit_enter_def gof_def traced_x_def traced_f_def fun_eq_iff)

subsection \<open>Lock step with the interpreter\<close>

definition closed_code :: "mem \<Rightarrow> gen_t \<Rightarrow> bool" where
  "closed_code m g \<longleftrightarrow> stack_list (gb_stack g) = [] \<and> (\<exists>bl. gen_blocks m g bl)"

abbreviation (input) visited :: "gen_t \<Rightarrow> u64 set" where
  "visited g \<equiv> set_elems (gb_set g)"

lemma closed_block:
  assumes "closed_code m g" and "p \<in> visited g"
  obtains ss rest where "at_label p (gb_body g) = Label p # ss @ rest" "block_ok m (gb_tracer g) p ss"
    "targets ss \<subseteq> visited g" "p \<noteq> 0"
proof -
  from assms obtain bl where bl: "gen_blocks m g bl" "stack_list (gb_stack g) = []" by (auto simp: closed_code_def)
  with assms(2) have "p \<in> fst ` set bl" by (simp add: gen_blocks_def)
  then obtain ss where b: "(p, ss) \<in> set bl" by auto
  with bl have "block_ok m (gb_tracer g) p ss" "targets ss \<subseteq> visited g"
    using bspec [OF _ b, of "\<lambda>b. block_ok m (gb_tracer g) (fst b) (snd b) \<and> targets (snd b) \<subseteq> visited g"]
    by (simp_all add: gen_blocks_def)
  moreover from at_label_block [OF b] bl obtain rest where "at_label p (gb_body g) = Label p # ss @ rest"
    by (auto simp: gen_blocks_def)
  moreover from assms(2) have "p \<noteq> 0" by (auto simp: set_elems_def)
  ultimately show ?thesis by (intro that)
qed

definition jit_match :: "mem \<Rightarrow> gen_t \<Rightarrow> state_t \<Rightarrow> stmt list \<times> gstate \<Rightarrow> state_t \<times> mem \<Rightarrow> bool" where
  "jit_match m0 g s0 = (\<lambda>(ss, gs) (s, m). closed_code m0 g \<and> pc s \<in> visited g \<and> ss = at_label (pc s) (gb_body g) \<and>
     (\<exists>loc ex re. gs = gof (traced_x (gb_tracer g)) (traced_f (gb_tracer g)) s m loc ex re) \<and>
     wf_state s \<and> gp s 0 = 0 \<and> keeps (traced_x (gb_tracer g)) (traced_f (gb_tracer g)) s0 s \<and>
     (\<forall>p\<in>visited g. protected m p \<and> fetch m p = fetch m0 p \<and> x0_safe m0 p))"

definition jit_agree :: "gen_t \<Rightarrow> state_t \<Rightarrow> gstate result \<Rightarrow> (state_t \<times> mem) result \<Rightarrow> bool" where
  "jit_agree g s0 = rel_sum (=) (\<lambda>gs (s, m). wf_state s \<and> gp s 0 = 0 \<and>
     keeps (traced_x (gb_tracer g)) (traced_f (gb_tracer g)) s0 s \<and>
     (\<exists>loc. gs = gof (traced_x (gb_tracer g)) (traced_f (gb_tracer g)) s m loc (exit_reason s) (reenter_pc s)))"

lemma hot_step_cases:
  assumes "hot_step (s, m) = Inr (s1, m1) \<or> hot_step (s, m) = Inl (Inr (s1, m1))"
  shows "(m1 = m \<and> s1 = s\<lparr>exit_reason := interp, reenter_pc := pc s\<rparr>) \<or> (\<exists>stop. interp_step s m = Inr (stop, s1, m1))"
  using assms by (auto simp: hot_step_def split: if_splits sum.splits prod.splits)

lemma hot_step_inv:
  assumes "hot_step (s, m) = Inr (s1, m1) \<or> hot_step (s, m) = Inl (Inr (s1, m1))" and "wf_state s" "gp s 0 = 0"
  shows "wf_state s1 \<and> gp s1 0 = 0 \<and> (\<forall>p. protected m p \<longrightarrow> protected m1 p \<and> fetch m1 p = fetch m p)"
  using hot_step_cases [OF assms(1)]
proof (elim disjE conjE exE)
  fix stop assume "interp_step s m = Inr (stop, s1, m1)"
  with interp_step_inv [OF this assms(2)] protected_step [OF this] assms(3) show ?thesis by blast
qed (use assms in simp)

lemma keeps_trans: "keeps X F s s1 \<Longrightarrow> keeps X F s1 s2 \<Longrightarrow> keeps X F s s2"
  by (simp add: keeps_def)

lemma outcome_cases:
  fixes H :: "('a \<times> 'b) result + 'a \<times> 'b"
  obtains (fault) e where "H = Inl (Inl e)" | (leave) s1 m1 where "H = Inl (Inr (s1, m1))" | (go) s1 m1 where "H = Inr (s1, m1)"
proof (cases H)
  case (Inl r)
  then show ?thesis by (cases r) (auto intro: fault leave)
qed (auto intro: go)

lemma body_step_exec:
  "exec_stmts ss gs = Inl e \<Longrightarrow> body_step body (ss, gs) = Inl (Inl e)"
  "exec_stmts ss gs = Inr (End, gs') \<Longrightarrow> body_step body (ss, gs) = Inl (Inr gs')"
  "exec_stmts ss gs = Inr (Jump p, gs') \<Longrightarrow> at_label p body \<noteq> [] \<Longrightarrow> body_step body (ss, gs) = Inr (at_label p body, gs')"
  by (simp_all add: body_step_def)

lemma jit_matched:
  assumes "jit_match m0 g s0 c (s, m)"
  shows "rel_sum (jit_agree g s0) (jit_match m0 g s0) (body_step (gb_body g) c) (hot_step (s, m))"
proof -
  let ?X = "traced_x (gb_tracer g)" and ?F = "traced_f (gb_tracer g)"
  from assms obtain loc ex re where cl: "closed_code m0 g" "pc s \<in> visited g"
    and c: "c = (at_label (pc s) (gb_body g), gof ?X ?F s m loc ex re)"
    and s: "wf_state s" "gp s 0 = 0" "keeps ?X ?F s0 s"
    and code: "\<forall>p\<in>visited g. protected m p \<and> fetch m p = fetch m0 p \<and> x0_safe m0 p"
    unfolding jit_match_def by (cases c) (simp only: prod.case, blast)
  from cl obtain ss rest where b: "at_label (pc s) (gb_body g) = Label (pc s) # ss @ rest"
    "block_ok m0 (gb_tracer g) (pc s) ss" "targets ss \<subseteq> visited g" "pc s \<noteq> 0" by (rule closed_block)
  from bspec [OF code cl(2)] have f: "fetch m (pc s) = fetch m0 (pc s)" "x0_safe m (pc s)"
    by (simp_all add: x0_safe_def)
  note out = block_exec [OF b(2) f(1) b(4) s(1,2) f(2), of ex re rest loc]
  show ?thesis
  proof (cases "hot_step (s, m)" rule: outcome_cases)
    case (fault e)
    with out have "exec_stmts (at_label (pc s) (gb_body g)) (gof ?X ?F s m loc ex re) = Inl e"
      unfolding b(1) same_outcome_def by (simp only: sum.case)
    from body_step_exec(1) [OF this] fault show ?thesis by (simp add: c jit_agree_def)
  next
    case (leave s1 m1)
    with out obtain loc' where k: "keeps ?X ?F s s1" and "exec_stmts (at_label (pc s) (gb_body g)) (gof ?X ?F s m loc ex re) =
        Inr (End, gof ?X ?F s1 m1 loc' (exit_reason s1) (reenter_pc s1))"
      unfolding b(1) same_outcome_def by (simp only: sum.case prod.case) blast
    from body_step_exec(2) [OF this(2)] leave hot_step_inv [OF disjI2 [OF leave] s(1,2)] keeps_trans [OF s(3) k]
    show ?thesis by (auto simp: c jit_agree_def)
  next
    case (go s1 m1)
    with out obtain loc' where E: "exec_stmts (at_label (pc s) (gb_body g)) (gof ?X ?F s m loc ex re) =
        Inr (Jump (pc s1), gof ?X ?F s1 m1 loc' ex re)" and k: "keeps ?X ?F s s1" "pc s1 \<in> targets ss"
      unfolding b(1) same_outcome_def by (simp only: sum.case prod.case) blast
    from k b(3) have v: "pc s1 \<in> visited g" by blast
    have "at_label (pc s1) (gb_body g) \<noteq> []" by (rule closed_block [OF cl(1) v]) simp
    note B = body_step_exec(3) [OF E this]
    have "\<forall>p\<in>visited g. protected m1 p \<and> fetch m1 p = fetch m0 p \<and> x0_safe m0 p"
      using hot_step_inv [OF disjI1 [OF go] s(1,2)] code by metis
    with hot_step_inv [OF disjI1 [OF go] s(1,2)] keeps_trans [OF s(3) k(1)] v cl(1)
    have "jit_match m0 g s0 (at_label (pc s1) (gb_body g), gof ?X ?F s1 m1 loc' ex re) (s1, m1)"
      unfolding jit_match_def by blast
    with go B show ?thesis by (simp add: c)
  qed
qed

interpretation jit: lockstep "body_step (gb_body g)" hot_step "jit_match m0 g s0" "jit_agree g s0" for g m0 s0
  by unfold_locales (use jit_matched in \<open>auto simp: split_paired_all\<close>)

text \<open>Writing the registers back gives the interpreter's registers.\<close>

lemma written_back_eq:
  assumes "length xs = length ys" and "\<And>r. r < length ys \<Longrightarrow> (case f r of None \<Rightarrow> xs ! r | Some v \<Rightarrow> v) = ys ! r"
  shows "written_back f xs = ys"
  unfolding written_back_def
proof (rule nth_equalityI)
  fix i assume "i < length (map (\<lambda>r. case f r of None \<Rightarrow> xs ! r | Some v \<Rightarrow> v) [0..<length xs])"
  with assms show "map (\<lambda>r. case f r of None \<Rightarrow> xs ! r | Some v \<Rightarrow> v) [0..<length xs] ! i = ys ! i"
    using assms(2) [of i] by (cases "f i") simp_all
qed (simp add: assms(1))

lemma jit_leave_gof:
  assumes "wf_state s0" "gp s0 0 = 0" "wf_state s" "gp s 0 = 0" and k: "keeps X F s0 s" and "regs_within X F"
  shows "jit_leave (gof X F s m loc (exit_reason s) (reenter_pc s)) s0 = (s\<lparr>pc := pc s0\<rparr>, m)"
proof -
  have x: "gp_regs s0 ! r = gp_regs s ! r" if "r \<notin> X" for r
    using assms(2,4) k that by (cases "r = 0") (auto simp: keeps_def gp_def)
  have f: "fp_regs s0 ! r = fp_regs s ! r" if "r \<notin> F" for r
    using k that by (simp add: keeps_def)
  have "written_back (g_x (gof X F s m loc ex re)) (gp_regs s0) = gp_regs s"
    "written_back (g_f (gof X F s m loc ex re)) (fp_regs s0) = fp_regs s" for ex re
    using assms(1,3) x f by (auto intro!: written_back_eq simp: gof_def)
  then show ?thesis by (simp add: jit_leave_def) (simp add: gof_def)
qed

lemma jit_call_eq:
  assumes "wf_stack (gb_stack statics)" "genblock_blocks m0 statics (pc s) = Some (Inr g)" "wf_state s" "gp s 0 = 0"
    and code: "\<forall>p\<in>visited g. protected m p \<and> fetch m p = fetch m0 p \<and> x0_safe m0 p"
  shows "jit_call g s m = map_option (\<lambda>r. bindE r (\<lambda>(s1, m1). Inr (s1\<lparr>pc := pc s\<rparr>, m1))) (drive hot_step (s, m))"
proof -
  let ?X = "traced_x (gb_tracer g)" and ?F = "traced_f (gb_tracer g)"
  obtain bl where bl: "gen_blocks m0 g bl" "bl \<noteq> []" "fst (hd bl) = pc s" "stack_list (gb_stack g) = []"
    by (rule genblock_final [OF assms(1,2)])
  then have cl: "closed_code m0 g" by (auto simp: closed_code_def)
  from bl hd_in_set [OF bl(2)] have "pc s \<in> set (map fst bl)" by (metis image_eqI list.set_map)
  with bl(1) have "pc s \<in> visited g" by (simp add: gen_blocks_def)
  moreover have "gb_body g = at_label (pc s) (gb_body g)"
    using bl by (cases bl) (auto simp: gen_blocks_def at_label_def)
  ultimately have "jit_match m0 g s (gb_body g, jit_enter (gb_tracer g) s m) (s, m)"
    using cl assms(3,4) code unfolding jit_match_def jit_enter_gof by (simp only: prod.case keeps_refl) blast
  from jit.drive_agree [OF this] have rel: "rel_option (jit_agree g s) (run_body (gb_body g) (jit_enter (gb_tracer g) s m)) (drive hot_step (s, m))"
    by (simp add: run_body_def)
  have "bindE r (\<lambda>gs. Inr (jit_leave gs s)) = bindE q (\<lambda>(s1, m1). Inr (s1\<lparr>pc := pc s\<rparr>, m1))" if "jit_agree g s r q" for r q
    using that jit_leave_gof [OF assms(3,4) _ _ _ regs_within_traced]
    by (cases r; cases q) (auto simp: jit_agree_def)
  with rel show ?thesis unfolding jit_call_def
    by (cases rule: option.rel_cases) simp_all
qed

subsection \<open>Properties of the code generator\<close>

text \<open>
  C3. Calling the function generated for the instruction at \<^verbatim>\<open>pc\<close> does to registers, memory, exit reason and re-entry
  point exactly what the interpreter does from there through direct control flow, faults included, and
  it runs forever exactly when the interpreter does. The code must lie in pages without write permission,
  be the code it was generated from, and not divide into \<^verbatim>\<open>x0\<close> with the narrow divisions.
\<close>
theorem jit_correct:
  "wf_stack (gb_stack statics) \<Longrightarrow> genblock_blocks m0 statics (pc s) = Some (Inr g) \<Longrightarrow> wf_state s \<Longrightarrow> gp s 0 = 0 \<Longrightarrow>
   \<forall>p\<in>set_elems (gb_set g). protected m p \<and> fetch m p = fetch m0 p \<and> x0_safe m0 p \<Longrightarrow>
   jit_call g s m = map_option (\<lambda>r. bindE r (\<lambda>(s1, m1). Inr (s1\<lparr>pc := pc s\<rparr>, m1))) (drive hot_step (s, m))"
  by (rule jit_call_eq)

text \<open>A program of one ECALL in a page that may be read and executed.\<close>

definition demo_code :: mem where
  "demo_code = (\<lambda>a. if unat (a - TO_HOST 0x1000) < 4 then Some (5, [0x73, 0, 0, 0] ! unat (a - TO_HOST 0x1000)) else None)"

definition demo_statics :: gen_t where
  "demo_statics = \<lparr>gb_body = [], gb_stack = \<lparr>stack_top = 0, stack_elems = replicate 256 0\<rparr>,
     gb_set = \<lparr>set_table = []\<rparr>, gb_tracer = tracer_reset, gb_insn = zero_insn\<rparr>"

definition demo_gen :: gen_t where
  "demo_gen = \<lparr>gb_body = [Label 0x1000, SetExit ecall, SetReenter (ULL 0x1004), GotoEnd, Close],
     gb_stack = \<lparr>stack_top = 0, stack_elems = (replicate 256 0)[0 := 0x1000]\<rparr>,
     gb_set = (set_reset \<lparr>set_table = []\<rparr>)\<lparr>set_table := (replicate SET_SIZE 0)[4096 := 4096]\<rparr>,
     gb_tracer = tracer_reset, gb_insn = zero_insn\<lparr>insn_type := insn_ecall, insn_cont := True\<rparr>\<rparr>"

lemma demo_code_bytes: "demo_code (TO_HOST 0x1000 + of_nat k) = (if k < 4 then Some (5, [0x73, 0, 0, 0] ! k) else None)" if "k < 5"
  using that by (auto simp: demo_code_def take_bit_nat_eq_self unat_of_nat)

lemma demo_code_load: "load_u32 demo_code (TO_HOST 0x1000) = Inr 0x73"
proof -
  have "load_byte demo_code (TO_HOST 0x1000 + of_nat k) = Inr ([0x73, 0, 0, 0] ! k)" if "k < 4" for k
    using demo_code_bytes [of k] that by (simp add: load_byte_def readable_def)
  from this [of 0] this [of 1] this [of 2] this [of 3] show ?thesis
    unfolding load_u32_def load_bytes_4 by simp
qed

lemma demo_genblock: "genblock_blocks demo_code demo_statics 0x1000 = Some (Inr demo_gen)"
proof -
  let ?g0 = "demo_statics\<lparr>gb_stack := \<lparr>stack_top = 1, stack_elems = (replicate 256 0)[0 := 0x1000]\<rparr>,
      gb_set := set_reset \<lparr>set_table = []\<rparr>\<rparr>"
  have start: "genblock_start demo_statics 0x1000 = Inr ?g0"
    by (simp add: genblock_start_def demo_statics_def stack_push_def stack_reset_def STACK_CAP_def)
  have dec: "insn_decode zero_insn 0x73 = Inr (zero_insn\<lparr>insn_type := insn_ecall, insn_cont := True\<rparr>)"
    by (simp add: insn_decode_def decode_q3_def decode_system_def QUADRANT_def OPCODE_def Let_def)
  have cg: "cg_funcs ! insn_ecall = cg_func_ecall" by (simp add: cg_funcs_def)
  have "genblock_round demo_code ?g0 = Inr demo_gen"
    by (simp add: genblock_round_def stack_pop_def genblock_visit_def set_add_fresh demo_statics_def demo_code_load dec
        cg cg_func_ecall_def demo_gen_def)
  moreover have "genblock_round demo_code demo_gen = Inl (Inr demo_gen)"
    by (simp add: genblock_round_def stack_pop_def demo_gen_def)
  ultimately have "drive (genblock_round demo_code) ?g0 = Some (Inr demo_gen)"
    by (simp only: drive_steps)
  with start show ?thesis by (simp add: genblock_blocks_def genblock_loop_def)
qed

lemma demo_statics_wf: "wf_stack (gb_stack demo_statics)"
  by (simp add: demo_statics_def wf_stack_def STACK_CAP_def)

lemma demo_visited: "set_elems (gb_set demo_gen) = {0x1000}"
proof -
  have "set ((replicate SET_SIZE 0)[4096 := 4096 :: u64]) - {0} = {4096}"
    by (auto simp: set_update_distinct SET_SIZE_def dest!: set_update_subset_insert [THEN subsetD] intro!: set_update_memI)
  then show ?thesis by (simp add: demo_gen_def set_elems_def)
qed

lemma demo_fetch: "fetch demo_code 0x1000 = Inr (zero_insn\<lparr>insn_type := insn_ecall, insn_cont := True\<rparr>)"
  by (simp add: fetch_def demo_code_load insn_decode_def decode_q3_def decode_system_def QUADRANT_def OPCODE_def Let_def)

lemma demo_protected: "protected demo_code 0x1000"
  unfolding protected_def using demo_code_bytes by (auto simp: writable_def)

lemma jit_correct_witness:
  "jit_call demo_gen (demo_state 0x1000 (\<lambda>_. 0)) demo_code =
     Some (Inr ((demo_state 0x1000 (\<lambda>_. 0))\<lparr>exit_reason := ecall, reenter_pc := 0x1004\<rparr>, demo_code))"
proof -
  let ?s = "demo_state 0x1000 (\<lambda>_. 0)"
  have p: "pc ?s = 0x1000" by (simp add: demo_state_def)
  have z: "set_gp 0 0 (?s\<lparr>exit_reason := ecall, reenter_pc := 0x1004\<rparr>) = ?s\<lparr>exit_reason := ecall, reenter_pc := 0x1004\<rparr>"
    by (simp add: set_gp_def demo_state_def upt_rec)
  have "hot_step (?s, demo_code) = Inl (Inr (?s\<lparr>exit_reason := ecall, reenter_pc := 0x1004\<rparr>, demo_code))"
    using demo_fetch z by (simp add: hot_step_fetched p interp_only_def funcs_jumps func_ecall_def)
  then have "drive hot_step (?s, demo_code) = Some (Inr (?s\<lparr>exit_reason := ecall, reenter_pc := 0x1004\<rparr>, demo_code))"
    by (simp add: drive.simps)
  with jit_correct [OF demo_statics_wf, of demo_code ?s demo_gen demo_code] demo_genblock show ?thesis
    by (simp add: p demo_gp demo_visited demo_protected x0_safe_def demo_fetch wdivs_def)
qed

text \<open>
  C11. \<^verbatim>\<open>machine_genblock\<close> always returns, whatever the guest's code is: with the source text or with one of its
  errors.
\<close>
theorem genblock_returns:
  "wf_stack (gb_stack statics) \<Longrightarrow> \<exists>r. machine_genblock m statics p = Some r"
  using genblock_total [of statics m p] by (auto simp: machine_genblock_def)

lemma genblock_returns_witness: "\<exists>r. machine_genblock demo_code demo_statics 0x1000 = Some r"
  by (rule genblock_returns [OF demo_statics_wf])

text \<open>
  C12. The generated body is closed: it starts with the label of the requested instruction, no label stands twice, the
  labels are the visited program counters, and every jump goes to one of them.
\<close>
theorem genblock_closed:
  "wf_stack (gb_stack statics) \<Longrightarrow> machine_genblock m statics p = Some (Inr (src, g)) \<Longrightarrow>
   distinct (gen_labels (gb_body g)) \<and> set (gen_labels (gb_body g)) = set_elems (gb_set g) \<and>
   (\<exists>body. gb_body g = Label p # body) \<and> targets (gb_body g) \<subseteq> set (gen_labels (gb_body g))"
proof -
  assume w: "wf_stack (gb_stack statics)" and g: "machine_genblock m statics p = Some (Inr (src, g))"
  from g have "genblock_blocks m statics p = Some (Inr g)" by (auto simp: machine_genblock_def bindE_eq_Inr)
  then obtain bl where bl: "gen_blocks m g bl" "bl \<noteq> []" "fst (hd bl) = p" "stack_list (gb_stack g) = []"
    by (rule genblock_final [OF w])
  then have "gen_labels (gb_body g) = map fst bl" "targets (gb_body g) \<subseteq> set_elems (gb_set g)"
    by (auto simp: gen_blocks_def gen_labels_blocks targets_blocks)
  with bl show ?thesis by (cases bl) (auto simp: gen_blocks_def)
qed

lemma genblock_closed_witness:
  "targets (gb_body demo_gen) \<subseteq> set (gen_labels (gb_body demo_gen))"
proof -
  have "machine_genblock demo_code demo_statics 0x1000 = Some (Inr (concat (source_pieces demo_gen), demo_gen))"
    by (simp add: machine_genblock_def demo_genblock)
  from genblock_closed [OF demo_statics_wf this] show ?thesis by blast
qed

end
