(* ===== verification/Guest.thy ===== *)
theory Guest
  imports Jit
begin

unbundle bit_operations_syntax

text \<open>
  What a guest program does, whatever runs it: \<open>guest_round\<close> executes one instruction with the interpreter's
  \<^verbatim>\<open>interp_step\<close> and goes on at the place the instruction leaves to, until a system call or program counter zero. The
  fields \<^verbatim>\<open>exit_reason\<close> and \<^verbatim>\<open>reenter_pc\<close> are not the guest's; \<open>bare\<close> resets them. The block interpreter and hot code both
  take the guest some rounds further.
\<close>

subsection \<open>The guest's own state\<close>

definition bare :: "state_t \<Rightarrow> state_t" where
  "bare s = s\<lparr>exit_reason := none, reenter_pc := 0\<rparr>"

definition resume :: "state_t \<Rightarrow> state_t" where
  "resume s = bare (s\<lparr>pc := reenter_pc s\<rparr>)"

lemma bare_fields [simp]:
  "pc (bare s) = pc s" "gp_regs (bare s) = gp_regs s" "fp_regs (bare s) = fp_regs s" "exit_reason (bare s) = none"
  "reenter_pc (bare s) = 0" "bare (bare s) = bare s" "bare (s\<lparr>exit_reason := r\<rparr>) = bare s" "bare (s\<lparr>reenter_pc := p\<rparr>) = bare s"
  by (simp_all add: bare_def)

lemma gp_bare [simp]: "gp (bare s) = gp s"
  by (rule ext) (simp add: gp_def)

lemma fp_bare [simp]: "fp (bare s) = fp s"
  by (rule ext) (simp add: fp_def)

lemma wf_bare [simp]: "wf_state (bare s) = wf_state s"
  unfolding wf_state_def bare_fields ..

lemma bare_pc [simp]: "bare (s\<lparr>pc := p\<rparr>) = (bare s)\<lparr>pc := p\<rparr>"
  by (simp add: bare_def)

lemma bare_writes [simp]:
  "bare (set_gp r v s) = set_gp r v (bare s)" "bare (set_fp r x s) = set_fp r x (bare s)"
  "bare (set_f i w s) = set_f i w (bare s)" "bare (set_d i x s) = set_d i x (bare s)"
  by (simp_all add: bare_def set_gp_def set_fp_def set_f_def set_d_def fp_def)

text \<open>A handler does not look at the two fields.\<close>

definition exit_blind :: "func_t \<Rightarrow> bool" where
  "exit_blind f \<longleftrightarrow> (\<forall>s m i. rel_sum (=) (\<lambda>(s1, r1) (s2, r2). bare s1 = bare s2 \<and> r1 = r2) (f s m i) (f (bare s) m i))"

lemma rel_sum_bind:
  "(\<And>x. r = Inr x \<Longrightarrow> rel_sum (=) Q (f x) (g x)) \<Longrightarrow> rel_sum (=) Q (bindE r f) (bindE r g)"
  by (cases r) simp_all

lemma exit_blind_macros [simp]:
  "exit_blind (FUNC_load ld ext)" "exit_blind (FUNC_imm e2)" "exit_blind (FUNC_alu e3)"
  "exit_blind (FUNC_branch e4)" "exit_blind FUNC_csr" "exit_blind (FUNC_fma_s e5)"
  "exit_blind (FUNC_fma_d e6)" "exit_blind (FUNC_fp_s e7)" "exit_blind (FUNC_fp_d e8)"
  "exit_blind (FUNC_sgnj_s n x)" "exit_blind (FUNC_sgnj_d n x)" "exit_blind (FUNC_fcmp_s e9)"
  "exit_blind (FUNC_fcmp_d e10)" "exit_blind (FUNC_store st)" "exit_blind (FUNC_fstore st')"
  "exit_blind func_empty" "exit_blind func_jalr" "exit_blind func_jal" "exit_blind func_ecall"
  "exit_blind func_flw" "exit_blind func_fld"
  by (auto simp: exit_blind_def macro_defs func_empty_def func_jalr_def func_jal_def func_ecall_def func_flw_def
      func_fld_def Let_def intro!: rel_sum_bind)

lemma exit_blind_put [simp]:
  "(\<And>s i. v (bare s) i = v s i) \<Longrightarrow> exit_blind (put_gp v)"
  "(\<And>s i. w (bare s) i = w s i) \<Longrightarrow> exit_blind (put_f w)"
  "(\<And>s i. x (bare s) i = x s i) \<Longrightarrow> exit_blind (put_d x)"
  by (simp_all add: exit_blind_def macro_defs)

lemma funcs_exit_blind: "t < num_insns \<Longrightarrow> exit_blind (funcs ! t)"
proof -
  have "list_all exit_blind funcs"
    unfolding funcs_def list.pred_inject by (intro conjI TrueI) (simp_all add: alu_defs)
  then show "t < num_insns \<Longrightarrow> exit_blind (funcs ! t)" by (simp add: list_all_length)
qed

lemma funcs_bare:
  assumes "t < num_insns"
  shows "(funcs ! t) s m i = Inl e \<Longrightarrow> (funcs ! t) (bare s) m i = Inl e"
    "(funcs ! t) s m i = Inr (s1, r) \<Longrightarrow> \<exists>s2. (funcs ! t) (bare s) m i = Inr (s2, r) \<and> bare s2 = bare s1"
proof -
  have "rel_sum (=) (\<lambda>(s1, r1) (s2, r2). bare s1 = bare s2 \<and> r1 = r2) ((funcs ! t) s m i) ((funcs ! t) (bare s) m i)"
    using funcs_exit_blind [OF assms] by (simp add: exit_blind_def)
  then show "(funcs ! t) s m i = Inl e \<Longrightarrow> (funcs ! t) (bare s) m i = Inl e"
    "(funcs ! t) s m i = Inr (s1, r) \<Longrightarrow> \<exists>s2. (funcs ! t) (bare s) m i = Inr (s2, r) \<and> bare s2 = bare s1"
    by (cases "(funcs ! t) (bare s) m i"; force)+
qed

text \<open>Nor does a round of the interpreter; when it stops, it has written both.\<close>

lemma interp_step_bare_Inl: "interp_step s m = Inl e \<Longrightarrow> interp_step (bare s) m = Inl e"
  using decode_type [of zero_insn]
  by (auto simp: interp_step_def bindE_eq_Inl Let_def split: if_splits dest: funcs_bare)

lemma handler_exit:
  assumes f: "fetch m p = Inr i" and t: "insn_type i = t"
    and h: "(funcs ! t) s m i = Inr (s1, m1, i1)" "(funcs ! t) (bare s) m i = Inr (s2, m1, i1)" and b: "bare s2 = bare s1" and c: "insn_cont i1"
  shows "s2 = s1"
proof -
  note w = fetch_wf [OF f]
  have pcs: "pc s2 = pc s1" using arg_cong [OF b, of pc] by simp
  have "exit_reason s2 = exit_reason s1 \<and> reenter_pc s2 = reenter_pc s1"
  proof (cases "t \<in> {insn_jalr, insn_jal, insn_ecall}")
    case True
    with h b pcs show ?thesis
      by (auto simp: funcs_jumps func_jalr_def func_jal_def func_ecall_def Let_def)
  next
    case False
    with w t c have n: "i1 \<noteq> i" by auto
    from funcs_straight [OF w(2)] False t have "straight_or_branch (funcs ! t)" by simp
    with h n have "exit_reason s1 = direct_branch \<and> reenter_pc s1 = pc s1" "exit_reason s2 = direct_branch \<and> reenter_pc s2 = pc s2"
      unfolding straight_or_branch_def by blast+
    with pcs show ?thesis by simp
  qed
  with b show ?thesis by (cases s1; cases s2) (simp add: bare_def)
qed

lemma interp_step_bare:
  assumes "interp_step s m = Inr (stop, s', m')"
  shows "\<exists>s2. interp_step (bare s) m = Inr (stop, s2, m') \<and> bare s2 = bare s' \<and> (stop \<longrightarrow> s2 = s')"
  using assms
proof (cases rule: interp_step_Inr)
  case halt
  then show ?thesis by (auto simp: interp_step_def bare_def)
next
  case (insn data i s1 i1)
  then have f: "fetch m (pc s) = Inr i" by (simp add: fetch_def)
  from funcs_bare(2) [OF good_type [OF insn(4)] insn(5)] obtain s2 where
    s2: "(funcs ! insn_type i) (bare s) m i = Inr (s2, m', i1)" and b: "bare s2 = bare s1" by blast
  have pcs: "pc s2 = pc s1" using arg_cong [OF b, of pc] by simp
  from interp_step_fetched [of "bare s" m i] insn(1) f s2
  have st: "interp_step (bare s) m = (if insn_cont i1 then Inr (True, set_gp 0 0 s2, m')
     else Inr (False, (set_gp 0 0 s2)\<lparr>pc := pc s2 + (if insn_rvc i1 then 2 else 4)\<rparr>, m'))" by simp
  show ?thesis
  proof (cases "insn_cont i1")
    case True
    from handler_exit [OF f refl insn(5) s2 b True] st insn True show ?thesis by simp
  next
    case False
    with st insn b pcs show ?thesis by simp
  qed
qed

subsection \<open>Rounds of the guest\<close>

definition guest_round :: "state_t \<times> mem \<Rightarrow> (exit_reason_t \<times> state_t \<times> mem) result + state_t \<times> mem" where
  "guest_round = (\<lambda>(s, m). case interp_step s m of
     Inl e \<Rightarrow> Inl (Inl e)
   | Inr (stop, s1, m1) \<Rightarrow>
       if \<not> stop then Inr (bare s1, m1)
       else if exit_reason s1 = ecall \<or> exit_reason s1 = halt then Inl (Inr (exit_reason s1, resume s1, m1))
       else Inr (resume s1, m1))"

lemma guest_round_bare: "guest_round (bare s, m) = guest_round (s, m)"
proof (cases "interp_step s m")
  case (Inl e)
  then show ?thesis by (simp add: guest_round_def interp_step_bare_Inl)
next
  case (Inr r)
  then obtain stop s' m' where r: "interp_step s m = Inr (stop, s', m')" by (cases r) auto
  from interp_step_bare [OF r] r show ?thesis by (auto simp: guest_round_def)
qed

definition guest_reach :: "state_t \<times> mem \<Rightarrow> state_t \<times> mem \<Rightarrow> bool" where
  "guest_reach = (\<lambda>x y. guest_round x = Inr y)\<^sup>*\<^sup>*"

lemma guest_reach_refl [simp]: "guest_reach x x"
  by (simp add: guest_reach_def)

lemma guest_reach_trans: "guest_reach x y \<Longrightarrow> guest_reach y z \<Longrightarrow> guest_reach x z"
  by (simp add: guest_reach_def)

lemma guest_reach_step: "guest_reach x y \<Longrightarrow> guest_round y = Inr z \<Longrightarrow> guest_reach x z"
  unfolding guest_reach_def by (rule rtranclp.rtrancl_into_rtrancl)

lemma guest_drive: "guest_reach x y \<Longrightarrow> drive guest_round x = drive guest_round y"
  unfolding guest_reach_def by (induction rule: rtranclp_induct) (auto simp: drive_steps)

text \<open>
  A call that leaves registers, exit reason and re-entry point \<open>s\<close> has taken the guest from \<open>x\<close> to the
  re-entry point, or to the end of its run.
\<close>

definition lands :: "state_t \<times> mem \<Rightarrow> state_t \<Rightarrow> mem \<Rightarrow> bool" where
  "lands x s m \<longleftrightarrow> exit_reason s \<noteq> none \<and>
     (if exit_reason s = ecall \<or> exit_reason s = halt
      then \<exists>y. guest_reach x y \<and> guest_round y = Inl (Inr (exit_reason s, resume s, m))
      else guest_reach x (resume s, m))"

lemma lands_later: "guest_reach x y \<Longrightarrow> lands y s m \<Longrightarrow> lands x s m"
  unfolding lands_def using guest_reach_trans by (metis (no_types, lifting))

lemma round_go: "interp_step s m = Inr (False, s1, m1) \<Longrightarrow> guest_round (bare s, m) = Inr (bare s1, m1)"
  unfolding guest_round_bare by (simp add: guest_round_def)

lemma round_stop:
  "interp_step s m = Inr (True, s1, m1) \<Longrightarrow> exit_reason s1 \<noteq> ecall \<Longrightarrow> exit_reason s1 \<noteq> halt \<Longrightarrow>
   guest_round (bare s, m) = Inr (resume s1, m1)"
  unfolding guest_round_bare by (simp add: guest_round_def)

lemma lands_stop:
  assumes "interp_step s m = Inr (True, s1, m1)"
  shows "lands (bare s, m) s1 m1"
proof -
  from interp_step_exit [OF assms] have "exit_reason s1 \<noteq> none" by (auto simp: block_exit_def)
  moreover from assms have "guest_round (bare s, m) = (if exit_reason s1 = ecall \<or> exit_reason s1 = halt
      then Inl (Inr (exit_reason s1, resume s1, m1)) else Inr (resume s1, m1))"
    unfolding guest_round_bare by (simp add: guest_round_def)
  ultimately show ?thesis
    unfolding lands_def using guest_reach_step [OF guest_reach_refl [of "(bare s, m)"]]
    by (cases "exit_reason s1 = ecall \<or> exit_reason s1 = halt") (simp_all only: if_True if_False simp_thms, blast intro: guest_reach_refl)
qed

lemma reach_go: "interp_step s m = Inr (False, s1, m1) \<Longrightarrow> guest_reach (bare s, m) (bare s1, m1)"
  by (rule guest_reach_step [OF guest_reach_refl round_go])

subsection \<open>The block interpreter and hot code\<close>

lemma block_lands:
  assumes "exec_block_interp s m = Some (Inr (s', m'))"
  shows "lands (bare s, m) s' m'"
proof (rule exec_block_induct [OF assms, where P = "\<lambda>s1 m1. guest_reach (bare s, m) (bare s1, m1)"])
  show "guest_reach (bare s, m) (bare s, m)" by simp
next
  fix s1 m1 s2 m2 assume "guest_reach (bare s, m) (bare s1, m1)" "interp_step s1 m1 = Inr (False, s2, m2)"
  then show "guest_reach (bare s, m) (bare s2, m2)" by (blast intro: guest_reach_trans reach_go)
next
  fix s1 m1 s2 m2 assume "guest_reach (bare s, m) (bare s1, m1)" "interp_step s1 m1 = Inr (True, s2, m2)"
  then show "lands (bare s, m) s2 m2" by (blast intro: lands_later lands_stop)
qed

lemma resume_direct:
  assumes "block_exit s" "exit_reason s = direct_branch"
  shows "resume s = bare s"
proof -
  from assms have "reenter_pc s = pc s" by (simp add: block_exit_def)
  then show ?thesis by (cases s) (simp add: resume_def bare_def)
qed

lemma hot_step_go:
  assumes "hot_step (s, m) = Inr (s1, m1)"
  shows "guest_round (bare s, m) = Inr (bare s1, m1)"
proof -
  have "\<exists>stop. interp_step s m = Inr (stop, s1, m1) \<and> (stop \<longrightarrow> exit_reason s1 = direct_branch)"
    using assms by (auto simp: hot_step_def split: if_splits sum.splits prod.splits)
  then obtain stop where st: "interp_step s m = Inr (stop, s1, m1)" "stop \<longrightarrow> exit_reason s1 = direct_branch" by blast
  show ?thesis
  proof (cases stop)
    case True
    with st have d: "exit_reason s1 = direct_branch" and i: "interp_step s m = Inr (True, s1, m1)" by simp_all
    from interp_step_exit [OF i] d have "resume s1 = bare s1" by (simp add: resume_direct)
    with round_stop [OF i] d show ?thesis by simp
  next
    case False
    with st(1) show ?thesis by (intro round_go) simp
  qed
qed

lemma hot_step_lands:
  assumes "hot_step (s, m) = Inl (Inr (s1, m1))"
  shows "lands (bare s, m) s1 m1"
proof (cases "left_to_interp m (pc s)")
  case True
  with assms have "s1 = s\<lparr>exit_reason := interp, reenter_pc := pc s\<rparr>" "m1 = m" by (auto simp: hot_step_def)
  then show ?thesis by (simp add: lands_def resume_def)
next
  case False
  with assms have "interp_step s m = Inr (True, s1, m1)"
    by (auto simp: hot_step_def split: sum.splits prod.splits if_splits)
  then show ?thesis by (rule lands_stop)
qed

lemma hot_lands:
  assumes "drive hot_step x = Some r"
  shows "r = Inr (s', m') \<Longrightarrow> lands (bare (fst x), snd x) s' m'"
  using assms
proof (induction x r rule: drive_induct)
  case (result x r)
  then show ?case by (cases x) (simp add: hot_step_lands)
next
  case (step x y r)
  from step(1) have "guest_round (bare (fst x), snd x) = Inr (bare (fst y), snd y)"
    using hot_step_go [of "fst x" "snd x" "fst y" "snd y"] by simp
  from lands_later [OF guest_reach_step [OF guest_reach_refl this]] step show ?case by blast
qed

end
