(* ===== verification/Compile.thy ===== *)
theory Compile
  imports Syscall
begin

unbundle bit_operations_syntax

text \<open>
  \<^verbatim>\<open>src/compile.c\<close> with the section, symbol and relocation structures of \<^verbatim>\<open>inc/elfdef.h\<close>: the generated
  source goes to a C compiler, the object file comes back into the static buffer \<^verbatim>\<open>elfbuf\<close>, and a
  small linker puts \<^verbatim>\<open>.text\<close> and one \<^verbatim>\<open>.rodata.*\<close> section into the code cache and applies the relocations. The
  compiler is not part of the program: \<open>cc_t\<close> says whether a pipe and the compiler process could be
  had and which object file it writes for a source text. Reads outside \<^verbatim>\<open>elfbuf\<close> and writes outside the
  code buffer are undefined behaviour.
\<close>

definition BINBUF_CAP :: nat where
  "BINBUF_CAP = 64 * 1024"

record cc_t =
  cc_pipe :: bool
  cc_popen :: bool
  cc_object :: "string \<Rightarrow> u8 list"

record elf64_shdr_t =
  sh_name :: u32
  sh_type :: u32
  sh_flags :: u32
  sh_addr :: u64
  sh_offset :: u64
  sh_size :: u64
  sh_link :: u32
  sh_info :: u32
  sh_addralign :: u64
  sh_entsize :: u64

record elf64_sym_t =
  st_name :: u32
  st_info :: u8
  st_other :: u8
  st_shndx :: u16
  st_value :: u64
  st_symsize :: u64     \<comment> \<open>\<^verbatim>\<open>st_size\<close>\<close>

record elf64_rela_t =
  r_offset :: u64
  r_type :: u32
  r_sym :: u32
  r_addend :: i64

abbreviation (input) shdr_size :: nat where "shdr_size \<equiv> 64"
abbreviation (input) sym_size :: nat where "sym_size \<equiv> 24"
abbreviation (input) rela_size :: nat where "rela_size \<equiv> 24"

definition R_X86_64_PC32 :: u32 where
  "R_X86_64_PC32 = 2"

subsection \<open>Reading the object file\<close>

text \<open>\<open>n\<close> bytes of \<^verbatim>\<open>elfbuf\<close> from an offset.\<close>

definition buf_slice :: "u8 list \<Rightarrow> u64 \<Rightarrow> nat \<Rightarrow> u8 list result" where
  "buf_slice buf off n =
     (if unat off + n \<le> length buf then Inr (take n (drop (unat off) buf)) else Inl (Undefined ''elfbuf''))"

definition shdr_of :: "u8 list \<Rightarrow> elf64_shdr_t" where
  "shdr_of bs = \<lparr>sh_name = field bs 0 4, sh_type = field bs 4 4, sh_flags = field bs 8 4,
     sh_addr = field bs 16 8, sh_offset = field bs 24 8, sh_size = field bs 32 8, sh_link = field bs 40 4,
     sh_info = field bs 44 4, sh_addralign = field bs 48 8, sh_entsize = field bs 56 8\<rparr>"

definition sym_of :: "u8 list \<Rightarrow> elf64_sym_t" where
  "sym_of bs = \<lparr>st_name = field bs 0 4, st_info = field bs 4 1, st_other = field bs 5 1,
     st_shndx = field bs 6 2, st_value = field bs 8 8, st_symsize = field bs 16 8\<rparr>"

definition rela_of :: "u8 list \<Rightarrow> elf64_rela_t" where
  "rela_of bs = \<lparr>r_offset = field bs 0 8, r_type = field bs 8 4, r_sym = field bs 12 4, r_addend = field bs 16 8\<rparr>"

definition shdr_at :: "u8 list \<Rightarrow> elf64_ehdr_t \<Rightarrow> nat \<Rightarrow> elf64_shdr_t result" where
  "shdr_at buf ehdr idx =
     bindE (buf_slice buf (e_shoff ehdr + of_nat idx * of_nat shdr_size) shdr_size) (\<lambda>bs. Inr (shdr_of bs))"

text \<open>The C string at an offset, up to its terminator.\<close>

definition cstring_at :: "u8 list \<Rightarrow> u64 \<Rightarrow> u8 list result" where
  "cstring_at buf off =
     (if 0 \<in> set (drop (unat off) buf) then Inr (takeWhile (\<lambda>b. b \<noteq> 0) (drop (unat off) buf))
      else Inl (Undefined ''elfbuf''))"

definition bytes_of :: "string \<Rightarrow> u8 list" where
  "bytes_of s = map (\<lambda>c. of_nat (of_char c)) s"

record sections_t =
  text_idx :: nat
  symtab_idx :: nat
  rela_idx :: nat
  rodata_idx :: nat

text \<open>The body of the loop over the section headers for one index, and \<open>n\<close> rounds from \<open>idx\<close> on.\<close>

definition note_section :: "u8 list \<Rightarrow> nat \<Rightarrow> sections_t \<Rightarrow> sections_t" where
  "note_section str idx sx =
     (let sx = if str = bytes_of ''.text'' then sx\<lparr>text_idx := idx\<rparr> else sx;
          sx = if str = bytes_of ''.rela.text'' then sx\<lparr>rela_idx := idx\<rparr> else sx;
          sx = if take 8 str = bytes_of ''.rodata.'' then sx\<lparr>rodata_idx := idx\<rparr> else sx
      in if str = bytes_of ''.symtab'' then sx\<lparr>symtab_idx := idx\<rparr> else sx)"

fun find_sections :: "u8 list \<Rightarrow> elf64_ehdr_t \<Rightarrow> nat \<Rightarrow> nat \<Rightarrow> sections_t \<Rightarrow> sections_t result" where
  "find_sections buf ehdr idx 0 sx = Inr sx"
| "find_sections buf ehdr idx (Suc n) sx =
     bindE (shdr_at buf ehdr (unat (e_shstrndx ehdr))) (\<lambda>shstr_shdr.
     bindE (shdr_at buf ehdr idx) (\<lambda>shdr.
     bindE (cstring_at buf (sh_offset shstr_shdr + ucast (sh_name shdr))) (\<lambda>str.
     find_sections buf ehdr (idx + 1) n (note_section str idx sx))))"

subsection \<open>Relocations\<close>

text \<open>Four bytes of the code buffer at an address, written and read.\<close>

definition jit_index :: "cache_t \<Rightarrow> u64 \<Rightarrow> nat result" where
  "jit_index c addr =
     (if unat (addr - jitcode c) + 4 \<le> length (jitbytes c) then Inr (unat (addr - jitcode c))
      else Inl (Undefined ''jitcode''))"

definition jit_store_u32 :: "cache_t \<Rightarrow> u64 \<Rightarrow> u32 \<Rightarrow> cache_t result" where
  "jit_store_u32 c addr v =
     bindE (jit_index c addr) (\<lambda>k. Inr (c\<lparr>jitbytes := memcpy_into (jitbytes c) k (le_bytes 4 (unat v))\<rparr>))"

definition jit_load_u32 :: "cache_t \<Rightarrow> u64 \<Rightarrow> u32 result" where
  "jit_load_u32 c addr =
     bindE (jit_index c addr) (\<lambda>k. Inr (of_nat (le_val (take 4 (drop k (jitbytes c))))))"

definition apply_rela :: "u8 list \<Rightarrow> elf64_shdr_t \<Rightarrow> u64 \<Rightarrow> u64 \<Rightarrow> elf64_rela_t \<Rightarrow> cache_t \<Rightarrow> cache_t result" where
  "apply_rela buf symtab_shdr text_addr rodata_addr rel c =
     bindE (assertE ''rel->r_type == R_X86_64_PC32'' (r_type rel = R_X86_64_PC32)) (\<lambda>_.
     bindE (buf_slice buf (sh_offset symtab_shdr + ucast (r_sym rel) * of_nat sym_size) sym_size) (\<lambda>bs.
     let sym = sym_of bs;
         loc = text_addr + r_offset rel;
         S = rodata_addr + st_value sym;
         P = text_addr + r_offset rel;
         A = r_addend rel in
     bindE (jit_store_u32 c loc (ucast (S + A - P))) (\<lambda>c.
     let rip_addr = P - A in
     bindE (jit_load_u32 c loc) (\<lambda>v.
     bindE (assertE ''rip_addr + *(i32 *)loc == S'' (rip_addr + scast v = S)) (\<lambda>_. Inr c)))))"

fun apply_relas :: "u8 list \<Rightarrow> elf64_shdr_t \<Rightarrow> elf64_shdr_t \<Rightarrow> u64 \<Rightarrow> u64 \<Rightarrow> nat \<Rightarrow> nat \<Rightarrow> cache_t \<Rightarrow> cache_t result" where
  "apply_relas buf shdr symtab_shdr text_addr rodata_addr idx 0 c = Inr c"
| "apply_relas buf shdr symtab_shdr text_addr rodata_addr idx (Suc n) c =
     bindE (buf_slice buf (sh_offset shdr + of_nat idx * of_nat rela_size) rela_size) (\<lambda>bs.
     bindE (apply_rela buf symtab_shdr text_addr rodata_addr (rela_of bs) c)
       (apply_relas buf shdr symtab_shdr text_addr rodata_addr (idx + 1) n))"

subsection \<open>The whole function\<close>

text \<open>\<^verbatim>\<open>cache_add\<close> of the bytes of a section.\<close>

definition add_section :: "u8 list \<Rightarrow> elf64_shdr_t \<Rightarrow> u64 \<Rightarrow> cache_t \<Rightarrow> (u64 \<times> cache_t) result" where
  "add_section buf shdr p c =
     bindE (buf_slice buf (sh_offset shdr) (unat (sh_size shdr))) (\<lambda>code. cache_add c p code (sh_addralign shdr))"

definition link_object :: "u8 list \<Rightarrow> u64 \<Rightarrow> cache_t \<Rightarrow> (u64 \<times> cache_t) result" where
  "link_object buf p c =
     (let ehdr = ehdr_of (take ehdr_size buf) in
      bindE (assertE ''ehdr->e_shnum != 0'' (e_shnum ehdr \<noteq> 0)) (\<lambda>_.
      bindE (find_sections buf ehdr 0 (unat (e_shnum ehdr)) \<lparr>text_idx = 0, symtab_idx = 0, rela_idx = 0, rodata_idx = 0\<rparr>) (\<lambda>sx.
      bindE (assertE ''text_idx != 0 && symtab_idx != 0'' (text_idx sx \<noteq> 0 \<and> symtab_idx sx \<noteq> 0)) (\<lambda>_.
      bindE (shdr_at buf ehdr (text_idx sx)) (\<lambda>text_shdr.
      if rela_idx sx = 0 \<or> rodata_idx sx = 0 then add_section buf text_shdr p c
      else
        bindE (shdr_at buf ehdr (rodata_idx sx)) (\<lambda>shdr.
        bindE (add_section buf shdr p c) (\<lambda>(rodata_addr, c).
        bindE (add_section buf text_shdr p c) (\<lambda>(text_addr, c).
        bindE (shdr_at buf ehdr (rela_idx sx)) (\<lambda>shdr.
        bindE (shdr_at buf ehdr (symtab_idx sx)) (\<lambda>symtab_shdr.
        bindE (apply_relas buf shdr symtab_shdr text_addr rodata_addr 0 (unat (sh_size shdr) div rela_size) c) (\<lambda>c.
        Inr (text_addr, c))))))))))))"

text \<open>\<^verbatim>\<open>read\<close> overwrites the front of the buffer and leaves what an earlier, longer object left behind.\<close>

definition read_object :: "u8 list \<Rightarrow> u8 list \<Rightarrow> u8 list" where
  "read_object obj buf = memcpy_into buf 0 (take BINBUF_CAP obj)"

definition machine_compile :: "cc_t \<Rightarrow> u8 list \<Rightarrow> machine_t \<Rightarrow> string \<Rightarrow> (u64 \<times> u8 list \<times> machine_t) result" where
  "machine_compile cc elfbuf m source =
     (if \<not> cc_pipe cc then Inl (Fatal ''cannot make a pipe'')
      else if \<not> cc_popen cc then Inl (Fatal ''cannot compile program'')
      else
        let elfbuf = read_object (cc_object cc source) elfbuf in
        bindE (link_object elfbuf (pc (m_state m)) (m_cache m)) (\<lambda>(code, c).
        Inr (code, elfbuf, m\<lparr>m_cache := c\<rparr>)))"

end
