(* ===== verification/Machine.thy ===== *)
theory Machine
  imports Compile Jit
begin

unbundle bit_operations_syntax

text \<open>
  \<^verbatim>\<open>src/machine.c\<close> and the main program \<^verbatim>\<open>src/riscvemu.c\<close>: loading and starting a guest program, and the loop
  that interprets cold code, compiles hot code and runs compiled code. What the processor does when it
  is sent to a code address of the cache is the function \<open>plat_native\<close>; \<^const>\<open>None\<close> is a run that does not
  return. A function pointer is the interpreter or such an address.
\<close>

record emu_t =
  em_machine :: machine_t
  em_mem :: mem
  em_gen :: gen_t        \<comment> \<open>static variables of \<^verbatim>\<open>machine_genblock\<close>\<close>
  em_elfbuf :: "u8 list" \<comment> \<open>static buffer of \<^verbatim>\<open>machine_compile\<close>\<close>

record plat_t =
  plat_native :: "cache_t \<Rightarrow> u64 \<Rightarrow> state_t \<Rightarrow> mem \<Rightarrow> (state_t \<times> mem) result option"
  plat_cc :: cc_t

datatype exec_block_func_t = Exec_Interp | Native u64

fun call_code :: "plat_t \<Rightarrow> cache_t \<Rightarrow> exec_block_func_t \<Rightarrow> state_t \<Rightarrow> mem \<Rightarrow> (state_t \<times> mem) result option" where
  "call_code pl c Exec_Interp s m = exec_block_interp s m"
| "call_code pl c (Native a) s m = plat_native pl c a s m"

definition set_state :: "state_t \<Rightarrow> machine_t \<Rightarrow> machine_t" where
  "set_state s m = m\<lparr>m_state := s\<rparr>"

text \<open>\<^verbatim>\<open>m->state.pc = m->state.reenter_pc\<close>\<close>

definition pc_reenter :: "machine_t \<Rightarrow> machine_t" where
  "pc_reenter m = set_state ((m_state m)\<lparr>pc := reenter_pc (m_state m)\<rparr>) m"

subsection \<open>\<^verbatim>\<open>machine_step\<close>\<close>

text \<open>
  A loop whose rounds may fail or not return: a round gives the outcome of the loop
  (\<^const>\<open>None\<close> for a call that does not return) or the next state.
\<close>

definition loop :: "('s \<Rightarrow> 'r result option + 's) \<Rightarrow> 's \<Rightarrow> 'r result option" where
  "loop step s = Option.bind (drive step s) id"

text \<open>One round of the inner loop: call the block and decide what runs next.\<close>

definition inner_round :: "plat_t \<Rightarrow> exec_block_func_t \<times> machine_t \<times> mem \<Rightarrow>
    (machine_t \<times> mem) result option + exec_block_func_t \<times> machine_t \<times> mem" where
  "inner_round pl = (\<lambda>(code, m, mem).
     case call_code pl (m_cache m) code ((m_state m)\<lparr>exit_reason := none\<rparr>) mem of
       None \<Rightarrow> Inl None
     | Some (Inl e) \<Rightarrow> Inl (Some (Inl e))
     | Some (Inr (s, mem)) \<Rightarrow>
         let m = set_state s m in
         if exit_reason s = none then Inl (Some (Inl (AssertFail ''m->state.exit_reason != none'')))
         else if exit_reason s = indirect_branch \<or> exit_reason s = direct_branch then
           let m = pc_reenter m in
           (case cache_lookup (m_cache m) (reenter_pc s) of
              None \<Rightarrow> Inl None
            | Some (Inl e) \<Rightarrow> Inl (Some (Inl e))
            | Some (Inr (Some a)) \<Rightarrow> Inr (Native a, m, mem)
            | Some (Inr None) \<Rightarrow> Inl (Some (Inr (m, mem))))
         else if exit_reason s = interp then Inr (Exec_Interp, pc_reenter m, mem)
         else Inl (Some (Inr (m, mem))))"

text \<open>Finding the code for the program counter, generating and compiling it when it has just become hot.\<close>

definition find_code :: "plat_t \<Rightarrow> emu_t \<Rightarrow> (exec_block_func_t \<times> emu_t) result option" where
  "find_code pl e =
     (let m = em_machine e in
      case cache_lookup (m_cache m) (pc (m_state m)) of
        None \<Rightarrow> None
      | Some (Inl er) \<Rightarrow> Some (Inl er)
      | Some (Inr (Some a)) \<Rightarrow> Some (Inr (Native a, e))
      | Some (Inr None) \<Rightarrow>
          (case cache_hot (m_cache m) (pc (m_state m)) of
             Inl er \<Rightarrow> Some (Inl er)
           | Inr (hot, c) \<Rightarrow>
               let m = m\<lparr>m_cache := c\<rparr> in
               if hot then
                 map_option (\<lambda>r. bindE r (\<lambda>(source, g).
                     bindE (machine_compile (plat_cc pl) (em_elfbuf e) m source) (\<lambda>(a, elfbuf, m).
                     Inr (Native a, e\<lparr>em_machine := m, em_gen := g, em_elfbuf := elfbuf\<rparr>))))
                   (machine_genblock (em_mem e) (em_gen e) (pc (m_state m)))
               else Some (Inr (Exec_Interp, e\<lparr>em_machine := m\<rparr>))))"

text \<open>One round of the outer loop.\<close>

definition outer_round :: "plat_t \<Rightarrow> emu_t \<Rightarrow> (exit_reason_t \<times> emu_t) result option + emu_t" where
  "outer_round pl e =
     (if pc (m_state (em_machine e)) = 0 then Inl (Some (Inr (halt, e)))
      else case find_code pl e of
        None \<Rightarrow> Inl None
      | Some (Inl er) \<Rightarrow> Inl (Some (Inl er))
      | Some (Inr (code, e)) \<Rightarrow>
          (case loop (inner_round pl) (code, em_machine e, em_mem e) of
             None \<Rightarrow> Inl None
           | Some (Inl er) \<Rightarrow> Inl (Some (Inl er))
           | Some (Inr (m, mem)) \<Rightarrow>
               let e = e\<lparr>em_machine := pc_reenter m, em_mem := mem\<rparr> in
               (case exit_reason (m_state m) of
                  direct_branch \<Rightarrow> Inr e
                | indirect_branch \<Rightarrow> Inr e
                | ecall \<Rightarrow> Inl (Some (Inr (ecall, e)))
                | halt \<Rightarrow> Inl (Some (Inr (halt, e)))
                | _ \<Rightarrow> Inl (Some (Inl Unreachable)))))"

definition machine_step :: "plat_t \<Rightarrow> emu_t \<Rightarrow> (exit_reason_t \<times> emu_t) result option" where
  "machine_step pl = loop (outer_round pl)"

subsection \<open>Loading and starting a program\<close>

text \<open>The argument \<open>fs\<close> says what \<^verbatim>\<open>open\<close> finds under a path.\<close>

definition machine_load_program :: "kernel_t \<Rightarrow> (u8 list \<Rightarrow> u8 list option) \<Rightarrow> machine_t \<Rightarrow> mem \<Rightarrow> u8 list \<Rightarrow> (machine_t \<times> mem) result" where
  "machine_load_program k fs m mem prog =
     (case fs prog of
        None \<Rightarrow> Inl (Fatal ''strerror(errno)'')
      | Some file \<Rightarrow>
          bindE (mmu_load_elf k (m_mmu m) file mem) (\<lambda>(mmu, mem).
          let m = m\<lparr>m_mmu := mmu\<rparr> in
          Inr (set_state ((m_state m)\<lparr>pc := mmu_entry mmu\<rparr>) m, mem)))"

definition STACK_SIZE :: u64 where "STACK_SIZE = 32 * 1024 * 1024"
definition AUXV_SIZE :: u64 where "AUXV_SIZE = 8"
definition ENVP_SIZE :: u64 where "ENVP_SIZE = 8"
definition ARGV_END_SIZE :: u64 where "ARGV_END_SIZE = 8"
definition ARGC_SIZE :: u64 where "ARGC_SIZE = 8"

definition get_reg :: "i8 \<Rightarrow> machine_t \<Rightarrow> u64" where
  "get_reg r m = gp (m_state m) r"

definition set_reg :: "i8 \<Rightarrow> u64 \<Rightarrow> machine_t \<Rightarrow> machine_t" where
  "set_reg r v m = set_state (set_gp r v (m_state m)) m"

definition u64_bytes :: "u64 \<Rightarrow> u8 list" where
  "u64_bytes v = le_bytes 8 (unat v)"

text \<open>The loop over the arguments, from the last to the first: copy the string into fresh memory, push its
  address.\<close>

fun push_args :: "kernel_t \<Rightarrow> u8 list list \<Rightarrow> machine_t \<times> mem \<Rightarrow> (machine_t \<times> mem) result" where
  "push_args k [] (m, mem) = Inr (m, mem)"
| "push_args k (arg # args) (m, mem) =
     bindE (mmu_alloc k (m_mmu m) (of_nat (length arg) + 1) mem) (\<lambda>(addr, mmu, mem).
     bindE (mmu_write mem addr arg) (\<lambda>mem.
     let m = set_reg reg_sp (get_reg reg_sp m - 8) (m\<lparr>m_mmu := mmu\<rparr>) in
     bindE (mmu_write mem (get_reg reg_sp m) (u64_bytes addr)) (\<lambda>mem.
     push_args k args (m, mem))))"

definition machine_setup :: "kernel_t \<Rightarrow> u8 list list \<Rightarrow> machine_t \<Rightarrow> mem \<Rightarrow> (machine_t \<times> mem) result" where
  "machine_setup k argv m mem =
     (let stack_size = STACK_SIZE in
      bindE (mmu_alloc k (m_mmu m) stack_size mem) (\<lambda>(stack, mmu, mem).
      let m = set_reg reg_sp (stack + stack_size) (m\<lparr>m_mmu := mmu\<rparr>);
          m = set_reg reg_sp (get_reg reg_sp m - (AUXV_SIZE + ENVP_SIZE + ARGV_END_SIZE)) m;
          args = of_nat (length argv) - 1 in
      bindE (push_args k (rev (tl argv)) (m, mem)) (\<lambda>(m, mem).
      let m = set_reg reg_sp (get_reg reg_sp m - ARGC_SIZE) m in
      bindE (mmu_write mem (get_reg reg_sp m) (u64_bytes args)) (\<lambda>mem.
      let m = set_reg reg_a0 args m;
          m = set_reg reg_a1 (get_reg reg_sp m + ARGC_SIZE) m;
          sp0 = get_reg reg_sp m;
          aligned_sp = sp0 AND NOT 0xf in
      if aligned_sp \<noteq> sp0 then
        let used = (stack + stack_size) - sp0 in
        bindE (load_bytes mem (TO_HOST sp0) (unat used)) (\<lambda>bytes.
        bindE (store_bytes mem (TO_HOST aligned_sp) bytes) (\<lambda>mem.
        Inr (set_reg reg_a1 (aligned_sp + ARGC_SIZE) (set_reg reg_sp aligned_sp m), mem)))
      else Inr (m, mem)))))"

subsection \<open>The main program\<close>

definition zero_state :: state_t where
  "zero_state = \<lparr>exit_reason = none, reenter_pc = 0, gp_regs = replicate num_gp_regs 0,
     fp_regs = replicate num_fp_regs 0, pc = 0\<rparr>"

text \<open>One round of the loop of \<^verbatim>\<open>main\<close>; the outcome \<^verbatim>\<open>0\<close> is its return value.\<close>

definition main_round :: "plat_t \<Rightarrow> 'os host_t \<Rightarrow> emu_t \<times> 'os \<Rightarrow> nat result option + emu_t \<times> 'os" where
  "main_round pl host = (\<lambda>(e, os).
     case machine_step pl e of
       None \<Rightarrow> Inl None
     | Some (Inl er) \<Rightarrow> Inl (Some (Inl er))
     | Some (Inr (reason, e)) \<Rightarrow>
         if reason = halt then Inl (Some (Inr 0))
         else if reason \<noteq> ecall then Inl (Some (Inl (AssertFail ''reason == ecall'')))
         else
           (case bindE (machine_get_gp_reg (em_machine e) (uint reg_a7)) (\<lambda>syscall.
              bindE (do_syscall syscall host (em_machine e, em_mem e, os)) (\<lambda>(ret, m, mem, os).
              bindE (machine_set_gp_reg m (uint reg_a0) ret) (\<lambda>m.
              Inr (e\<lparr>em_machine := m, em_mem := mem\<rparr>, os)))) of
              Inl er \<Rightarrow> Inl (Some (Inl er))
            | Inr s \<Rightarrow> Inr s))"

definition main_program :: "plat_t \<Rightarrow> 'os host_t \<Rightarrow> (u8 list \<Rightarrow> u8 list option) \<Rightarrow> u64 \<Rightarrow> emu_t \<Rightarrow> u8 list list \<Rightarrow> 'os \<Rightarrow> nat result option" where
  "main_program pl host fs jitbuf e argv os =
     (if length argv \<le> 1 then Some (Inl (AssertFail ''argc > 1''))
      else
        let machine = \<lparr>m_state = zero_state, m_mmu = zero_mmu, m_cache = new_cache jitbuf\<rparr> in
        (case bindE (machine_load_program (h_kernel host) fs machine (em_mem e) (argv ! 1)) (\<lambda>(m, mem).
             machine_setup (h_kernel host) argv m mem) of
           Inl er \<Rightarrow> Some (Inl er)
         | Inr (m, mem) \<Rightarrow> loop (main_round pl host) (e\<lparr>em_machine := m, em_mem := mem\<rparr>, os)))"

end
