(* ===== verification/Compile_Props.thy ===== *)
theory Compile_Props
  imports Compile Syscall_Props
begin

unbundle bit_operations_syntax

text \<open>
  The small linker of \<^verbatim>\<open>src/compile.c\<close>: what a successful compilation leaves in the code cache, and that every relocation
  makes the instruction address the symbol it names.
\<close>

subsection \<open>The code buffer\<close>

lemma length_memcpy_into: "off + length code \<le> length buf \<Longrightarrow> length (memcpy_into buf off code) = length buf"
  by (simp add: memcpy_into_def)

lemma memcpy_into_same: "off + length code \<le> length buf \<Longrightarrow> take (length code) (drop off (memcpy_into buf off code)) = code"
  by (simp add: memcpy_into_def)

lemma nth_memcpy_into:
  "off + length code \<le> length buf \<Longrightarrow> i < length buf \<Longrightarrow>
   memcpy_into buf off code ! i = (if off \<le> i \<and> i < off + length code then code ! (i - off) else buf ! i)"
  by (auto simp: memcpy_into_def nth_append min_def)

lemma memcpy_into_other:
  assumes "off + length code \<le> length buf" and "k + n \<le> length buf" and "k + n \<le> off \<or> off + length code \<le> k"
  shows "take n (drop k (memcpy_into buf off code)) = take n (drop k buf)"
  using assms by (intro nth_equalityI) (auto simp: length_memcpy_into nth_memcpy_into)

lemma jit_store_Inr:
  assumes "jit_store_u32 c a v = Inr c'"
  shows "jitcode c' = jitcode c" "cache_table c' = cache_table c" "length (jitbytes c') = length (jitbytes c)"
    "jit_load_u32 c' a = Inr v"
proof -
  from assms obtain k where k: "jit_index c a = Inr k" and c': "c' = c\<lparr>jitbytes := memcpy_into (jitbytes c) k (le_bytes 4 (unat v))\<rparr>"
    by (auto simp: jit_store_u32_def bindE_eq_Inr)
  from k have b: "k + length (le_bytes 4 (unat v)) \<le> length (jitbytes c)" and "k = unat (a - jitcode c)"
    by (auto simp: jit_index_def length_le_bytes split: if_splits)
  show "jitcode c' = jitcode c" "cache_table c' = cache_table c" by (simp_all add: c')
  show l: "length (jitbytes c') = length (jitbytes c)" using length_memcpy_into [OF b] by (simp add: c')
  have "jit_index c' a = Inr k" using k l by (auto simp: jit_index_def c' split: if_splits)
  moreover have "le_val (take 4 (drop k (jitbytes c'))) = unat v"
    using memcpy_into_same [OF b] unat_u32_lt [of v] by (simp add: c' length_le_bytes le_val_bytes del: le_bytes.simps)
  ultimately show "jit_load_u32 c' a = Inr v" by (simp add: jit_load_u32_def)
qed

lemma jit_store_other:
  assumes s: "jit_store_u32 c a v = Inr c'" and i: "jit_index c b = Inr kb"
    and "unat (a - jitcode c) + 4 \<le> kb \<or> kb + 4 \<le> unat (a - jitcode c)"
  shows "jit_load_u32 c' b = jit_load_u32 c b"
proof -
  from s obtain k where k: "jit_index c a = Inr k" and c': "c' = c\<lparr>jitbytes := memcpy_into (jitbytes c) k (le_bytes 4 (unat v))\<rparr>"
    by (auto simp: jit_store_u32_def bindE_eq_Inr)
  from k have ka: "k = unat (a - jitcode c)" "k + length (le_bytes 4 (unat v)) \<le> length (jitbytes c)"
    by (auto simp: jit_index_def length_le_bytes split: if_splits)
  from i have kb: "kb + 4 \<le> length (jitbytes c)" by (auto simp: jit_index_def split: if_splits)
  from i have "jit_index c' b = Inr kb" using jit_store_Inr [OF s] by (auto simp: jit_index_def split: if_splits)
  moreover have "take 4 (drop kb (jitbytes c')) = take 4 (drop kb (jitbytes c))"
    unfolding c' using memcpy_into_other [OF ka(2) kb] assms(3) ka(1) by (simp add: length_le_bytes) metis
  ultimately show ?thesis using i by (simp add: jit_load_u32_def)
qed

subsection \<open>Relocations\<close>

text \<open>What a relocation at address \<open>P\<close> asks for: the next instruction's address, which is \<open>P - A\<close>, plus the
  displacement is the symbol.\<close>

definition resolves :: "cache_t \<Rightarrow> u64 \<Rightarrow> i64 \<Rightarrow> u64 \<Rightarrow> bool" where
  "resolves c P A S \<longleftrightarrow> (\<exists>v. jit_load_u32 c P = Inr v \<and> P - A + scast v = S)"

definition rela_at :: "u8 list \<Rightarrow> elf64_shdr_t \<Rightarrow> nat \<Rightarrow> elf64_rela_t" where
  "rela_at buf shdr idx = rela_of (take rela_size (drop (unat (sh_offset shdr + of_nat idx * of_nat rela_size)) buf))"

definition sym_at :: "u8 list \<Rightarrow> elf64_shdr_t \<Rightarrow> u32 \<Rightarrow> elf64_sym_t" where
  "sym_at buf shdr idx = sym_of (take sym_size (drop (unat (sh_offset shdr + ucast idx * of_nat sym_size)) buf))"

lemma buf_slice_Inr: "buf_slice buf off n = Inr bs \<Longrightarrow> bs = take n (drop (unat off) buf)"
  by (simp add: buf_slice_def split: if_splits)

lemma apply_rela_Inr:
  assumes "apply_rela buf sh t r rel c = Inr c'"
  shows "jitcode c' = jitcode c \<and> cache_table c' = cache_table c \<and> length (jitbytes c') = length (jitbytes c) \<and>
     resolves c' (t + r_offset rel) (r_addend rel) (r + st_value (sym_at buf sh (r_sym rel))) \<and>
     r_type rel = R_X86_64_PC32"
    "\<exists>v. jit_store_u32 c (t + r_offset rel) v = Inr c'"
proof -
  from assms obtain bs c1 v where b: "buf_slice buf (sh_offset sh + ucast (r_sym rel) * of_nat sym_size) sym_size = Inr bs"
    and st: "jit_store_u32 c (t + r_offset rel) (ucast (r + st_value (sym_of bs) + r_addend rel - (t + r_offset rel))) = Inr c1"
    and ld: "jit_load_u32 c1 (t + r_offset rel) = Inr v"
    and eq: "t + r_offset rel - r_addend rel + scast v = r + st_value (sym_of bs)" and c': "c' = c1"
    and ty: "r_type rel = R_X86_64_PC32"
    by (auto simp: apply_rela_def bindE_eq_Inr assertE_eq_Inr Let_def)
  from buf_slice_Inr [OF b] have "sym_of bs = sym_at buf sh (r_sym rel)" by (simp add: sym_at_def)
  with st ld eq ty c' jit_store_Inr [OF st] show "jitcode c' = jitcode c \<and> cache_table c' = cache_table c \<and>
      length (jitbytes c') = length (jitbytes c) \<and>
      resolves c' (t + r_offset rel) (r_addend rel) (r + st_value (sym_at buf sh (r_sym rel))) \<and> r_type rel = R_X86_64_PC32"
    "\<exists>v. jit_store_u32 c (t + r_offset rel) v = Inr c'"
    by (auto simp: resolves_def)
qed

lemma apply_relas_frame:
  "apply_relas buf shdr sh t r idx n c = Inr c' \<Longrightarrow>
   jitcode c' = jitcode c \<and> cache_table c' = cache_table c \<and> length (jitbytes c') = length (jitbytes c)"
proof (induction n arbitrary: idx c)
  case (Suc n)
  then obtain bs c1 where a: "apply_rela buf sh t r (rela_of bs) c = Inr c1"
    and n: "apply_relas buf shdr sh t r (idx + 1) n c1 = Inr c'" by (auto simp: bindE_eq_Inr)
  from apply_rela_Inr(1) [OF a] Suc.IH [OF n] show ?case by simp
qed simp

text \<open>The places of two relocations do not overlap.\<close>

definition apart :: "cache_t \<Rightarrow> u64 \<Rightarrow> u64 \<Rightarrow> bool" where
  "apart c a b \<longleftrightarrow> unat (a - jitcode c) + 4 \<le> unat (b - jitcode c) \<or> unat (b - jitcode c) + 4 \<le> unat (a - jitcode c)"

lemma resolves_later:
  assumes "jit_store_u32 c a v = Inr c'" and "resolves c P A S" and "apart c a P"
  shows "resolves c' P A S"
proof -
  from assms(2) obtain k where "jit_index c P = Inr k" by (auto simp: resolves_def jit_load_u32_def bindE_eq_Inr)
  moreover then have "k = unat (P - jitcode c)" by (simp add: jit_index_def split: if_splits)
  ultimately show ?thesis using jit_store_other [OF assms(1), of P k] assms(2,3) by (auto simp: resolves_def apart_def)
qed

lemma apply_relas_keep:
  assumes "apply_relas buf shdr sh t r idx n c = Inr c'" and "resolves c P A S"
    and "\<And>j. idx \<le> j \<Longrightarrow> j < idx + n \<Longrightarrow> apart c (t + r_offset (rela_at buf shdr j)) P"
  shows "resolves c' P A S"
  using assms
proof (induction n arbitrary: idx c)
  case (Suc n)
  then obtain bs c1 where s: "buf_slice buf (sh_offset shdr + of_nat idx * of_nat rela_size) rela_size = Inr bs"
    and a: "apply_rela buf sh t r (rela_of bs) c = Inr c1"
    and n: "apply_relas buf shdr sh t r (idx + 1) n c1 = Inr c'" by (auto simp: bindE_eq_Inr)
  from buf_slice_Inr [OF s] have "rela_of bs = rela_at buf shdr idx" by (simp add: rela_at_def)
  with a apply_rela_Inr(2) [OF a] obtain v where "jit_store_u32 c (t + r_offset (rela_at buf shdr idx)) v = Inr c1" by auto
  from resolves_later [OF this Suc.prems(2)] Suc.prems(3) [of idx] have "resolves c1 P A S" by simp
  moreover have "apart c1 x P = apart c x P" for x using apply_rela_Inr(1) [OF a] by (simp add: apart_def)
  ultimately show ?case using Suc.IH [OF n] Suc.prems(3) by simp
qed simp

lemma apply_relas_resolve:
  assumes "apply_relas buf shdr sh t r idx n c = Inr c'"
    and "\<And>i j. idx \<le> i \<Longrightarrow> i < j \<Longrightarrow> j < idx + n \<Longrightarrow>
      apart c (t + r_offset (rela_at buf shdr j)) (t + r_offset (rela_at buf shdr i))"
    and "idx \<le> k" "k < idx + n"
  shows "resolves c' (t + r_offset (rela_at buf shdr k)) (r_addend (rela_at buf shdr k))
     (r + st_value (sym_at buf sh (r_sym (rela_at buf shdr k))))"
  using assms
proof (induction n arbitrary: idx c)
  case (Suc n)
  then obtain bs c1 where s: "buf_slice buf (sh_offset shdr + of_nat idx * of_nat rela_size) rela_size = Inr bs"
    and a: "apply_rela buf sh t r (rela_of bs) c = Inr c1"
    and n: "apply_relas buf shdr sh t r (idx + 1) n c1 = Inr c'" by (auto simp: bindE_eq_Inr)
  from buf_slice_Inr [OF s] have e: "rela_of bs = rela_at buf shdr idx" by (simp add: rela_at_def)
  have ap: "apart c1 x y = apart c x y" for x y using apply_rela_Inr(1) [OF a] by (simp add: apart_def)
  show ?case
  proof (cases "k = idx")
    case True
    have "resolves c1 (t + r_offset (rela_at buf shdr k)) (r_addend (rela_at buf shdr k))
        (r + st_value (sym_at buf sh (r_sym (rela_at buf shdr k))))"
      using apply_rela_Inr(1) [OF a] True e by simp
    from apply_relas_keep [OF n this] Suc.prems(2) [of idx] True show ?thesis by (simp add: ap)
  next
    case False
    with Suc.prems Suc.IH [OF n] show ?thesis by (simp add: ap)
  qed
qed simp

subsection \<open>The cache after a compilation\<close>

abbreviation (input) heat :: "cache_t \<Rightarrow> u64 \<Rightarrow> u64" where
  "heat c k \<equiv> (case cache_view c k of None \<Rightarrow> 0 | Some (h, off) \<Rightarrow> h)"

lemma add_section_view:
  assumes "wf_cache c" "k \<noteq> 0" "add_section buf sh k c = Inr (a, c')"
  shows "wf_cache c' \<and> jitcode c' = jitcode c \<and> cache_view c' = (cache_view c)(k \<mapsto> (heat c k, a - jitcode c))"
  using assms cache_add_view [OF assms(1,2)] by (auto simp: add_section_def bindE_eq_Inr)

lemma link_object_view:
  assumes w: "wf_cache c" "k \<noteq> 0" and l: "link_object buf k c = Inr (a, c')"
  shows "wf_cache c' \<and> jitcode c' = jitcode c \<and> cache_view c' = (cache_view c)(k \<mapsto> (heat c k, a - jitcode c))"
proof -
  from l obtain text_shdr where "add_section buf text_shdr k c = Inr (a, c') \<or>
      (\<exists>shdr r c1 c2 shdr' sy n. add_section buf shdr k c = Inr (r, c1) \<and> add_section buf text_shdr k c1 = Inr (a, c2) \<and>
        apply_relas buf shdr' sy a r 0 n c2 = Inr c')"
    by (auto simp: link_object_def Let_def bindE_eq_Inr assertE_eq_Inr split: if_splits) blast+
  then show ?thesis
  proof (elim disjE exE conjE)
    fix shdr r c1 c2 shdr' sy n
    assume a1: "add_section buf shdr k c = Inr (r, c1)" and a2: "add_section buf text_shdr k c1 = Inr (a, c2)"
      and re: "apply_relas buf shdr' sy a r 0 n c2 = Inr c'"
    from add_section_view [OF w a1] add_section_view [OF _ w(2) a2]
    have "wf_cache c2 \<and> jitcode c2 = jitcode c \<and> cache_view c2 = (cache_view c)(k \<mapsto> (heat c k, a - jitcode c))" by auto
    with apply_relas_frame [OF re] wf_cache_cong [of c' c2] cache_view_cong [of c' c2] show ?thesis by simp
  qed (rule add_section_view [OF w])
qed

lemma machine_compile_Inr:
  assumes "machine_compile cc buf m src = Inr (a, buf', m')"
  shows "m' = m\<lparr>m_cache := m_cache m'\<rparr>" "link_object buf' (pc (m_state m)) (m_cache m) = Inr (a, m_cache m')"
    "buf' = read_object (cc_object cc src) buf"
  using assms by (auto simp: machine_compile_def Let_def bindE_eq_Inr split: if_splits)

subsection \<open>Properties of the compiler driver\<close>

text \<open>
  C14. After a successful compilation for a hot program counter the cache finds the returned code
  for it, also when read-only data was stored under the same key first; lookups of other program
  counters in the table do not change, and nothing but the cache does.
\<close>
theorem compile_lookup:
  "wf_cache (m_cache m) \<Longrightarrow> pc (m_state m) \<noteq> 0 \<Longrightarrow> cache_view (m_cache m) (pc (m_state m)) = Some (h, off) \<Longrightarrow>
   CACHE_HOT_COUNT \<le> h \<Longrightarrow> machine_compile cc buf m src = Inr (a, buf', m') \<Longrightarrow>
   wf_cache (m_cache m') \<and> cache_lookup (m_cache m') (pc (m_state m)) = Some (Inr (Some a)) \<and>
   (\<forall>q e. q \<noteq> pc (m_state m) \<longrightarrow> cache_view (m_cache m) q = Some e \<longrightarrow>
     cache_lookup (m_cache m') q = cache_lookup (m_cache m) q) \<and>
   m_state m' = m_state m \<and> m_mmu m' = m_mmu m"
proof -
  assume w: "wf_cache (m_cache m)" "pc (m_state m) \<noteq> 0" and v: "cache_view (m_cache m) (pc (m_state m)) = Some (h, off)"
    and hot: "CACHE_HOT_COUNT \<le> h" and c: "machine_compile cc buf m src = Inr (a, buf', m')"
  let ?k = "pc (m_state m)" and ?c = "m_cache m" and ?c' = "m_cache m'"
  from link_object_view [OF w machine_compile_Inr(2) [OF c]] v
  have c': "wf_cache ?c'" "jitcode ?c' = jitcode ?c" "cache_view ?c' = (cache_view ?c)(?k \<mapsto> (h, a - jitcode ?c))" by simp_all
  then have "cache_lookup ?c' ?k = Some (Inr (Some a))"
    using ccache.lookup_hit [of ?c' ?k h "a - jitcode ?c"] hot by simp
  moreover have "cache_lookup ?c' q = cache_lookup ?c q" if "q \<noteq> ?k" "cache_view ?c q = Some e" for q e
    using that c' ccache.lookup_hit [of ?c' q "fst e" "snd e"] ccache.lookup_hit [of ?c q "fst e" "snd e"] w(1) by simp
  moreover have "m_state m' = m_state m" "m_mmu m' = m_mmu m"
    using machine_compile_Inr(1) [OF c] by (metis machine_t.select_convs machine_t.surjective machine_t.update_convs(3))+
  ultimately show ?thesis using c'(1) by blast
qed


text \<open>One relocation of the bytes 2 to 5 of the code against a symbol 8 bytes into the read-only data.\<close>

definition demo_relas :: "u8 list" where
  "demo_relas = [2, 0, 0, 0, 0, 0, 0, 0, 2, 0, 0, 0, 0, 0, 0, 0, 0xfc, 0xff, 0xff, 0xff, 0xff, 0xff, 0xff, 0xff,
     0, 0, 0, 0, 0, 0, 0, 0, 8, 0, 0, 0, 0, 0, 0, 0, 0, 0, 0, 0, 0, 0, 0, 0]"

definition demo_shdr :: "u64 \<Rightarrow> elf64_shdr_t" where
  "demo_shdr off = \<lparr>sh_name = 0, sh_type = 0, sh_flags = 0, sh_addr = 0, sh_offset = off, sh_size = 24, sh_link = 0,
     sh_info = 0, sh_addralign = 1, sh_entsize = 24\<rparr>"

definition demo_jit :: "u8 list \<Rightarrow> cache_t" where
  "demo_jit bs = \<lparr>jitcode = 0x1000, jitbytes = bs, cache_offset = 0, cache_table = []\<rparr>"

lemma demo_rela: "rela_at demo_relas (demo_shdr 0) 0 = \<lparr>r_offset = 2, r_type = 2, r_sym = 0, r_addend = - 4\<rparr>"
  "st_value (sym_at demo_relas (demo_shdr 24) 0) = 8"
  unfolding demo_relas_def by (simp_all add: rela_at_def sym_at_def demo_shdr_def rela_of_def sym_of_def field_def)

lemma demo_le_bytes: "le_bytes 4 4098 = [2, 0x10, 0, 0]"
proof -
  have "le_bytes (Suc (Suc (Suc (Suc 0)))) 4098 = [2, 0x10, 0, 0]" by simp
  moreover have "4 = Suc (Suc (Suc (Suc 0)))" by simp
  ultimately show ?thesis by (simp only:)
qed

lemma demo_relocated:
  "apply_relas demo_relas (demo_shdr 0) (demo_shdr 24) 0x1000 0x2000 0 1 (demo_jit [0, 0, 0, 0, 0, 0, 0, 0]) =
     Inr (demo_jit [0, 0, 2, 0x10, 0, 0, 0, 0])"
proof -
  have s: "buf_slice demo_relas (sh_offset (demo_shdr 0) + of_nat 0 * of_nat rela_size) rela_size = Inr (take 24 demo_relas)"
    "buf_slice demo_relas (sh_offset (demo_shdr 24) + ucast (0 :: u32) * of_nat sym_size) sym_size = Inr (drop 24 demo_relas)"
    by (simp_all add: buf_slice_def demo_relas_def demo_shdr_def)
  have d: "rela_of (take 24 demo_relas) = \<lparr>r_offset = 2, r_type = 2, r_sym = 0, r_addend = - 4\<rparr>"
    "st_value (sym_of (drop 24 demo_relas)) = 8"
    using demo_rela by (simp_all add: rela_at_def sym_at_def demo_shdr_def demo_relas_def)
  have j: "jit_store_u32 (demo_jit [0, 0, 0, 0, 0, 0, 0, 0]) 0x1002 0x1002 = Inr (demo_jit [0, 0, 2, 0x10, 0, 0, 0, 0])"
    "jit_load_u32 (demo_jit [0, 0, 2, 0x10, 0, 0, 0, 0]) 0x1002 = Inr 0x1002"
    by (simp_all add: jit_store_u32_def jit_load_u32_def jit_index_def demo_jit_def memcpy_into_def demo_le_bytes del: le_bytes.simps)
  show ?thesis
    using s d j by (simp add: apply_rela_def R_X86_64_PC32_def Let_def One_nat_def del: le_bytes.simps)
qed


text \<open>An object file with a section \<^verbatim>\<open>.text\<close> of one byte and a section \<^verbatim>\<open>.symtab\<close>; the first section header stands
  for the names.\<close>

definition demo_ehdr :: "u8 list" where
  "demo_ehdr = [0, 0, 0, 0, 0, 0, 0, 0, 0, 0, 0, 0, 0, 0, 0, 0, 0, 0, 0, 0, 0, 0, 0, 0, 0, 0, 0, 0, 0, 0, 0, 0, 0, 0, 0, 0, 0, 0, 0, 0, 64, 0, 0, 0, 0, 0, 0, 0, 0, 0, 0, 0, 0, 0, 0, 0, 0, 0, 0, 0, 3, 0, 0, 0]"

definition demo_sh0 :: "u8 list" where
  "demo_sh0 = [0, 0, 0, 0, 0, 0, 0, 0, 0, 0, 0, 0, 0, 0, 0, 0, 0, 0, 0, 0, 0, 0, 0, 0, 0, 1, 0, 0, 0, 0, 0, 0, 0, 0, 0, 0, 0, 0, 0, 0, 0, 0, 0, 0, 0, 0, 0, 0, 0, 0, 0, 0, 0, 0, 0, 0, 0, 0, 0, 0, 0, 0, 0, 0]"

definition demo_sh1 :: "u8 list" where
  "demo_sh1 = [1, 0, 0, 0, 0, 0, 0, 0, 0, 0, 0, 0, 0, 0, 0, 0, 0, 0, 0, 0, 0, 0, 0, 0, 15, 1, 0, 0, 0, 0, 0, 0, 1, 0, 0, 0, 0, 0, 0, 0, 0, 0, 0, 0, 0, 0, 0, 0, 16, 0, 0, 0, 0, 0, 0, 0, 0, 0, 0, 0, 0, 0, 0, 0]"

definition demo_sh2 :: "u8 list" where
  "demo_sh2 = [7, 0, 0, 0, 0, 0, 0, 0, 0, 0, 0, 0, 0, 0, 0, 0, 0, 0, 0, 0, 0, 0, 0, 0, 0, 0, 0, 0, 0, 0, 0, 0, 0, 0, 0, 0, 0, 0, 0, 0, 0, 0, 0, 0, 0, 0, 0, 0, 0, 0, 0, 0, 0, 0, 0, 0, 0, 0, 0, 0, 0, 0, 0, 0]"

definition demo_strs :: "u8 list" where
  "demo_strs = [0, 46, 116, 101, 120, 116, 0, 46, 115, 121, 109, 116, 97, 98, 0]"

definition demo_obj :: "u8 list" where
  "demo_obj = demo_ehdr @ demo_sh0 @ demo_sh1 @ demo_sh2 @ demo_strs @ [0xc3]"

lemma demo_obj_lengths: "length demo_ehdr = 64" "length demo_sh0 = 64" "length demo_sh1 = 64" "length demo_sh2 = 64"
  "length demo_strs = 15"
  by (simp_all add: demo_ehdr_def demo_sh0_def demo_sh1_def demo_sh2_def demo_strs_def)

lemma demo_obj_ehdr: "e_shoff (ehdr_of (take 64 demo_obj)) = 64" "e_shnum (ehdr_of (take 64 demo_obj)) = 3"
  "e_shstrndx (ehdr_of (take 64 demo_obj)) = 0"
  by (simp_all add: demo_obj_def demo_obj_lengths) (simp_all add: demo_ehdr_def ehdr_of_def field_def)

lemma demo_obj_shdrs:
  "shdr_at demo_obj (ehdr_of (take 64 demo_obj)) 0 = Inr (shdr_of demo_sh0)"
  "shdr_at demo_obj (ehdr_of (take 64 demo_obj)) 1 = Inr (shdr_of demo_sh1)"
  "shdr_at demo_obj (ehdr_of (take 64 demo_obj)) 2 = Inr (shdr_of demo_sh2)"
  by (simp_all add: shdr_at_def demo_obj_ehdr buf_slice_def) (simp_all add: demo_obj_def demo_obj_lengths)

lemma demo_obj_fields:
  "sh_offset (shdr_of demo_sh0) = 256" "sh_name (shdr_of demo_sh0) = 0" "sh_name (shdr_of demo_sh1) = 1"
  "sh_name (shdr_of demo_sh2) = 7" "sh_offset (shdr_of demo_sh1) = 271" "sh_size (shdr_of demo_sh1) = 1"
  "sh_addralign (shdr_of demo_sh1) = 16"
  by (simp_all add: shdr_of_def demo_sh0_def demo_sh1_def demo_sh2_def field_def)

lemma demo_obj_strs:
  "cstring_at demo_obj 256 = Inr []" "cstring_at demo_obj 257 = Inr (bytes_of ''.text'')"
  "cstring_at demo_obj 263 = Inr (bytes_of ''.symtab'')"
  by (simp_all add: cstring_at_def demo_obj_def demo_obj_lengths) (simp_all add: demo_strs_def bytes_of_def)

lemma demo_obj_sections:
  "find_sections demo_obj (ehdr_of (take 64 demo_obj)) 0 3 \<lparr>text_idx = 0, symtab_idx = 0, rela_idx = 0, rodata_idx = 0\<rparr> =
     Inr \<lparr>text_idx = 1, symtab_idx = 2, rela_idx = 0, rodata_idx = 0\<rparr>"
proof -
  have three: "3 = Suc (Suc (Suc 0))" by simp
  show ?thesis
    by (simp only: three find_sections.simps)
      (simp add: demo_obj_ehdr demo_obj_shdrs demo_obj_fields demo_obj_strs note_section_def bytes_of_def del: One_nat_def)
qed

lemma demo_obj_linked: "link_object demo_obj k c = cache_add c k [0xc3] 16"
proof -
  have "buf_slice demo_obj 271 1 = Inr [0xc3]"
    by (simp add: buf_slice_def demo_obj_def demo_obj_lengths del: One_nat_def)
  then have "add_section demo_obj (shdr_of demo_sh1) k c = cache_add c k [0xc3] 16"
    by (simp add: add_section_def demo_obj_fields del: One_nat_def)
  then show ?thesis
    by (simp add: link_object_def Let_def demo_obj_ehdr demo_obj_sections demo_obj_shdrs del: One_nat_def)
qed

definition demo_hot_machine :: machine_t where
  "demo_hot_machine = (demo_machine 0 0)\<lparr>m_cache := demo_cache CACHE_HOT_COUNT, m_state := (m_state (demo_machine 0 0))\<lparr>pc := 4096\<rparr>\<rparr>"

definition demo_cc :: cc_t where
  "demo_cc = \<lparr>cc_pipe = True, cc_popen = True, cc_object = \<lambda>_. demo_obj\<rparr>"

lemma compile_lookup_witness:
  "\<exists>a buf' m'. machine_compile demo_cc [] demo_hot_machine ''int x;'' = Inr (a, buf', m') \<and>
     cache_lookup (m_cache m') 4096 = Some (Inr (Some a))"
proof -
  let ?m = demo_hot_machine
  have m: "pc (m_state ?m) = 4096" "m_cache ?m = demo_cache CACHE_HOT_COUNT" by (simp_all add: demo_hot_machine_def)
  have "read_object demo_obj [] = demo_obj"
    by (simp add: read_object_def memcpy_into_def BINBUF_CAP_def demo_obj_def demo_obj_lengths)
  moreover obtain p c' where "cache_add (demo_cache CACHE_HOT_COUNT) 4096 [0xc3] 16 = Inr (p, c')"
    using demo_cache_add by blast
  ultimately have c: "machine_compile demo_cc [] ?m ''int x;'' = Inr (p, demo_obj, ?m\<lparr>m_cache := c'\<rparr>)"
    by (simp add: machine_compile_def demo_cc_def Let_def m demo_obj_linked)
  from compile_lookup [of ?m CACHE_HOT_COUNT 0, OF _ _ _ _ c] c show ?thesis
    by (simp add: m demo_cache_wf)
qed

end
