(* ===== verification/Machine_Sim.thy ===== *)
theory Machine_Sim
  imports Guest Machine Compile_Props
begin

unbundle bit_operations_syntax

text \<open>
  Interpreted and compiled execution together: \<^verbatim>\<open>machine_step\<close>, with its cache, heat counts, code generation and
  compilation, takes the guest where \<open>guest_round\<close> alone takes it. What is asked of the guest is that its code
  stays in place; what is asked of the C compiler and the processor is that compiled code behaves as its source.
\<close>

subsection \<open>The text of the guest\<close>

text \<open>
  \<open>R\<close> holds the addresses of the guest's instructions: no page of them may be written, direct control
  flow stays among them, and none of them divides into \<^verbatim>\<open>x0\<close> with a narrow division.
\<close>

definition flow_closed :: "u64 set \<Rightarrow> mem \<Rightarrow> bool" where
  "flow_closed R m \<longleftrightarrow> (\<forall>p\<in>R. \<forall>T ss. block_ok m T p ss \<longrightarrow> targets ss \<subseteq> R)"

definition guest_text :: "u64 set \<Rightarrow> mem \<Rightarrow> bool" where
  "guest_text R m \<longleftrightarrow> (\<forall>p\<in>R. x0_safe m p) \<and> flow_closed R m"

definition text_kept :: "u64 set \<Rightarrow> mem \<Rightarrow> mem \<Rightarrow> bool" where
  "text_kept R m0 m \<longleftrightarrow> (\<forall>p\<in>R. protected m p \<and> fetch m p = fetch m0 p)"

definition stays_in :: "u64 set \<Rightarrow> state_t \<times> mem \<Rightarrow> bool" where
  "stays_in R x \<longleftrightarrow> (\<forall>y. guest_reach x y \<longrightarrow> pc (fst y) = 0 \<or> pc (fst y) \<in> R)"

lemma block_ok_fetch: "fetch m p = fetch m' p \<Longrightarrow> block_ok m T p ss = block_ok m' T p ss"
  by (simp add: block_ok_def)

lemma x0_safe_fetch: "fetch m p = fetch m' p \<Longrightarrow> x0_safe m p = x0_safe m' p"
  by (simp add: x0_safe_def)

lemma flow_closed_kept: "text_kept R m0 m \<Longrightarrow> flow_closed R m0 \<Longrightarrow> flow_closed R m"
  unfolding flow_closed_def text_kept_def using block_ok_fetch by blast

text \<open>Code generation for an instruction of \<open>R\<close> visits only \<open>R\<close>.\<close>

definition gen_within :: "u64 set \<Rightarrow> gen_t \<Rightarrow> bool" where
  "gen_within R g \<longleftrightarrow> visited g \<subseteq> R \<and> set (stack_list (gb_stack g)) \<subseteq> R"

lemma round_within:
  assumes cl: "flow_closed R m" and inv: "gen_inv m p0 g" and R: "gen_within R g" and r: "genblock_round m g = Inr g'"
  shows "gen_within R g'"
proof -
  from r obtain p st where pop: "stack_pop (gb_stack g) = Some (p, st)"
    and v: "genblock_visit m (g\<lparr>gb_stack := st\<rparr>) p = Inr g'"
    by (auto simp: genblock_round_def split: option.splits sum.splits)
  from inv have w: "wf_set (gb_set g)" "wf_stack (gb_stack g)" "wf_tracer (gb_tracer g)" by (auto simp: gen_inv_def)
  note st = wstack.pop_Some [OF w(2) pop] wstack.pop_inv [OF w(2) pop]
  from R st(1) have p: "p \<in> R" and sub: "set (stack_list st) \<subseteq> R" by (auto simp: gen_within_def)
  show ?thesis
  proof (cases "p \<in> visited g")
    case True
    with v w(1) have "g' = g\<lparr>gb_stack := st\<rparr>" by (simp add: genblock_visit_def hset.add_present)
    with R sub show ?thesis by (simp add: gen_within_def)
  next
    case False
    have "\<exists>ss. block_ok m (gb_tracer g') p ss \<and> set (stack_list (gb_stack g')) = set (stack_list st) \<union> targets ss \<and>
        visited g' = insert p (visited g)"
      by (rule visit_new [OF _ _ _ _ v]) (use w st(2) False in auto)
    then obtain ss where n: "block_ok m (gb_tracer g') p ss"
      "set (stack_list (gb_stack g')) = set (stack_list st) \<union> targets ss" "visited g' = insert p (visited g)" by blast
    from cl p n(1) have "targets ss \<subseteq> R" unfolding flow_closed_def by blast
    with n(2,3) R p sub show ?thesis by (simp add: gen_within_def)
  qed
qed

lemma genblock_within:
  assumes w: "wf_stack (gb_stack statics)" and g: "genblock_blocks m statics p = Some (Inr g)"
    and "flow_closed R m" "p \<in> R"
  shows "visited g \<subseteq> R" "wf_stack (gb_stack g)"
proof -
  from g obtain g0 where g0: "genblock_start statics p = Inr g0" and run: "drive (genblock_round m) g0 = Some (Inr g)"
    by (auto simp: genblock_blocks_def genblock_loop_def split: sum.splits)
  let ?I = "\<lambda>g. gen_inv m p g \<and> gen_within R g"
  from g0 obtain st where st: "stack_push (stack_reset (gb_stack statics)) p = Inr st"
    and g0_eq: "g0 = statics\<lparr>gb_body := [], gb_stack := st, gb_set := set_reset (gb_set statics), gb_tracer := tracer_reset\<rparr>"
    by (auto simp: genblock_start_def bindE_eq_Inr)
  have "gen_within R g0"
    using wstack.push_elems [OF wf_stack_reset [OF w] st] assms(4) by (simp add: gen_within_def g0_eq)
  then have "?I g0" using gen_inv_start [OF w g0] by blast
  from drive_invariant [of _ _ _ ?I, OF run this] round_inv [of m p] round_within [OF assms(3)]
  obtain g1 where g1: "?I g1" "genblock_round m g1 = Inl (Inr g)" by blast
  from g1(2) have "g1 = g"
    by (auto simp: genblock_round_def split: option.splits sum.splits prod.splits)
  with g1(1) show "visited g \<subseteq> R" "wf_stack (gb_stack g)" by (auto simp: gen_within_def gen_inv_def)
qed

subsection \<open>What rounds of the guest keep\<close>

definition guest_ok :: "u64 set \<Rightarrow> mem \<Rightarrow> state_t \<Rightarrow> mem \<Rightarrow> bool" where
  "guest_ok R m0 s m \<longleftrightarrow> wf_state s \<and> gp s 0 = 0 \<and> text_kept R m0 m"

lemma guest_ok_fields [simp]:
  "guest_ok R m0 (bare s) m = guest_ok R m0 s m" "guest_ok R m0 (s\<lparr>pc := p\<rparr>) m = guest_ok R m0 s m"
  "guest_ok R m0 (s\<lparr>exit_reason := r\<rparr>) m = guest_ok R m0 s m" "guest_ok R m0 (s\<lparr>reenter_pc := p\<rparr>) m = guest_ok R m0 s m"
  by (simp_all add: guest_ok_def gp_def)

lemma guest_ok_resume [simp]: "guest_ok R m0 (resume s) m = guest_ok R m0 s m"
  unfolding resume_def guest_ok_fields ..

lemma interp_step_ok:
  assumes "interp_step s m = Inr (stop, s1, m1)" and "guest_ok R m0 s m"
  shows "guest_ok R m0 s1 m1"
  using assms(2) interp_step_inv [OF assms(1)] protected_step [OF assms(1)]
  by (auto simp: guest_ok_def text_kept_def)

lemma guest_round_ok:
  assumes "guest_ok R m0 (fst x) (snd x)"
  shows "guest_round x = Inr y \<Longrightarrow> guest_ok R m0 (fst y) (snd y)"
    "guest_round x = Inl (Inr (r, s, m)) \<Longrightarrow> guest_ok R m0 s m"
  using assms interp_step_ok [of "fst x" "snd x"]
  by (cases x; auto simp: guest_round_def split: sum.splits prod.splits if_splits)+

lemma guest_reach_ok: "guest_reach x y \<Longrightarrow> guest_ok R m0 (fst x) (snd x) \<Longrightarrow> guest_ok R m0 (fst y) (snd y)"
  unfolding guest_reach_def by (induction rule: rtranclp_induct) (auto dest: guest_round_ok(1))

lemma lands_ok:
  assumes "lands (bare s, m) s1 m1" and "guest_ok R m0 s m"
  shows "guest_ok R m0 s1 m1"
proof -
  have x: "guest_ok R m0 (fst y) (snd y)" if "guest_reach (bare s, m) y" for y
    using guest_reach_ok [OF that, of R m0] assms(2) by simp
  have "guest_ok R m0 (resume s1) m1"
  proof (cases "exit_reason s1 = ecall \<or> exit_reason s1 = halt")
    case True
    with assms(1) obtain y where "guest_reach (bare s, m) y" "guest_round y = Inl (Inr (exit_reason s1, resume s1, m1))"
      unfolding lands_def by (simp only: if_True) blast
    with guest_round_ok(2) [OF x] show ?thesis by blast
  next
    case False
    with assms(1) have "guest_reach (bare s, m) (resume s1, m1)" unfolding lands_def by (simp only: if_False)
    from x [OF this] show ?thesis by simp
  qed
  then show ?thesis by simp
qed

subsection \<open>The cache\<close>

definition cached :: "cache_t \<Rightarrow> u64 \<Rightarrow> u64 \<Rightarrow> bool" where
  "cached c p a \<longleftrightarrow> (\<exists>h off. cache_view c p = Some (h, off) \<and> CACHE_HOT_COUNT \<le> h \<and> a = jitcode c + off)"

lemma lookup_cached:
  assumes "wf_cache c" and "cache_lookup c p = Some (Inr (Some a))"
  shows "cached c p a"
proof (cases "cache_view c p")
  case None
  from assms(2) have "p \<noteq> 0" by (auto simp: cache_lookup_def)
  from ccache.lookup_miss [OF assms(1) this None assms(2)] show ?thesis by simp
next
  case (Some e)
  obtain h off where e: "cache_view c p = Some (h, off)" using Some by (cases e) simp
  from ccache.lookup_hit [OF assms(1) e] assms(2) e show ?thesis
    by (simp add: cached_def split: if_splits)
qed

lemma hot_view:
  assumes w: "wf_cache c" "k \<noteq> 0" and h: "cache_hot c k = Inr (b, c')"
  obtains n off where "wf_cache c'" "jitcode c' = jitcode c" "jitbytes c' = jitbytes c"
    "cache_view c' = (cache_view c)(k \<mapsto> (n, off))" "b \<longleftrightarrow> CACHE_HOT_COUNT \<le> n"
proof -
  have bytes: "jitbytes c' = jitbytes c"
    using h by (auto simp: cache_hot_def bindE_eq_Inr Let_def split: if_splits)
  show ?thesis
  proof (cases "cache_view c k")
    case None
    from ccache.hot_miss [OF w None h] have "\<not> b" "wf_cache c'" "jitcode c' = jitcode c" "cache_view c' = (cache_view c)(k \<mapsto> (1, 0))"
      by simp_all
    moreover have "\<not> CACHE_HOT_COUNT \<le> 1" by (simp add: CACHE_HOT_COUNT_def word_le_nat_alt)
    ultimately show ?thesis using bytes by (intro that) simp_all
  next
    case (Some e)
    obtain n off where e: "cache_view c k = Some (n, off)" using Some by (cases e) simp
    from ccache.hot_hit [OF w(1) e] h have "b = (CACHE_HOT_COUNT \<le> hot_bump n)" "wf_cache c'" "jitcode c' = jitcode c"
      "cache_view c' = (cache_view c)(k \<mapsto> (hot_bump n, off))" by auto
    with bytes show ?thesis by (intro that) simp_all
  qed
qed

subsection \<open>Compiled code\<close>

text \<open>The code at \<open>a\<close> does what the generated function does, from \<open>p\<close> and with the guest's text in place.\<close>

definition runs_source :: "plat_t \<Rightarrow> u64 set \<Rightarrow> mem \<Rightarrow> cache_t \<Rightarrow> u64 \<Rightarrow> u64 \<Rightarrow> gen_t \<Rightarrow> bool" where
  "runs_source pl R m0 c a p g \<longleftrightarrow> (\<forall>s m. pc s = p \<longrightarrow> guest_ok R m0 s m \<longrightarrow> plat_native pl c a s m = jit_call g s m)"

text \<open>
  What \<^verbatim>\<open>machine_step\<close> relies on outside the program: the processor runs what is in the code buffer, and
  compiling a generated source leaves code that behaves as the source, next to the code that was there.
\<close>

definition faithful :: "plat_t \<Rightarrow> u64 set \<Rightarrow> mem \<Rightarrow> bool" where
  "faithful pl R m0 \<longleftrightarrow>
     (\<forall>c c'. jitcode c' = jitcode c \<longrightarrow> jitbytes c' = jitbytes c \<longrightarrow> plat_native pl c' = plat_native pl c) \<and>
     (\<forall>mem statics src g buf m a buf' m'.
        wf_stack (gb_stack statics) \<longrightarrow> text_kept R m0 mem \<longrightarrow> pc (m_state m) \<in> R \<longrightarrow>
        machine_genblock mem statics (pc (m_state m)) = Some (Inr (src, g)) \<longrightarrow>
        machine_compile (plat_cc pl) buf m src = Inr (a, buf', m') \<longrightarrow>
        runs_source pl R m0 (m_cache m') a (pc (m_state m)) g \<and>
        (\<forall>q b. q \<noteq> pc (m_state m) \<longrightarrow> cached (m_cache m) q b \<longrightarrow> plat_native pl (m_cache m') b = plat_native pl (m_cache m) b))"

lemma faithful_native:
  "faithful pl R m0 \<Longrightarrow> jitcode c' = jitcode c \<Longrightarrow> jitbytes c' = jitbytes c \<Longrightarrow> plat_native pl c' = plat_native pl c"
  unfolding faithful_def by blast

lemma faithful_compile:
  assumes "faithful pl R m0" "wf_stack (gb_stack statics)" "text_kept R m0 mem" "pc (m_state m) \<in> R"
    "machine_genblock mem statics (pc (m_state m)) = Some (Inr (src, g))" "machine_compile (plat_cc pl) buf m src = Inr (a, buf', m')"
  shows "runs_source pl R m0 (m_cache m') a (pc (m_state m)) g"
    "q \<noteq> pc (m_state m) \<Longrightarrow> cached (m_cache m) q b \<Longrightarrow> plat_native pl (m_cache m') b = plat_native pl (m_cache m) b"
  using assms unfolding faithful_def by blast+

definition code_ok :: "plat_t \<Rightarrow> u64 set \<Rightarrow> mem \<Rightarrow> cache_t \<Rightarrow> u64 \<Rightarrow> u64 \<Rightarrow> bool" where
  "code_ok pl R m0 c p a \<longleftrightarrow> (\<exists>m1 statics g. wf_stack (gb_stack statics) \<and> genblock_blocks m1 statics p = Some (Inr g) \<and>
     visited g \<subseteq> R \<and> (\<forall>q\<in>R. fetch m1 q = fetch m0 q) \<and> runs_source pl R m0 c a p g)"

definition cache_ok :: "plat_t \<Rightarrow> u64 set \<Rightarrow> mem \<Rightarrow> cache_t \<Rightarrow> bool" where
  "cache_ok pl R m0 c \<longleftrightarrow> wf_cache c \<and> (\<forall>p a. cached c p a \<longrightarrow> code_ok pl R m0 c p a)"

lemma code_ok_same: "plat_native pl c' a = plat_native pl c a \<Longrightarrow> code_ok pl R m0 c' p a = code_ok pl R m0 c p a"
  by (simp add: code_ok_def runs_source_def)

lemma lands_pc [simp]: "lands x (s\<lparr>pc := p\<rparr>) m = lands x s m"
  by (simp add: lands_def resume_def)

lemma native_eq:
  assumes gt: "guest_text R m0" and code: "code_ok pl R m0 c (pc s) a" and ok: "guest_ok R m0 s m"
  shows "plat_native pl c a s m = map_option (\<lambda>r. bindE r (\<lambda>(s1, m1). Inr (s1\<lparr>pc := pc s\<rparr>, m1))) (drive hot_step (s, m))"
proof -
  from code obtain mg st g where g: "wf_stack (gb_stack st)" "genblock_blocks mg st (pc s) = Some (Inr g)" "visited g \<subseteq> R"
    and f: "\<forall>q\<in>R. fetch mg q = fetch m0 q" and run: "runs_source pl R m0 c a (pc s) g" by (auto simp: code_ok_def)
  have "\<forall>p\<in>visited g. protected m p \<and> fetch m p = fetch mg p \<and> x0_safe mg p"
    using g(3) f ok gt x0_safe_fetch [of mg _ m0] by (auto simp: guest_ok_def text_kept_def guest_text_def)
  from jit_call_eq [OF g(1,2) _ _ this] run ok show ?thesis
    by (simp add: guest_ok_def runs_source_def)
qed

lemma native_Inr:
  assumes "guest_text R m0" "code_ok pl R m0 c (pc s) a" "guest_ok R m0 s m" and r: "plat_native pl c a s m = Some (Inr (s1, m1))"
  obtains s2 where "drive hot_step (s, m) = Some (Inr (s2, m1))" "s1 = s2\<lparr>pc := pc s\<rparr>"
proof -
  from r have "map_option (\<lambda>r. bindE r (\<lambda>(s1, m1). Inr (s1\<lparr>pc := pc s\<rparr>, m1))) (drive hot_step (s, m)) = Some (Inr (s1, m1))"
    by (simp only: native_eq [OF assms(1-3)])
  then show thesis by (auto simp: bindE_eq_Inr intro: that)
qed

lemma native_lands:
  assumes "guest_text R m0" "code_ok pl R m0 c (pc s) a" "guest_ok R m0 s m" "plat_native pl c a s m = Some (Inr (s1, m1))"
  shows "lands (bare s, m) s1 m1"
  using assms by (rule native_Inr) (use hot_lands [of "(s, m)"] in simp)

subsection \<open>The inner loop\<close>

definition code_for :: "exec_block_func_t \<Rightarrow> machine_t \<Rightarrow> bool" where
  "code_for code m \<longleftrightarrow> (case code of Exec_Interp \<Rightarrow> True | Native a \<Rightarrow> cached (m_cache m) (pc (m_state m)) a)"

lemma call_lands:
  assumes "guest_text R m0" "cache_ok pl R m0 (m_cache m)" "guest_ok R m0 (m_state m) mem" "code_for code m"
    and r: "call_code pl (m_cache m) code ((m_state m)\<lparr>exit_reason := none\<rparr>) mem = Some (Inr (s1, m1))"
  shows "lands (bare (m_state m), mem) s1 m1"
proof (cases code)
  case Exec_Interp
  with r block_lands [of "(m_state m)\<lparr>exit_reason := none\<rparr>" mem s1 m1] show ?thesis by simp
next
  case (Native a)
  with assms have "code_ok pl R m0 (m_cache m) (pc ((m_state m)\<lparr>exit_reason := none\<rparr>)) a"
    by (simp add: cache_ok_def code_for_def)
  from native_lands [OF assms(1) this] r Native assms(3) show ?thesis by simp
qed

definition inner_ok :: "plat_t \<Rightarrow> u64 set \<Rightarrow> mem \<Rightarrow> state_t \<times> mem \<Rightarrow> cache_t \<Rightarrow> exec_block_func_t \<times> machine_t \<times> mem \<Rightarrow> bool" where
  "inner_ok pl R m0 x c = (\<lambda>(code, m, mem). m_cache m = c \<and> guest_ok R m0 (m_state m) mem \<and> code_for code m \<and>
     guest_reach x (bare (m_state m), mem))"

lemma set_state_fields [simp]:
  "m_state (set_state s m) = s" "m_cache (set_state s m) = m_cache m" "m_mmu (set_state s m) = m_mmu m"
  by (simp_all add: set_state_def)

lemma pc_reenter_fields [simp]:
  "m_state (pc_reenter m) = (m_state m)\<lparr>pc := reenter_pc (m_state m)\<rparr>" "m_cache (pc_reenter m) = m_cache m"
  "m_mmu (pc_reenter m) = m_mmu m"
  by (simp_all add: pc_reenter_def)

lemma lands_reach: "lands x s m \<Longrightarrow> exit_reason s \<noteq> ecall \<Longrightarrow> exit_reason s \<noteq> halt \<Longrightarrow> guest_reach x (resume s, m)"
  by (simp add: lands_def)

lemma inner_round_ok:
  assumes gt: "guest_text R m0" and c: "cache_ok pl R m0 c" and ok: "inner_ok pl R m0 x c t"
  shows "inner_round pl t = Inr t' \<Longrightarrow> inner_ok pl R m0 x c t'"
    "inner_round pl t = Inl (Some (Inr (m', mem'))) \<Longrightarrow>
       m_cache m' = c \<and> guest_ok R m0 (m_state m') mem' \<and> lands x (m_state m') mem' \<and> exit_reason (m_state m') \<noteq> interp"
proof -
  obtain code m mem where t: "t = (code, m, mem)" by (cases t)
  from ok have m: "m_cache m = c" "guest_ok R m0 (m_state m) mem" "code_for code m" and re: "guest_reach x (bare (m_state m), mem)"
    by (simp_all add: inner_ok_def t)
  have land: "lands x s1 m1 \<and> guest_ok R m0 s1 m1"
    if "call_code pl c code ((m_state m)\<lparr>exit_reason := none\<rparr>) mem = Some (Inr (s1, m1))" for s1 m1
  proof -
    have l: "lands (bare (m_state m), mem) s1 m1"
      by (rule call_lands [OF gt _ m(2,3)]) (use that c in \<open>simp_all add: m(1)\<close>)
    from lands_later [OF re l] lands_ok [OF l m(2)] show ?thesis ..
  qed
  show "inner_ok pl R m0 x c t'" if "inner_round pl t = Inr t'"
    using that land lands_reach [of x] c
    by (auto simp: inner_round_def t m(1) inner_ok_def code_for_def Let_def resume_def cache_ok_def lookup_cached
        split: option.splits sum.splits prod.splits if_splits)
  show "m_cache m' = c \<and> guest_ok R m0 (m_state m') mem' \<and> lands x (m_state m') mem' \<and> exit_reason (m_state m') \<noteq> interp"
    if "inner_round pl t = Inl (Some (Inr (m', mem')))"
    using that land
    by (auto simp: inner_round_def t m(1) Let_def split: option.splits sum.splits prod.splits if_splits)
qed

lemma inner_loop_ok:
  assumes gt: "guest_text R m0" and c: "cache_ok pl R m0 c" and ok: "inner_ok pl R m0 x c t"
    and r: "loop (inner_round pl) t = Some (Inr (m', mem'))"
  shows "m_cache m' = c \<and> guest_ok R m0 (m_state m') mem' \<and> lands x (m_state m') mem' \<and> exit_reason (m_state m') \<noteq> interp"
proof -
  from r have "drive (inner_round pl) t = Some (Some (Inr (m', mem')))" by (simp add: loop_def bind_eq_Some_conv)
  from drive_invariant [where I = "inner_ok pl R m0 x c", OF this ok] inner_round_ok(1) [OF gt c]
  obtain t' where "inner_ok pl R m0 x c t'" "inner_round pl t' = Inl (Some (Inr (m', mem')))" by blast
  then show ?thesis by (rule inner_round_ok(2) [OF gt c])
qed

subsection \<open>Finding the code\<close>

definition emu_ok :: "plat_t \<Rightarrow> u64 set \<Rightarrow> mem \<Rightarrow> emu_t \<Rightarrow> bool" where
  "emu_ok pl R m0 e \<longleftrightarrow> cache_ok pl R m0 (m_cache (em_machine e)) \<and>
     guest_ok R m0 (m_state (em_machine e)) (em_mem e) \<and> wf_stack (gb_stack (em_gen e))"

abbreviation (input) guest_of :: "emu_t \<Rightarrow> state_t \<times> mem" where
  "guest_of e \<equiv> (bare (m_state (em_machine e)), em_mem e)"

lemma cache_ok_cold:
  assumes f: "faithful pl R m0" and c: "cache_ok pl R m0 c" "k \<noteq> 0" and h: "cache_hot c k = Inr (False, c')"
  shows "cache_ok pl R m0 c'"
proof -
  from c have "wf_cache c" by (simp add: cache_ok_def)
  then obtain n off where v: "wf_cache c'" "jitcode c' = jitcode c" "jitbytes c' = jitbytes c"
    "cache_view c' = (cache_view c)(k \<mapsto> (n, off))" "False \<longleftrightarrow> CACHE_HOT_COUNT \<le> n" by (rule hot_view [OF _ c(2) h])
  have "cached c q a" if "cached c' q a" for q a
    using that v by (cases "q = k") (simp_all add: cached_def)
  moreover note faithful_native [OF f v(2,3)]
  ultimately show ?thesis using c v code_ok_same [of pl c' _ c] by (simp add: cache_ok_def)
qed

lemma cache_ok_compiled:
  assumes f: "faithful pl R m0" and c: "cache_ok pl R m0 (m_cache m)" "k \<noteq> 0" "pc (m_state m) = k" "k \<in> R"
    and h: "cache_hot (m_cache m) k = Inr (True, c1)" and t: "text_kept R m0 mem" "flow_closed R m0" "wf_stack (gb_stack st)"
    and g: "machine_genblock mem st k = Some (Inr (src, g))"
    and cc: "machine_compile (plat_cc pl) buf (m\<lparr>m_cache := c1\<rparr>) src = Inr (a, buf', m')"
  shows "cache_ok pl R m0 (m_cache m') \<and> cached (m_cache m') k a \<and> wf_stack (gb_stack g) \<and> m_state m' = m_state m"
proof -
  let ?c = "m_cache m" and ?c' = "m_cache m'"
  from c(1) have "wf_cache ?c" by (simp add: cache_ok_def)
  then obtain n off where v: "wf_cache c1" "jitcode c1 = jitcode ?c" "jitbytes c1 = jitbytes ?c"
    "cache_view c1 = (cache_view ?c)(k \<mapsto> (n, off))" "True \<longleftrightarrow> CACHE_HOT_COUNT \<le> n" by (rule hot_view [OF _ c(2) h])
  note mc = machine_compile_Inr [OF cc]
  from link_object_view [OF v(1) c(2)] mc(2) v c(3)
  have c': "wf_cache ?c'" "jitcode ?c' = jitcode ?c" "cache_view ?c' = (cache_view ?c)(k \<mapsto> (n, a - jitcode ?c))" by simp_all
  have src: "runs_source pl R m0 ?c' a k g"
    "\<And>q b. q \<noteq> k \<Longrightarrow> cached c1 q b \<Longrightarrow> plat_native pl ?c' b = plat_native pl c1 b"
    using faithful_compile [OF f t(3,1) _ _ cc] c(3,4) g by simp_all
  from g have gb: "genblock_blocks mem st k = Some (Inr g)" by (auto simp: machine_genblock_def bindE_eq_Inr)
  note in_R = genblock_within [OF t(3) gb flow_closed_kept [OF t(1,2)] c(4)]
  have new: "code_ok pl R m0 ?c' k a"
    unfolding code_ok_def using t(1,3) gb in_R(1) src(1) by (auto simp: text_kept_def)
  have old: "code_ok pl R m0 ?c' q b" if "q \<noteq> k" "cached ?c' q b" for q b
  proof -
    from that c' v have q: "cached ?c q b" "cached c1 q b" by (simp_all add: cached_def)
    from src(2) [OF that(1) q(2)] faithful_native [OF f v(2,3)] have "plat_native pl ?c' b = plat_native pl ?c b" by simp
    with q(1) c(1) code_ok_same [of pl ?c' b ?c] show ?thesis by (simp add: cache_ok_def)
  qed
  have "cached ?c' q b \<longleftrightarrow> b = a" if "q = k" for q b using c' v(5) that by (simp add: cached_def)
  with new old c' have "cache_ok pl R m0 ?c' \<and> cached ?c' k a" unfolding cache_ok_def by metis
  moreover have "m_state m' = m_state m" using arg_cong [OF mc(1), of m_state] by simp
  ultimately show ?thesis using in_R(2) by blast
qed

lemma find_code_Inr:
  assumes r: "find_code pl e = Some (Inr (code, e'))"
  obtains (hit) a where "cache_lookup (m_cache (em_machine e)) (pc (m_state (em_machine e))) = Some (Inr (Some a))" "code = Native a" "e' = e"
  | (cold) c' where "cache_hot (m_cache (em_machine e)) (pc (m_state (em_machine e))) = Inr (False, c')" "code = Exec_Interp"
      "e' = e\<lparr>em_machine := (em_machine e)\<lparr>m_cache := c'\<rparr>\<rparr>"
  | (hot) c' src g a buf m' where "cache_hot (m_cache (em_machine e)) (pc (m_state (em_machine e))) = Inr (True, c')"
      "machine_genblock (em_mem e) (em_gen e) (pc (m_state (em_machine e))) = Some (Inr (src, g))"
      "machine_compile (plat_cc pl) (em_elfbuf e) ((em_machine e)\<lparr>m_cache := c'\<rparr>) src = Inr (a, buf, m')"
      "code = Native a" "e' = e\<lparr>em_machine := m', em_gen := g, em_elfbuf := buf\<rparr>"
proof -
  let ?m = "em_machine e"
  from r obtain l where l: "cache_lookup (m_cache ?m) (pc (m_state ?m)) = Some (Inr l)"
    by (simp add: find_code_def Let_def split: option.splits sum.splits)
  show ?thesis
  proof (cases l)
    case (Some a)
    with l have l': "cache_lookup (m_cache ?m) (pc (m_state ?m)) = Some (Inr (Some a))" by simp
    with r have "code = Native a \<and> e' = e" by (auto simp: find_code_def)
    with hit [OF l'] show ?thesis by blast
  next
    case None
    with l r obtain b c' where h: "cache_hot (m_cache ?m) (pc (m_state ?m)) = Inr (b, c')"
      by (cases "cache_hot (m_cache ?m) (pc (m_state ?m))") (auto simp: find_code_def)
    show ?thesis
    proof (cases b)
      case True
      from r l None h True obtain q where q: "machine_genblock (em_mem e) (em_gen e) (pc (m_state ?m)) = Some q"
        "bindE q (\<lambda>(source, g). bindE (machine_compile (plat_cc pl) (em_elfbuf e) (?m\<lparr>m_cache := c'\<rparr>) source) (\<lambda>(a, elfbuf, m).
           Inr (Native a, e\<lparr>em_machine := m, em_gen := g, em_elfbuf := elfbuf\<rparr>))) = Inr (code, e')"
        by (auto simp: find_code_def Let_def)
      from q(2) obtain src g a buf m' where "q = Inr (src, g)"
        "machine_compile (plat_cc pl) (em_elfbuf e) (?m\<lparr>m_cache := c'\<rparr>) src = Inr (a, buf, m')"
        "code = Native a" "e' = e\<lparr>em_machine := m', em_gen := g, em_elfbuf := buf\<rparr>"
        by (auto simp: bindE_eq_Inr)
      with h True q(1) show ?thesis by (intro hot) simp_all
    next
      case False
      with h have h': "cache_hot (m_cache ?m) (pc (m_state ?m)) = Inr (False, c')" by simp
      with r l None have "code = Exec_Interp \<and> e' = e\<lparr>em_machine := ?m\<lparr>m_cache := c'\<rparr>\<rparr>"
        by (auto simp: find_code_def Let_def)
      with cold [OF h'] show ?thesis by blast
    qed
  qed
qed

lemma find_code_ok:
  assumes f: "faithful pl R m0" and gt: "guest_text R m0" and e: "emu_ok pl R m0 e"
    and p: "pc (m_state (em_machine e)) \<noteq> 0" "pc (m_state (em_machine e)) \<in> R"
    and r: "find_code pl e = Some (Inr (code, e'))"
  shows "emu_ok pl R m0 e' \<and> code_for code (em_machine e') \<and> guest_of e' = guest_of e"
proof -
  let ?m = "em_machine e"
  from e have c: "cache_ok pl R m0 (m_cache ?m)" "wf_cache (m_cache ?m)" "guest_ok R m0 (m_state ?m) (em_mem e)" "text_kept R m0 (em_mem e)"
      "wf_stack (gb_stack (em_gen e))"
    by (simp_all add: emu_ok_def cache_ok_def guest_ok_def)
  from r show ?thesis
  proof (cases rule: find_code_Inr)
    case (hit a)
    with e lookup_cached [OF c(2)] show ?thesis by (simp add: code_for_def)
  next
    case (cold c')
    from cache_ok_cold [OF f c(1) p(1) cold(1)] cold c show ?thesis by (simp add: emu_ok_def code_for_def)
  next
    case (hot c' src g a buf m')
    from gt have "flow_closed R m0" by (simp add: guest_text_def)
    from cache_ok_compiled [OF f c(1) p(1) refl p(2) hot(1) c(4) this c(5) hot(2,3)] hot(4,5) c(3)
    show ?thesis by (simp add: emu_ok_def code_for_def)
  qed
qed

subsection \<open>The outer loop\<close>

lemma outer_round_cases:
  assumes "outer_round pl e = Inr e' \<or> outer_round pl e = Inl (Some (Inr (reason, e')))" and "pc (m_state (em_machine e)) \<noteq> 0"
  obtains code e1 m mem where "find_code pl e = Some (Inr (code, e1))"
    "loop (inner_round pl) (code, em_machine e1, em_mem e1) = Some (Inr (m, mem))"
    "e' = e1\<lparr>em_machine := pc_reenter m, em_mem := mem\<rparr>"
    "outer_round pl e = Inr e' \<Longrightarrow> exit_reason (m_state m) = direct_branch \<or> exit_reason (m_state m) = indirect_branch"
    "outer_round pl e = Inl (Some (Inr (reason, e'))) \<Longrightarrow>
       reason = exit_reason (m_state m) \<and> (reason = ecall \<or> reason = halt)"
proof -
  from assms obtain code e1 where f: "find_code pl e = Some (Inr (code, e1))"
    by (auto simp: outer_round_def split: option.splits sum.splits)
  with assms obtain m mem where l: "loop (inner_round pl) (code, em_machine e1, em_mem e1) = Some (Inr (m, mem))"
    by (cases "loop (inner_round pl) (code, em_machine e1, em_mem e1)")
      (auto simp: outer_round_def split: sum.splits)
  let ?e = "e1\<lparr>em_machine := pc_reenter m, em_mem := mem\<rparr>"
  have o: "outer_round pl e = (case exit_reason (m_state m) of
      direct_branch \<Rightarrow> Inr ?e | indirect_branch \<Rightarrow> Inr ?e | ecall \<Rightarrow> Inl (Some (Inr (ecall, ?e)))
    | halt \<Rightarrow> Inl (Some (Inr (halt, ?e))) | _ \<Rightarrow> Inl (Some (Inl Unreachable)))"
    using f l assms(2) by (simp add: outer_round_def Let_def)
  with assms(1) have "e' = ?e" by (auto split: exit_reason_t.splits)
  with f l o show ?thesis by (intro that) (auto split: exit_reason_t.splits)
qed

lemma outer_round_ok:
  assumes f: "faithful pl R m0" and gt: "guest_text R m0" and st: "stays_in R x"
    and e: "emu_ok pl R m0 e" "guest_reach x (guest_of e)"
  shows "outer_round pl e = Inr e' \<Longrightarrow> emu_ok pl R m0 e' \<and> guest_reach x (guest_of e')"
    "outer_round pl e = Inl (Some (Inr (reason, e'))) \<Longrightarrow>
       emu_ok pl R m0 e' \<and> (\<exists>y. guest_reach x y \<and> guest_round y = Inl (Inr (reason, guest_of e')))"
proof -
  let ?p = "pc (m_state (em_machine e))"
  have R: "?p \<in> R" if "?p \<noteq> 0"
    using st e(2) that by (auto simp: stays_in_def)
  have main: "emu_ok pl R m0 e' \<and> (if reason' = ecall \<or> reason' = halt
        then \<exists>y. guest_reach x y \<and> guest_round y = Inl (Inr (reason', guest_of e')) else guest_reach x (guest_of e'))"
    if p: "?p \<noteq> 0" and code: "find_code pl e = Some (Inr (code, e1))"
      and l: "loop (inner_round pl) (code, em_machine e1, em_mem e1) = Some (Inr (m, mem))"
      and e': "e' = e1\<lparr>em_machine := pc_reenter m, em_mem := mem\<rparr>" and ex: "reason' = exit_reason (m_state m)"
    for code e1 m mem reason'
  proof -
    from find_code_ok [OF f gt e(1) p R [OF p] code]
    have e1: "emu_ok pl R m0 e1" "code_for code (em_machine e1)" "guest_of e1 = guest_of e" by blast+
    then have "inner_ok pl R m0 x (m_cache (em_machine e1)) (code, em_machine e1, em_mem e1)"
      using e(2) by (simp add: inner_ok_def emu_ok_def)
    from inner_loop_ok [OF gt _ this l] e1(1)
    have m: "m_cache m = m_cache (em_machine e1)" "guest_ok R m0 (m_state m) mem" "lands x (m_state m) mem"
      by (simp_all add: emu_ok_def)
    with e1(1) have "emu_ok pl R m0 e'" by (simp add: e' emu_ok_def)
    moreover have "guest_of e' = (resume (m_state m), mem)" by (simp add: e' resume_def)
    ultimately show ?thesis using m(3) unfolding ex lands_def by metis
  qed
  show "emu_ok pl R m0 e' \<and> guest_reach x (guest_of e')" if o: "outer_round pl e = Inr e'"
  proof -
    from o have p: "?p \<noteq> 0" by (auto simp: outer_round_def)
    from disjI1 [OF o] p show ?thesis
      by (rule outer_round_cases) (use main [OF p] o in fastforce)
  qed
  show "emu_ok pl R m0 e' \<and> (\<exists>y. guest_reach x y \<and> guest_round y = Inl (Inr (reason, guest_of e')))"
    if o: "outer_round pl e = Inl (Some (Inr (reason, e')))"
  proof (cases "?p = 0")
    case True
    with o have "reason = halt" "e' = e" by (auto simp: outer_round_def)
    moreover have "guest_round (guest_of e) = Inl (Inr (halt, guest_of e))"
      using True by (simp add: guest_round_def interp_step_def resume_def)
    ultimately show ?thesis using e by blast
  next
    case False
    from disjI2 [OF o] False show ?thesis
      by (rule outer_round_cases) (use main [OF False] o in fastforce)
  qed
qed

lemma machine_step_lands:
  assumes f: "faithful pl R m0" and gt: "guest_text R m0" and e: "emu_ok pl R m0 e" and st: "stays_in R (guest_of e)"
    and r: "machine_step pl e = Some (Inr (reason, e'))"
  shows "drive guest_round (guest_of e) = Some (Inr (reason, guest_of e')) \<and> emu_ok pl R m0 e'"
proof -
  let ?I = "\<lambda>e1. emu_ok pl R m0 e1 \<and> guest_reach (guest_of e) (guest_of e1)"
  from r have "drive (outer_round pl) e = Some (Some (Inr (reason, e')))"
    by (simp add: machine_step_def loop_def bind_eq_Some_conv)
  from drive_invariant [where I = ?I, OF this] e guest_reach_refl outer_round_ok(1) [OF f gt st]
  obtain e1 where "?I e1" "outer_round pl e1 = Inl (Some (Inr (reason, e')))" by blast
  with outer_round_ok(2) [OF f gt st] obtain y where y: "emu_ok pl R m0 e'" "guest_reach (guest_of e) y"
    "guest_round y = Inl (Inr (reason, guest_of e'))" by blast
  from guest_drive [OF y(2)] drive_steps(1) [of guest_round y, OF y(3)] y(1) show ?thesis by (simp only: simp_thms)
qed

end
