(* ===== verification/Machine_Live.thy ===== *)
theory Machine_Live
  imports Machine_Sim
begin

unbundle bit_operations_syntax

text \<open>
  \<^verbatim>\<open>machine_step\<close> returns: when the guest reaches a system call or its end within some number of rounds and the table
  of the code cache has room for that many new entries, every loop on the way ends.
\<close>

subsection \<open>A bound on the rounds of the guest\<close>

fun guest_within :: "nat \<Rightarrow> state_t \<times> mem \<Rightarrow> bool" where
  "guest_within 0 x = False"
| "guest_within (Suc n) x = (case guest_round x of Inl _ \<Rightarrow> True | Inr y \<Rightarrow> guest_within n y)"

lemma within_step:
  assumes "guest_within n x" and "guest_round x = Inr y"
  obtains k where "n = Suc k" "guest_within k y"
  using assms by (cases n) auto

text \<open>The block interpreter returns, and takes at least one round off the bound.\<close>

lemma block_ends: "guest_within n (bare s, m) \<Longrightarrow> \<exists>r. exec_block_interp s m = Some r"
proof (induction n arbitrary: s m)
  case (Suc n)
  show ?case
  proof (cases "interp_step s m")
    case (Inr r)
    then obtain stop s1 m1 where st: "interp_step s m = Inr (stop, s1, m1)" by (cases r) auto
    show ?thesis
    proof (cases stop)
      case False
      with st have i: "interp_step s m = Inr (False, s1, m1)" by simp
      with Suc.prems round_go [OF i] have "guest_within n (bare s1, m1)" by simp
      from Suc.IH [OF this] i show ?thesis by (subst exec_block_interp.simps) simp
    qed (subst exec_block_interp.simps, simp add: st)
  qed (subst exec_block_interp.simps, simp)
qed simp

lemma block_progress:
  assumes "exec_block_interp s m = Some (Inr (s', m'))" and w: "guest_within n (bare s, m)"
  shows "exit_reason s' \<noteq> ecall \<longrightarrow> exit_reason s' \<noteq> halt \<longrightarrow> (\<exists>k<n. guest_within k (resume s', m'))"
proof (rule exec_block_induct [OF assms(1), where P = "\<lambda>s1 m1. \<exists>k\<le>n. guest_within k (bare s1, m1)"])
  fix s1 m1 s2 m2 assume k: "\<exists>k\<le>n. guest_within k (bare s1, m1)" and i: "interp_step s1 m1 = Inr (False, s2, m2)"
  from k obtain k where "k \<le> n" "guest_within k (bare s1, m1)" by blast
  from within_step [OF this(2) round_go [OF i]] this(1) show "\<exists>k\<le>n. guest_within k (bare s2, m2)"
    by (metis Suc_leD)
next
  fix s1 m1 s2 m2 assume k: "\<exists>k\<le>n. guest_within k (bare s1, m1)" and i: "interp_step s1 m1 = Inr (True, s2, m2)"
  show "exit_reason s2 \<noteq> ecall \<longrightarrow> exit_reason s2 \<noteq> halt \<longrightarrow> (\<exists>k<n. guest_within k (resume s2, m2))"
  proof (intro impI)
    assume e: "exit_reason s2 \<noteq> ecall" "exit_reason s2 \<noteq> halt"
    from k obtain k where "k \<le> n" "guest_within k (bare s1, m1)" by blast
    from within_step [OF this(2) round_stop [OF i e]] this(1) show "\<exists>k<n. guest_within k (resume s2, m2)"
      by (metis Suc_le_lessD)
  qed
qed (use w in blast)

text \<open>So does hot code; only an instruction left to the interpreter may take no round.\<close>

lemma hot_ends: "guest_within n (bare s, m) \<Longrightarrow> \<exists>r. drive hot_step (s, m) = Some r"
proof (induction n arbitrary: s m)
  case (Suc n)
  show ?case
  proof (cases "hot_step (s, m)")
    case (Inr y)
    then obtain s1 m1 where y: "hot_step (s, m) = Inr (s1, m1)" by (cases y) auto
    with Suc.prems hot_step_go [OF y] have "guest_within n (bare s1, m1)" by simp
    from Suc.IH [OF this] y show ?thesis by (simp add: drive_steps(2))
  qed (simp add: drive_steps(1))
qed simp

lemma hot_progress:
  assumes "drive hot_step x = Some r"
  shows "r = Inr (s', m') \<Longrightarrow> guest_within n (bare (fst x), snd x) \<Longrightarrow> exit_reason s' \<noteq> ecall \<Longrightarrow> exit_reason s' \<noteq> halt \<Longrightarrow>
     \<exists>k. guest_within k (resume s', m') \<and> k \<le> n \<and> (exit_reason s' = interp \<or> k < n)"
  using assms
proof (induction x r arbitrary: n rule: drive_induct)
  case (result x r)
  obtain s m where x: "x = (s, m)" by (cases x)
  from result have h: "hot_step (s, m) = Inl (Inr (s', m'))" by (simp add: x)
  show ?case
  proof (cases "left_to_interp m (pc s)")
    case True
    with h have "s' = s\<lparr>exit_reason := interp, reenter_pc := pc s\<rparr>" "m' = m" by (auto simp: hot_step_def)
    with result show ?thesis by (auto simp: x resume_def)
  next
    case False
    with h have "interp_step s m = Inr (True, s', m')"
      by (auto simp: hot_step_def split: sum.splits prod.splits if_splits)
    from within_step [OF _ round_stop [OF this result(4,5)]] result(3) show ?thesis by (metis fst_conv snd_conv x lessI less_imp_le_nat)
  qed
next
  case (step x y r)
  from step(1) have "guest_round (bare (fst x), snd x) = Inr (bare (fst y), snd y)"
    using hot_step_go [of "fst x" "snd x" "fst y" "snd y"] by simp
  from within_step [OF step.prems(2) this] obtain k where k: "n = Suc k" "guest_within k (bare (fst y), snd y)" by blast
  from step.IH [OF step.prems(1) k(2) step.prems(3,4)] k(1) show ?case by (metis le_SucI less_SucI)
qed

subsection \<open>Room in the cache\<close>

definition used :: "cache_t \<Rightarrow> nat" where
  "used c = card (dom (cache_view c))"

lemma in_dom_view:
  assumes "wf_cache c"
  shows "k \<in> dom (cache_view c) \<longleftrightarrow> k \<noteq> 0 \<and> (\<exists>j<CACHE_ENTRY_SIZE. cache_keys c j = k)"
proof (cases "k = 0")
  case False
  with cache_view_None [OF assms False] show ?thesis by (simp only: domIff) metis
qed (simp add: domIff cache_view_def)

lemma dom_cache_view:
  assumes "wf_cache c"
  shows "dom (cache_view c) = cache_keys c ` {j. j < CACHE_ENTRY_SIZE \<and> cache_keys c j \<noteq> 0}"
  by (rule set_eqI, simp only: in_dom_view [OF assms] image_iff mem_Collect_eq bex_simps) metis

lemma finite_dom_view: "wf_cache c \<Longrightarrow> finite (dom (cache_view c))"
  by (simp add: dom_cache_view)

lemma cache_room:
  assumes "wf_cache c" and "used c < CACHE_ENTRY_SIZE"
  obtains j where "j < CACHE_ENTRY_SIZE" "cache_keys c j = 0"
proof (rule ccontr)
  assume "\<not> thesis"
  with that have all: "{j. j < CACHE_ENTRY_SIZE \<and> cache_keys c j \<noteq> 0} = {..<CACHE_ENTRY_SIZE}" by auto
  have "inj_on (cache_keys c) {..<CACHE_ENTRY_SIZE}"
    using probe_inv_unique [of CACHE_ENTRY_SIZE "cache_keys c"] assms(1) all by (auto simp: wf_cache_def inj_on_def)
  then have "used c = CACHE_ENTRY_SIZE"
    by (simp add: used_def dom_cache_view [OF assms(1)] all card_image)
  with assms(2) show False by simp
qed

lemma lookup_returns:
  assumes "wf_cache c" and "used c < CACHE_ENTRY_SIZE"
  shows "\<exists>r. cache_lookup c p = Some r"
proof (cases "p = 0")
  case False
  show ?thesis
  proof (cases "cache_view c p")
    case None
    from cache_room [OF assms] cache_lookup_miss [OF assms(1) False None] show ?thesis by metis
  next
    case (Some e)
    then show ?thesis using ccache.lookup_hit [OF assms(1), of p "fst e" "snd e"] by auto
  qed
qed (simp add: cache_lookup_def)

subsection \<open>The loops return\<close>

lemma loop_step: "loop step s = (case step s of Inl r \<Rightarrow> r | Inr s' \<Rightarrow> loop step s')"
  by (simp add: loop_def drive.simps [of step s] split: sum.split)

lemma call_returns:
  assumes "guest_text R m0" "cache_ok pl R m0 (m_cache m)" "guest_ok R m0 (m_state m) mem" "code_for code m"
    and w: "guest_within n (bare (m_state m), mem)"
  shows "\<exists>r. call_code pl (m_cache m) code ((m_state m)\<lparr>exit_reason := none\<rparr>) mem = Some r"
    "call_code pl (m_cache m) code ((m_state m)\<lparr>exit_reason := none\<rparr>) mem = Some (Inr (s1, m1)) \<Longrightarrow>
     exit_reason s1 \<noteq> ecall \<Longrightarrow> exit_reason s1 \<noteq> halt \<Longrightarrow>
     \<exists>k. guest_within k (resume s1, m1) \<and> k \<le> n \<and> (k < n \<or> exit_reason s1 = interp \<and> code \<noteq> Exec_Interp)"
proof -
  let ?s = "(m_state m)\<lparr>exit_reason := none\<rparr>"
  have w': "guest_within n (bare ?s, mem)" using w by simp
  have ok: "code_ok pl R m0 (m_cache m) (pc ?s) a" if "code = Native a" for a
    using assms that by (simp add: cache_ok_def code_for_def)
  have g: "guest_ok R m0 ?s mem" using assms(3) by simp
  show "\<exists>r. call_code pl (m_cache m) code ?s mem = Some r"
    using block_ends [OF w'] hot_ends [OF w'] native_eq [OF assms(1) ok g] by (cases code) auto
  assume r: "call_code pl (m_cache m) code ?s mem = Some (Inr (s1, m1))" and e: "exit_reason s1 \<noteq> ecall" "exit_reason s1 \<noteq> halt"
  show "\<exists>k. guest_within k (resume s1, m1) \<and> k \<le> n \<and> (k < n \<or> exit_reason s1 = interp \<and> code \<noteq> Exec_Interp)"
  proof (cases code)
    case Exec_Interp
    with block_progress [of ?s mem s1 m1, OF _ w'] r e show ?thesis by (auto intro: less_imp_le_nat)
  next
    case (Native a)
    with r have "plat_native pl (m_cache m) a ?s mem = Some (Inr (s1, m1))" by simp
    then obtain s2 where s2: "drive hot_step (?s, mem) = Some (Inr (s2, m1))" "s1 = s2\<lparr>pc := pc ?s\<rparr>"
      by (rule native_Inr [OF assms(1) ok [OF Native] g])
    from hot_progress [OF s2(1) refl, of n] w' e s2(2) Native show ?thesis by (auto simp: resume_def)
  qed
qed

text \<open>What is left of the bound when the inner loop ends, and when it goes on.\<close>

definition left_over :: "nat \<Rightarrow> machine_t \<times> mem \<Rightarrow> bool" where
  "left_over n = (\<lambda>(m, mem). exit_reason (m_state m) \<noteq> ecall \<longrightarrow> exit_reason (m_state m) \<noteq> halt \<longrightarrow>
     (\<exists>k<n. guest_within k (resume (m_state m), mem)))"

lemma left_over_mono: "left_over k x \<Longrightarrow> k \<le> n \<Longrightarrow> left_over n x"
  unfolding left_over_def using order_less_le_trans by (cases x) (simp only: prod.case, blast)

definition rounds_left :: "nat \<Rightarrow> exec_block_func_t \<Rightarrow> nat" where
  "rounds_left n code = 2 * n + (if code = Exec_Interp then 0 else 1)"

lemma inner_round_Inl:
  assumes gt: "guest_text R m0" and c: "cache_ok pl R m0 (m_cache m)" and room: "used (m_cache m) < CACHE_ENTRY_SIZE"
    and m: "guest_ok R m0 (m_state m) mem" "code_for code m" and w: "guest_within n (bare (m_state m), mem)"
    and r: "inner_round pl (code, m, mem) = Inl out"
  shows "\<exists>r. out = Some r \<and> (\<forall>x. r = Inr x \<longrightarrow> left_over n x)"
proof -
  from call_returns(1) [OF gt c m w] obtain q where q: "call_code pl (m_cache m) code ((m_state m)\<lparr>exit_reason := none\<rparr>) mem = Some q" by blast
  from c have "wf_cache (m_cache m)" by (simp add: cache_ok_def)
  note look = lookup_returns [OF this room]
  show ?thesis
  proof (cases q)
    case (Inl e)
    with q r show ?thesis by (auto simp: inner_round_def)
  next
    case (Inr y)
    then obtain s1 m1 where q': "call_code pl (m_cache m) code ((m_state m)\<lparr>exit_reason := none\<rparr>) mem = Some (Inr (s1, m1))"
      using q by (cases y) simp
    obtain l where l: "cache_lookup (m_cache m) (reenter_pc s1) = Some l" using look by blast
    have "left_over n (set_state s1 m, m1)" "left_over n (pc_reenter (set_state s1 m), m1)" if "exit_reason s1 \<noteq> interp"
      using call_returns(2) [OF gt c m w q'] that unfolding left_over_def by (auto simp: resume_def)
    with r q' l show ?thesis
      by (auto simp: inner_round_def Let_def split: sum.splits option.splits if_splits)
  qed
qed

lemma inner_round_Inr:
  assumes gt: "guest_text R m0" and c: "cache_ok pl R m0 (m_cache m)"
    and m: "guest_ok R m0 (m_state m) mem" "code_for code m" and w: "guest_within n (bare (m_state m), mem)"
    and r: "inner_round pl (code, m, mem) = Inr (code', m', mem')"
  obtains k where "guest_within k (bare (m_state m'), mem')" "k \<le> n" "rounds_left k code' < rounds_left n code"
proof -
  from r obtain s1 where q: "call_code pl (m_cache m) code ((m_state m)\<lparr>exit_reason := none\<rparr>) mem = Some (Inr (s1, mem'))"
    and m': "m' = pc_reenter (set_state s1 m)" and e: "exit_reason s1 \<noteq> ecall" "exit_reason s1 \<noteq> halt"
    and code': "exit_reason s1 = interp \<Longrightarrow> code' = Exec_Interp"
    by (auto simp: inner_round_def Let_def split: sum.splits option.splits if_splits)
  from call_returns(2) [OF gt c m w q e] obtain k where k: "guest_within k (resume s1, mem')" "k \<le> n"
    "k < n \<or> exit_reason s1 = interp \<and> code \<noteq> Exec_Interp" by blast
  moreover have "bare (m_state m') = resume s1" by (simp add: m' resume_def)
  moreover have "rounds_left k code' < rounds_left n code" using k(2,3) code' by (auto simp: rounds_left_def)
  ultimately show thesis by (intro that) simp_all
qed

lemma inner_returns:
  assumes gt: "guest_text R m0" and c: "cache_ok pl R m0 c" "used c < CACHE_ENTRY_SIZE"
  shows "inner_ok pl R m0 x c (code, m, mem) \<Longrightarrow> guest_within n (bare (m_state m), mem) \<Longrightarrow>
     \<exists>out. loop (inner_round pl) (code, m, mem) = Some out \<and> (\<forall>x. out = Inr x \<longrightarrow> left_over n x)"
proof (induction "rounds_left n code" arbitrary: n code m mem rule: less_induct)
  case less
  from less.prems(1) have m: "m_cache m = c" "guest_ok R m0 (m_state m) mem" "code_for code m" by (simp_all add: inner_ok_def)
  show ?case
  proof (cases "inner_round pl (code, m, mem)")
    case (Inl out)
    from inner_round_Inl [OF gt _ _ m(2,3) less.prems(2) Inl] c Inl show ?thesis
      by (simp add: loop_step [of _ "(code, m, mem)"] m(1))
  next
    case (Inr t)
    obtain code' m' mem' where t: "t = (code', m', mem')" by (cases t)
    have ok: "inner_ok pl R m0 x c (code', m', mem')" using inner_round_ok(1) [OF gt c(1) less.prems(1) Inr] by (simp add: t)
    from c(1) have c': "cache_ok pl R m0 (m_cache m)" by (simp add: m(1))
    obtain k where k: "guest_within k (bare (m_state m'), mem')" "k \<le> n" "rounds_left k code' < rounds_left n code"
      by (rule inner_round_Inr [OF gt c' m(2,3) less.prems(2) Inr [unfolded t]])
    from less.hyps [OF k(3) ok k(1)] Inr t left_over_mono [OF _ k(2)] show ?thesis
      by (simp only: loop_step [of _ "(code, m, mem)"] sum.case) blast
  qed
qed

text \<open>Finding the code enters at most one program counter into the table.\<close>

lemma used_upd: "wf_cache c \<Longrightarrow> cache_view c' = (cache_view c)(k \<mapsto> e) \<Longrightarrow> used c' \<le> Suc (used c)"
  "wf_cache c \<Longrightarrow> cache_view c' = (cache_view c)(k \<mapsto> e) \<Longrightarrow> k \<in> dom (cache_view c) \<Longrightarrow> used c' = used c"
  by (simp_all add: used_def card_insert_if finite_dom_view insert_absorb)

lemma find_code_returns:
  assumes "wf_cache (m_cache (em_machine e))" "used (m_cache (em_machine e)) < CACHE_ENTRY_SIZE" "wf_stack (gb_stack (em_gen e))"
  shows "\<exists>r. find_code pl e = Some r"
  using lookup_returns [OF assms(1,2), of "pc (m_state (em_machine e))"]
    genblock_total [OF assms(3), of "em_mem e" "pc (m_state (em_machine e))"]
  by (auto simp: find_code_def Let_def machine_genblock_def split: sum.split option.split prod.split)

lemma find_code_used:
  assumes w: "wf_cache (m_cache (em_machine e))" "pc (m_state (em_machine e)) \<noteq> 0" and r: "find_code pl e = Some (Inr (code, e'))"
  shows "used (m_cache (em_machine e')) \<le> Suc (used (m_cache (em_machine e)))"
  using r
proof (cases rule: find_code_Inr)
  case (cold c')
  from w cold(1) obtain n off where "cache_view c' = (cache_view (m_cache (em_machine e)))(pc (m_state (em_machine e)) \<mapsto> (n, off))"
    by (rule hot_view)
  from used_upd(1) [OF w(1) this] cold(3) show ?thesis by simp
next
  case (hot c' src g a buf m')
  from w hot(1) obtain n off where c': "wf_cache c'" "cache_view c' = (cache_view (m_cache (em_machine e)))(pc (m_state (em_machine e)) \<mapsto> (n, off))"
    by (rule hot_view)
  from link_object_view [OF c'(1) w(2)] machine_compile_Inr(2) [OF hot(3)]
  have v: "cache_view (m_cache m') = (cache_view c')(pc (m_state (em_machine e)) \<mapsto> (heat c' (pc (m_state (em_machine e))), a - jitcode c'))"
    by simp
  have "pc (m_state (em_machine e)) \<in> dom (cache_view c')" by (simp add: c'(2))
  from used_upd(2) [OF c'(1) v this] used_upd(1) [OF w(1) c'(2)] hot(5) show ?thesis by simp
qed simp

lemma outer_returns:
  assumes f: "faithful pl R m0" and gt: "guest_text R m0" and st: "stays_in R x"
  shows "emu_ok pl R m0 e \<Longrightarrow> guest_reach x (guest_of e) \<Longrightarrow> guest_within n (guest_of e) \<Longrightarrow>
     used (m_cache (em_machine e)) + n < CACHE_ENTRY_SIZE \<Longrightarrow> \<exists>out. loop (outer_round pl) e = Some out"
proof (induction n arbitrary: e rule: less_induct)
  case (less n)
  let ?p = "pc (m_state (em_machine e))"
  from less.prems(1) have e: "wf_cache (m_cache (em_machine e))" "wf_stack (gb_stack (em_gen e))" by (simp_all add: emu_ok_def cache_ok_def)
  from less.prems(3) have n: "0 < n" by (cases n) simp_all
  have R: "?p \<in> R" if "?p \<noteq> 0" using st less.prems(2) that by (auto simp: stays_in_def)
  show ?case
  proof (cases "?p = 0")
    case True
    then show ?thesis by (simp add: loop_step [of _ e] outer_round_def)
  next
    case p: False
    from find_code_returns [OF e(1) _ e(2), of pl] less.prems(4) obtain r where r: "find_code pl e = Some r" by auto
    show ?thesis
    proof (cases r)
      case (Inl er)
      with r p show ?thesis by (simp add: loop_step [of _ e] outer_round_def)
    next
      case (Inr ce)
      then obtain code e1 where code: "find_code pl e = Some (Inr (code, e1))" using r by (cases ce) simp
      from find_code_ok [OF f gt less.prems(1) p R [OF p] code]
      have e1: "emu_ok pl R m0 e1" "code_for code (em_machine e1)" and g1: "guest_of e1 = guest_of e" by blast+
      have re: "guest_reach x (guest_of e1)" "guest_within n (guest_of e1)" using less.prems(2,3) by (simp_all only: g1)
      have room: "used (m_cache (em_machine e1)) \<le> Suc (used (m_cache (em_machine e)))" by (rule find_code_used [OF e(1) p code])
      have inner: "inner_ok pl R m0 x (m_cache (em_machine e1)) (code, em_machine e1, em_mem e1)"
        using e1 re(1) by (simp add: inner_ok_def emu_ok_def)
      from inner_returns [OF gt _ _ inner re(2)] e1(1) less.prems(4) room n
      obtain out where out: "loop (inner_round pl) (code, em_machine e1, em_mem e1) = Some out"
        "\<And>y. out = Inr y \<Longrightarrow> left_over n y" by (auto simp: emu_ok_def)
      show ?thesis
      proof (cases "outer_round pl e")
        case (Inl o')
        with code out p show ?thesis
          by (auto simp: loop_step [of _ e] outer_round_def Let_def split: sum.splits prod.splits exit_reason_t.splits)
      next
        case o: (Inr e')
        from outer_round_ok(1) [OF f gt st less.prems(1,2) o] have e': "emu_ok pl R m0 e'" "guest_reach x (guest_of e')" by blast+
        from disjI1 [OF o] p obtain m mem where m: "out = Inr (m, mem)" "e' = e1\<lparr>em_machine := pc_reenter m, em_mem := mem\<rparr>"
          "exit_reason (m_state m) \<noteq> ecall" "exit_reason (m_state m) \<noteq> halt"
          by (rule outer_round_cases) (use code out o in auto)
        from out(2) [OF m(1)] m(3,4) obtain k where k: "k < n" "guest_within k (guest_of e')"
          by (auto simp: left_over_def m(2) resume_def)
        from inner_loop_ok [OF gt _ inner, of m mem] out(1) m(1) e1(1) have "m_cache m = m_cache (em_machine e1)"
          by (simp add: emu_ok_def)
        with room k(1) less.prems(4) have "used (m_cache (em_machine e')) + k < CACHE_ENTRY_SIZE" by (simp add: m(2))
        from less.IH [OF k(1) e' k(2) this] o show ?thesis by (simp add: loop_step [of _ e])
      qed
    qed
  qed
qed

end
