(* ===== verification/Machine_Props.thy ===== *)
theory Machine_Props
  imports Machine_Live
begin

unbundle bit_operations_syntax

text \<open>
  The properties of \<^verbatim>\<open>src/machine.c\<close>, and the programs and the platform their witnesses run on.
\<close>

subsection \<open>A platform whose compiled code is right\<close>

text \<open>\<open>hot_plat\<close> runs compiled code as the interpreter follows hot code; any compiler \<open>cc\<close> will do.\<close>

definition hot_plat :: "cc_t \<Rightarrow> plat_t" where
  "hot_plat cc = \<lparr>plat_native = \<lambda>c a s m.
       map_option (\<lambda>r. bindE r (\<lambda>(s1, m1). Inr (s1\<lparr>pc := pc s\<rparr>, m1))) (drive hot_step (s, m)),
     plat_cc = cc\<rparr>"

lemma hot_plat_runs:
  assumes "guest_text R m0" and g: "wf_stack (gb_stack statics)" "genblock_blocks mg statics p = Some (Inr g)" "visited g \<subseteq> R"
    and f: "\<forall>q\<in>R. fetch mg q = fetch m0 q"
  shows "runs_source (hot_plat cc) R m0 c a p g"
  unfolding runs_source_def
proof (intro allI impI)
  fix s m assume p: "pc s = p" and ok: "guest_ok R m0 s m"
  have "\<forall>p\<in>visited g. protected m p \<and> fetch m p = fetch mg p \<and> x0_safe mg p"
    using assms(1) g(3) f ok x0_safe_fetch [of mg _ m0] by (auto simp: guest_ok_def text_kept_def guest_text_def)
  from jit_call_eq [OF g(1) _ _ _ this] g(2) p ok show "plat_native (hot_plat cc) c a s m = jit_call g s m"
    by (simp add: hot_plat_def guest_ok_def)
qed

lemma hot_plat_faithful:
  assumes "guest_text R m0"
  shows "faithful (hot_plat cc) R m0"
proof -
  have "runs_source (hot_plat cc) R m0 c a p g"
    if "wf_stack (gb_stack statics)" "text_kept R m0 mem" "p \<in> R" "machine_genblock mem statics p = Some (Inr (src, g))"
    for mem statics src g c a p
  proof -
    from that(4) have g: "genblock_blocks mem statics p = Some (Inr g)" by (auto simp: machine_genblock_def bindE_eq_Inr)
    from assms have "flow_closed R mem" using flow_closed_kept [OF that(2)] by (simp add: guest_text_def)
    from genblock_within(1) [OF that(1) g this that(3)] that(2) show ?thesis
      by (intro hot_plat_runs [OF assms that(1) g]) (auto simp: text_kept_def)
  qed
  then show ?thesis unfolding faithful_def by (auto simp: hot_plat_def)
qed

subsection \<open>An emulator with compiled code\<close>

text \<open>The program of one ECALL, which the cache holds compiled.\<close>

definition demo_emu :: emu_t where
  "demo_emu = \<lparr>em_machine = \<lparr>m_state = demo_state 0x1000 (\<lambda>_. 0), m_mmu = zero_mmu, m_cache = demo_cache CACHE_HOT_COUNT\<rparr>,
     em_mem = demo_code, em_gen = demo_statics, em_elfbuf = []\<rparr>"

lemma demo_emu_fields [simp]:
  "m_state (em_machine demo_emu) = demo_state 0x1000 (\<lambda>_. 0)" "m_cache (em_machine demo_emu) = demo_cache CACHE_HOT_COUNT"
  "em_mem demo_emu = demo_code" "em_gen demo_emu = demo_statics"
  by (simp_all add: demo_emu_def)

lemma demo_bare [simp]: "pc (demo_state p r) = p" "bare (demo_state p r) = demo_state p r"
  by (simp_all add: demo_state_def bare_def)

lemma demo_text: "guest_text {0x1000} demo_code"
proof -
  have "targets ss = {}" if "block_ok demo_code T 0x1000 ss" for T ss
  proof -
    have "cg_funcs ! insn_ecall = cg_func_ecall" by (simp add: cg_funcs_def)
    with that demo_fetch show ?thesis
      by (auto simp: block_ok_def cg_func_ecall_def block_tail_def targets_def)
  qed
  then show ?thesis
    by (simp add: guest_text_def flow_closed_def x0_safe_def demo_fetch wdivs_def)
qed

abbreviation (input) demo_called :: state_t where
  "demo_called \<equiv> (demo_state 0x1000 (\<lambda>_. 0))\<lparr>exit_reason := ecall, reenter_pc := 0x1004\<rparr>"

lemma demo_step: "interp_step (demo_state 0x1000 (\<lambda>_. 0)) demo_code = Inr (True, demo_called, demo_code)"
proof -
  have z: "set_gp 0 0 demo_called = demo_called" by (simp add: set_gp_def demo_state_def upt_rec)
  show ?thesis by (simp add: interp_step_fetched demo_fetch funcs_jumps func_ecall_def z)
qed

lemma demo_guest_round: "guest_round (demo_state 0x1000 (\<lambda>_. 0), demo_code) = Inl (Inr (ecall, demo_state 0x1004 (\<lambda>_. 0), demo_code))"
  by (simp add: guest_round_def demo_step resume_def) (simp add: demo_state_def)

lemma demo_stays: "stays_in {0x1000} (guest_of demo_emu)"
proof -
  have "y = guest_of demo_emu" if "guest_reach (guest_of demo_emu) y" for y
    using that unfolding guest_reach_def
    by (induction rule: rtranclp_induct) (auto simp: demo_guest_round)
  then have "pc (fst y) = 0x1000" if "guest_reach (guest_of demo_emu) y" for y
    using that by fastforce
  then show ?thesis by (simp add: stays_in_def)
qed

lemma demo_cache_view: "cache_view (demo_cache h) = [4096 \<mapsto> (h, 0)]"
proof -
  have "cache_view (new_cache buf) k = None" for buf k
    using cache_view_None [OF wf_new_cache, of k buf] by (cases "k = 0") (simp_all add: cache_view_def new_cache_def zero_item_def)
  then have e: "cache_view (new_cache buf) = Map.empty" for buf by (simp add: fun_eq_iff)
  have "cache_table (demo_cache h) = (cache_table (new_cache 0x10000))[4096 := \<lparr>item_pc = 4096, item_hot = h, item_offset = 0\<rparr>]"
    by (simp add: demo_cache_def new_cache_def)
  from cache_update [OF wf_new_cache new_cache_probe _ _ this] e show ?thesis by simp
qed

lemma demo_emu_ok: "emu_ok (hot_plat cc) {0x1000} demo_code demo_emu"
proof -
  have "runs_source (hot_plat cc) {0x1000} demo_code c a 0x1000 demo_gen" for c a
    by (rule hot_plat_runs [OF demo_text demo_statics_wf demo_genblock]) (simp_all add: demo_visited)
  then have "code_ok (hot_plat cc) {0x1000} demo_code c 0x1000 a" for c a
    unfolding code_ok_def
    by (intro exI [of _ demo_code] exI [of _ demo_statics] exI [of _ demo_gen])
      (simp add: demo_genblock demo_statics_wf demo_visited)
  then have "cache_ok (hot_plat cc) {0x1000} demo_code (demo_cache CACHE_HOT_COUNT)"
    by (auto simp: cache_ok_def demo_cache_wf cached_def demo_cache_view split: if_splits)
  then show ?thesis
    by (simp add: emu_ok_def guest_ok_def demo_gp text_kept_def demo_protected demo_statics_wf)
qed

lemma demo_machine_step:
  "machine_step (hot_plat cc) demo_emu = Some (Inr (ecall, demo_emu\<lparr>em_machine :=
     set_state (demo_called\<lparr>pc := 0x1004\<rparr>) (em_machine demo_emu)\<rparr>))"
proof -
  have "\<not> left_to_interp demo_code 0x1000" by (simp add: left_to_interp_def demo_fetch interp_only_def)
  then have "hot_step (demo_state 0x1000 (\<lambda>_. 0), demo_code) = Inl (Inr (demo_called, demo_code))"
    by (simp add: hot_step_def demo_step)
  then have hot: "drive hot_step (demo_state 0x1000 (\<lambda>_. 0), demo_code) = Some (Inr (demo_called, demo_code))"
    by (rule drive_steps)
  have look: "cache_lookup (demo_cache CACHE_HOT_COUNT) 0x1000 = Some (Inr (Some 0x10000))"
    using ccache.lookup_hit [OF demo_cache_wf] by (simp add: demo_cache_def new_cache_def)
  have find: "find_code (hot_plat cc) demo_emu = Some (Inr (Native 0x10000, demo_emu))"
    by (simp add: find_code_def look)
  have e: "(demo_state 0x1000 (\<lambda>_. 0))\<lparr>exit_reason := none\<rparr> = demo_state 0x1000 (\<lambda>_. 0)" "demo_called\<lparr>pc := 0x1000\<rparr> = demo_called"
    by (simp_all add: demo_state_def)
  have "inner_round (hot_plat cc) (Native 0x10000, em_machine demo_emu, em_mem demo_emu) =
      Inl (Some (Inr (set_state demo_called (em_machine demo_emu), demo_code)))"
    by (simp add: inner_round_def e hot_plat_def hot)
  then have "loop (inner_round (hot_plat cc)) (Native 0x10000, em_machine demo_emu, em_mem demo_emu) =
      Some (Inr (set_state demo_called (em_machine demo_emu), demo_code))"
    by (simp add: loop_step [of "inner_round (hot_plat cc)"])
  then have "outer_round (hot_plat cc) demo_emu = Inl (Some (Inr (ecall, demo_emu\<lparr>em_machine :=
     set_state (demo_called\<lparr>pc := 0x1004\<rparr>) (em_machine demo_emu)\<rparr>)))"
    by (simp add: outer_round_def find Let_def pc_reenter_def set_state_def)
  then show ?thesis by (simp add: machine_step_def loop_step [of "outer_round (hot_plat cc)"])
qed

subsection \<open>Properties\<close>





text \<open>
  C15. A branch to program counter zero ends the emulator by an assertion: \<^verbatim>\<open>machine_step\<close> looks the target up in the
  cache, which asserts that it is not zero, before it gets to its own test for a program counter of zero. To
  the interpreter the same guest has come to its end.
\<close>
theorem branch_to_zero_aborts:
  "pc (m_state (em_machine e)) \<noteq> 0 \<Longrightarrow>
   cache_lookup (m_cache (em_machine e)) (pc (m_state (em_machine e))) = Some (Inr None) \<Longrightarrow>
   cache_hot (m_cache (em_machine e)) (pc (m_state (em_machine e))) = Inr (False, c) \<Longrightarrow>
   exec_block_interp ((m_state (em_machine e))\<lparr>exit_reason := none\<rparr>) (em_mem e) = Some (Inr (s, m)) \<Longrightarrow>
   exit_reason s \<in> {direct_branch, indirect_branch} \<Longrightarrow> reenter_pc s = 0 \<Longrightarrow>
   machine_step pl e = Some (Inl (AssertFail ''pc != 0'')) \<and>
   drive guest_round (bare (m_state (em_machine e)), em_mem e) = Some (Inr (halt, bare (s\<lparr>pc := 0\<rparr>), m))"
proof
  assume p: "pc (m_state (em_machine e)) \<noteq> 0" and l: "cache_lookup (m_cache (em_machine e)) (pc (m_state (em_machine e))) = Some (Inr None)"
    and h: "cache_hot (m_cache (em_machine e)) (pc (m_state (em_machine e))) = Inr (False, c)"
    and b: "exec_block_interp ((m_state (em_machine e))\<lparr>exit_reason := none\<rparr>) (em_mem e) = Some (Inr (s, m))"
    and ex: "exit_reason s \<in> {direct_branch, indirect_branch}" and z: "reenter_pc s = 0"
  let ?m = "(em_machine e)\<lparr>m_cache := c\<rparr>"
  from l h have find: "find_code pl e = Some (Inr (Exec_Interp, e\<lparr>em_machine := ?m\<rparr>))" by (simp add: find_code_def)
  have "inner_round pl (Exec_Interp, ?m, em_mem e) = Inl (Some (Inl (AssertFail ''pc != 0'')))"
    using ex z by (auto simp: inner_round_def b cache_lookup_def)
  then have "loop (inner_round pl) (Exec_Interp, ?m, em_mem e) = Some (Inl (AssertFail ''pc != 0''))"
    by (simp add: loop_step [of "inner_round pl"])
  with p find show "machine_step pl e = Some (Inl (AssertFail ''pc != 0''))"
    by (simp add: machine_step_def loop_step [of "outer_round pl"] outer_round_def)
  have "guest_reach (bare (m_state (em_machine e)), em_mem e) (resume s, m)"
    using block_lands [OF b] ex by (auto simp: lands_def)
  moreover have "guest_round (resume s, m) = Inl (Inr (halt, resume s, m))"
    using z by (simp add: guest_round_def interp_step_def resume_def)
  ultimately show "drive guest_round (bare (m_state (em_machine e)), em_mem e) = Some (Inr (halt, bare (s\<lparr>pc := 0\<rparr>), m))"
    using guest_drive drive_steps(1) [of guest_round] z by (metis resume_def)
qed

text \<open>A guest that returns to address zero.\<close>

abbreviation (input) demo_ret :: mem where
  "demo_ret \<equiv> demo_mem 0x1000 [0x67, 0x80, 0, 0]"

definition demo_cold :: emu_t where
  "demo_cold = \<lparr>em_machine = \<lparr>m_state = demo_state 0x1000 (\<lambda>_. 0), m_mmu = zero_mmu, m_cache = new_cache 0x10000\<rparr>,
     em_mem = demo_ret, em_gen = demo_statics, em_elfbuf = []\<rparr>"

lemma demo_ret_block:
  "exec_block_interp (demo_state 0x1000 (\<lambda>_. 0)) demo_ret =
     Some (Inr ((demo_state 0x1000 (\<lambda>_. 0))\<lparr>exit_reason := indirect_branch, reenter_pc := 0\<rparr>, demo_ret))"
proof -
  have "load_u32 demo_ret (TO_HOST 0x1000) = Inr 0x8067" by (simp add: demo_load_u32)
  moreover have "insn_decode zero_insn 0x8067 = Inr (zero_insn\<lparr>insn_type := insn_jalr, insn_rs1 := 1, insn_cont := True\<rparr>)"
    by (simp add: insn_decode_def decode_q3_def QUADRANT_def OPCODE_def Let_def insn_itype_read_def zero_insn_def RD_def RS1_def)
  ultimately have f: "fetch demo_ret 0x1000 = Inr (zero_insn\<lparr>insn_type := insn_jalr, insn_rs1 := 1, insn_cont := True\<rparr>)"
    by (simp add: fetch_def)
  have r0: "(replicate 32 (0 :: u64))[0 := 0] = replicate 32 0" by (simp add: list_eq_iff_nth_eq nth_list_update)
  have z: "set_gp 0 v (demo_state 0x1000 (\<lambda>_. 0)) = (demo_state 0x1000 (\<lambda>_. 0))\<lparr>gp_regs := (replicate 32 0)[0 := v]\<rparr>" for v
    by (simp add: set_gp_def demo_state_def map_replicate_const)
  have "interp_step (demo_state 0x1000 (\<lambda>_. 0)) demo_ret =
      Inr (True, (demo_state 0x1000 (\<lambda>_. 0))\<lparr>exit_reason := indirect_branch, reenter_pc := 0\<rparr>, demo_ret)"
    by (simp add: interp_step_fetched f funcs_jumps func_jalr_def zero_insn_def demo_gp z imm64_def)
      (simp add: demo_state_def set_gp_def map_replicate_const r0)
  then show ?thesis by (subst exec_block_interp.simps) simp
qed

lemma branch_to_zero_aborts_witness:
  "\<forall>cc. machine_step (hot_plat cc) demo_cold = Some (Inl (AssertFail ''pc != 0'')) \<and>
     (\<exists>s. drive guest_round (demo_state 0x1000 (\<lambda>_. 0), demo_ret) = Some (Inr (halt, s, demo_ret)))"
proof
  fix cc
  let ?c = "new_cache 0x10000"
  have none: "cache_view ?c 0x1000 = None"
    using cache_view_None [OF wf_new_cache, of "0x1000" "0x10000"] by (simp add: new_cache_def zero_item_def)
  have z: "cache_keys ?c 4096 = 0" by (simp add: new_cache_def zero_item_def CACHE_ENTRY_SIZE_def)
  have look: "cache_lookup ?c 0x1000 = Some (Inr None)"
    by (rule cache_lookup_miss [OF wf_new_cache _ none _ z]) (simp_all add: CACHE_ENTRY_SIZE_def)
  obtain c where hot: "cache_hot ?c 0x1000 = Inr (False, c)"
    using new_cache_probe [of "0x10000"] z by (auto simp: cache_hot_def Let_def)
  have "(demo_state 0x1000 (\<lambda>_. 0))\<lparr>exit_reason := none\<rparr> = demo_state 0x1000 (\<lambda>_. 0)" by (simp add: demo_state_def)
  with branch_to_zero_aborts [of demo_cold c "(demo_state 0x1000 (\<lambda>_. 0))\<lparr>exit_reason := indirect_branch, reenter_pc := 0\<rparr>" demo_ret "hot_plat cc"]
    look hot demo_ret_block
  show "machine_step (hot_plat cc) demo_cold = Some (Inl (AssertFail ''pc != 0'')) \<and>
     (\<exists>s. drive guest_round (demo_state 0x1000 (\<lambda>_. 0), demo_ret) = Some (Inr (halt, s, demo_ret)))"
    by (auto simp: demo_cold_def)
qed

end
