(* ===== verification/Setup_Props.thy ===== *)
theory Setup_Props
  imports Machine Mmu_Props
begin

unbundle bit_operations_syntax

text \<open>
  The initial stack. \<^verbatim>\<open>machine_setup\<close> leaves the argument count, the argument pointers, their terminator and
  the strings where the start-up code of a RISC-V program looks for them. Guest addresses are natural numbers here; \<open>gm m x\<close> is
  the byte of the guest at \<open>x\<close>.
\<close>

subsection \<open>Guest bytes\<close>

definition gm :: "mem \<Rightarrow> nat \<Rightarrow> (prot \<times> u8) option" where
  "gm m x = m (of_nat (OFF + x))"

definition bytes_at :: "mem \<Rightarrow> nat \<Rightarrow> u8 list \<Rightarrow> bool" where
  "bytes_at m x bs \<longleftrightarrow> (\<forall>i<length bs. gm m (x + i) = Some (RW, bs ! i))"

definition zero_above :: "mmu_t \<Rightarrow> mem \<Rightarrow> bool" where
  "zero_above mmu m \<longleftrightarrow> (\<forall>x. unat (mmu_brk mmu) \<le> x \<longrightarrow> OFF + x < unat (host_alloc mmu) \<longrightarrow> gm m x = Some (RW, 0))"

lemma TO_HOST_nat: "TO_HOST w = of_nat (OFF + unat w)"
  by (simp add: TO_HOST_def GUEST_MEMORY_OFFSET_def)

lemma unat_u64_of_nat: "x < 2 ^ 64 \<Longrightarrow> unat (of_nat x :: u64) = x"
  by (simp add: unat_of_nat)

lemma of_nat_u64_eq: "x < 2 ^ 64 \<Longrightarrow> y < 2 ^ 64 \<Longrightarrow> (of_nat x :: u64) = of_nat y \<longleftrightarrow> x = y"
  by (metis unat_u64_of_nat)

lemma RW_access [simp]: "readable 3" "writable 3"
  by (simp_all add: readable_def writable_def)

lemma store_bytes_at:
  assumes "store_bytes m (of_nat n) bs = Inr m'" and "n + length bs \<le> 2 ^ 64" and "x < 2 ^ 64"
  shows "m' (of_nat x) = (if n \<le> x \<and> x < n + length bs then map_option (\<lambda>(p, b). (p, bs ! (x - n))) (m (of_nat x)) else m (of_nat x))"
  using assms
proof (induction bs arbitrary: m n)
  case (Cons b bs)
  then obtain m1 where m1: "store_byte m (of_nat n) b = Inr m1" "store_bytes m1 (of_nat (Suc n)) bs = Inr m'"
    by (auto simp: bindE_eq_Inr add.commute)
  then obtain p v where p: "m (of_nat n) = Some (p, v)" "m1 = m(of_nat n \<mapsto> (p, b))" by (auto simp: store_byte_Inr)
  have eq: "(of_nat x :: u64) = of_nat n \<longleftrightarrow> x = n" using Cons.prems by (intro of_nat_u64_eq) auto
  from Cons.IH [OF m1(2)] Cons.prems have IH: "m' (of_nat x) = (if Suc n \<le> x \<and> x < Suc n + length bs
      then map_option (\<lambda>(p, b). (p, bs ! (x - Suc n))) (m1 (of_nat x)) else m1 (of_nat x))" by simp
  show ?case
  proof (cases "x = n")
    case True
    with IH p show ?thesis by simp
  next
    case False
    with IH p eq have "m1 (of_nat x) = m (of_nat x)" by simp
    with IH False show ?thesis by (cases "n < x") (auto simp: nth_Cons' Suc_diff_Suc [symmetric] numeral_eq_Suc)
  qed
qed auto

lemma load_bytes_at:
  "\<forall>i<length bs. m (of_nat (n + i)) = Some (RW, bs ! i) \<Longrightarrow> load_bytes m (of_nat n) (length bs) = Inr bs"
proof (induction bs arbitrary: n)
  case (Cons b bs)
  from Cons.prems have "m (of_nat n) = Some (RW, b)" by (metis add_0_right length_Cons nth_Cons_0 zero_less_Suc)
  moreover have "\<forall>i<length bs. m (of_nat (Suc n + i)) = Some (RW, bs ! i)"
    using Cons.prems by (metis Suc_less_eq add_Suc_shift length_Cons nth_Cons_Suc)
  from Cons.IH [OF this] have "load_bytes m (of_nat n + 1) (length bs) = Inr bs" by (simp add: add.commute)
  ultimately show ?case by (simp add: load_byte_def)
qed simp

lemma load_guest: "bytes_at m (unat w) bs \<Longrightarrow> load_bytes m (TO_HOST w) (length bs) = Inr bs"
  unfolding TO_HOST_nat by (rule load_bytes_at) (simp add: bytes_at_def gm_def add.assoc)

lemma bytes_at_append: "bytes_at m x (bs @ cs) \<longleftrightarrow> bytes_at m x bs \<and> bytes_at m (x + length bs) cs"
proof -
  have "bytes_at m x (bs @ cs) \<longleftrightarrow> (\<forall>i<length bs + length cs. gm m (x + i) = Some (RW, (bs @ cs) ! i))"
    by (simp add: bytes_at_def)
  also have "\<dots> \<longleftrightarrow> (\<forall>i<length bs. gm m (x + i) = Some (RW, bs ! i)) \<and> (\<forall>i<length cs. gm m (x + length bs + i) = Some (RW, cs ! i))"
    (is "?a \<longleftrightarrow> ?b \<and> ?c")
  proof
    assume a: ?a
    have "?b" using a by (auto simp: nth_append)
    moreover have "gm m (x + length bs + i) = Some (RW, cs ! i)" if "i < length cs" for i
      using a [rule_format, of "length bs + i"] that by (simp add: add.assoc)
    ultimately show "?b \<and> ?c" by blast
  next
    assume bc: "?b \<and> ?c"
    show ?a
    proof (intro allI impI)
      fix i assume "i < length bs + length cs"
      with bc [THEN conjunct2, rule_format, of "i - length bs"] bc [THEN conjunct1, rule_format, of i]
      show "gm m (x + i) = Some (RW, (bs @ cs) ! i)" by (cases "i < length bs") (simp_all add: nth_append)
    qed
  qed
  finally show ?thesis by (simp add: bytes_at_def)
qed

lemma bytes_at_cong: "bytes_at m x bs \<Longrightarrow> (\<And>y. x \<le> y \<Longrightarrow> y < x + length bs \<Longrightarrow> gm m' y = gm m y) \<Longrightarrow> bytes_at m' x bs"
  by (simp add: bytes_at_def)

subsection \<open>Writing into the heap\<close>

lemma heap_guest:
  assumes "heap_ok mmu m" and "unat (mmu_base mmu) \<le> x" and "OFF + x < unat (host_alloc mmu)"
  shows "\<exists>b. gm m x = Some (RW, b)"
proof -
  let ?a = "of_nat (OFF + x) :: u64"
  have u: "unat ?a = OFF + x" using assms(1,3) USER_END_lt by (intro unat_u64_of_nat) (simp add: heap_ok_def)
  from assms(1) have "unat (mmu_base mmu) + OFF \<le> unat ?a \<and> unat ?a < unat (host_alloc mmu) \<longrightarrow> (\<exists>b. m ?a = Some (RW, b))"
    unfolding heap_ok_def by blast
  with assms(2,3) show ?thesis unfolding gm_def u by simp
qed

lemma write_ok:
  assumes h: "heap_ok mmu m" and lo: "unat (mmu_base mmu) \<le> unat a" and hi: "OFF + unat a + length d \<le> unat (host_alloc mmu)"
  obtains m' where "mmu_write m a d = Inr m'" "heap_ok mmu m'"
    "\<And>x. OFF + x < 2 ^ 64 \<Longrightarrow> gm m' x = (if unat a \<le> x \<and> x < unat a + length d then Some (RW, d ! (x - unat a)) else gm m x)"
proof -
  from h have H: "unat (host_alloc mmu) < 2 ^ 47" using USER_END_lt by (simp add: heap_ok_def)
  have rw: "\<exists>p b. m (TO_HOST a + of_nat i) = Some (p, b) \<and> writable p" if "i < length d" for i
    using heap_guest [OF h, of "unat a + i"] lo hi that by (auto simp: TO_HOST_nat gm_def add.assoc)
  from store_bytes_mapped [of d m "TO_HOST a"] rw obtain m' where m': "store_bytes m (TO_HOST a) d = Inr m'" by blast
  then have run: "mmu_write m a d = Inr m'" by (simp add: mmu_write_def)
  have "\<exists>b. m' x = Some (RW, b)" if "m x = Some (RW, b)" for x b
    using store_bytes_prot [OF m', of x] that by auto
  with h have h': "heap_ok mmu m'" unfolding heap_ok_def by metis
  have "gm m' x = (if unat a \<le> x \<and> x < unat a + length d then Some (RW, d ! (x - unat a)) else gm m x)" if x: "OFF + x < 2 ^ 64" for x
  proof -
    have "gm m' x = (if OFF + unat a \<le> OFF + x \<and> OFF + x < OFF + unat a + length d
        then map_option (\<lambda>(p, b). (p, d ! (OFF + x - (OFF + unat a)))) (gm m x) else gm m x)"
      unfolding gm_def by (rule store_bytes_at) (use m' x hi H in \<open>simp_all add: TO_HOST_nat\<close>)
    moreover have "\<exists>b. gm m x = Some (RW, b)" if "unat a \<le> x \<and> x < unat a + length d"
      using heap_guest [OF h, of x] that lo hi by simp
    ultimately show ?thesis by auto
  qed
  with run h' show ?thesis by (rule that)
qed

subsection \<open>Allocating\<close>

definition granting :: "kernel_t \<Rightarrow> bool" where
  "granting k \<longleftrightarrow> (\<forall>a l. grants_map k a l \<and> grants_unmap k a l)"

lemma small_word:
  assumes "n < 2 ^ 47"
  shows "unat (of_nat n :: u64) = n" "sint (of_nat n :: u64) = int n"
proof -
  from assms have n: "n < 2 ^ 63" by simp
  then show u: "unat (of_nat n :: u64) = n" by (intro unat_u64_of_nat) simp
  then have "uint (of_nat n :: u64) = int n" by (metis uint_nat)
  moreover have "signed_take_bit 63 (int n) = int n" using n by (intro signed_take_bit_int_eq_self) simp_all
  ultimately show "sint (of_nat n :: u64) = int n" by (simp only: sint_uint) simp
qed

lemma alloc_old:
  assumes run: "mmu_alloc k mmu sz m = Inr (r, mmu', m')" and s: "0 \<le> sint sz" and x: "OFF + x < unat (host_alloc mmu)"
  shows "gm m' x = gm m x"
  using run
proof (cases rule: mmu_alloc_cases)
  case (Grow len)
  have "unat (host_alloc mmu) + page_up (unat len) \<le> 2 ^ 64"
    using Grow(4) page_up_lt [of "unat len"] USER_END_lt by (simp add: range_ok_def)
  moreover have "unat (of_nat (OFF + x) :: u64) = OFF + x"
    using x unat_u64_lt [of "host_alloc mmu"] by (intro unat_u64_of_nat) simp
  ultimately show ?thesis using x unfolding Grow(6) gm_def by (subst map_pages_at) simp_all
next
  case (Shrink len)
  from Shrink(1) s show ?thesis by (simp add: word_sless_alt)
qed simp

lemma alloc_ok:
  assumes h: "heap_ok mmu m" and z: "zero_above mmu m" and k: "granting k" and room: "OFF + unat (mmu_brk mmu) + n \<le> USER_END"
  obtains mmu' m' where "mmu_alloc k mmu (of_nat n) m = Inr (mmu_brk mmu, mmu', m')" "unat (mmu_brk mmu') = unat (mmu_brk mmu) + n"
    "mmu_base mmu' = mmu_base mmu" "heap_ok mmu' m'" "zero_above mmu' m'" "\<And>x. x < unat (mmu_brk mmu) \<Longrightarrow> gm m' x = gm m x"
    "\<And>x. unat (mmu_brk mmu) \<le> x \<Longrightarrow> x < unat (mmu_brk mmu) + n \<Longrightarrow> gm m' x = Some (RW, 0)"
proof -
  let ?sz = "of_nat n :: u64" and ?brk = "unat (mmu_brk mmu)"
  have n: "n < 2 ^ 47" "?brk + n < 2 ^ 47" using room USER_END_lt by linarith+
  note un = small_word(1) [OF n(1)] and s = small_word(2) [OF n(1)]
  have sum: "unat (mmu_brk mmu + ?sz) = ?brk + n" using n un by (simp add: unat_word_ariths)
  have base: "unat (mmu_base mmu) \<le> ?brk" using h by (simp add: heap_ok_def word_le_nat_alt)
  have nn: "0 \<le> uint (mmu_brk mmu) + sint ?sz" by (simp add: s)
  have u: "uint (mmu_brk mmu) = int ?brk" "uint (mmu_base mmu) = int (unat (mmu_base mmu))" by (rule uint_nat)+
  have lo: "uint (mmu_base mmu) \<le> uint (mmu_brk mmu) + sint ?sz" unfolding u s using base by linarith
  have hi: "uint (mmu_brk mmu) + sint ?sz + int OFF \<le> int USER_END" unfolding u s using room by linarith
  from k have "grants_map k a l" "grants_unmap k a l" for a l by (simp_all add: granting_def)
  from mmu_alloc_total [OF h this lo hi] have "\<exists>r. mmu_alloc k mmu ?sz m = Inr r" .
  then obtain r mmu' m' where run: "mmu_alloc k mmu ?sz m = Inr (r, mmu', m')" by (metis prod_cases3)
  note frame = mmu_alloc_frame [OF run] and inv = mmu_alloc_inv [OF h nn run]
  have old: "gm m' x = gm m x" if "OFF + x < unat (host_alloc mmu)" for x
    by (rule alloc_old [OF run _ that]) (simp add: s)
  have zero: "gm m' x = Some (RW, 0)" if x: "?brk \<le> x" "OFF + x < unat (host_alloc mmu')" for x
  proof (cases "OFF + x < unat (host_alloc mmu)")
    case True
    with old z x show ?thesis by (simp add: zero_above_def)
  next
    case False
    have "unat (of_nat (OFF + x) :: u64) = OFF + x"
      using x(2) unat_u64_lt [of "host_alloc mmu'"] by (intro unat_u64_of_nat) simp
    with inv(3) [of "of_nat (OFF + x)"] x False show ?thesis by (simp add: gm_def)
  qed
  from inv(1) frame sum have top: "OFF + (?brk + n) \<le> unat (host_alloc mmu')" by (simp add: heap_ok_def)
  show ?thesis
  proof (rule that)
    show "mmu_alloc k mmu (of_nat n) m = Inr (mmu_brk mmu, mmu', m')" using run frame by simp
    show "unat (mmu_brk mmu') = ?brk + n" using frame sum by simp
    show "mmu_base mmu' = mmu_base mmu" "heap_ok mmu' m'" using frame inv(1) by simp_all
    show "zero_above mmu' m'" using zero frame sum by (simp add: zero_above_def)
    show "gm m' x = gm m x" if "x < ?brk" for x using old that h by (simp add: heap_ok_def)
    show "gm m' x = Some (RW, 0)" if "?brk \<le> x" "x < ?brk + n" for x using zero top that by simp
  qed
qed

subsection \<open>The argument pointers\<close>

text \<open>The pointers at \<open>p\<close> name NUL-terminated strings between \<open>T\<close>, the top of the stack, and \<open>b\<close>, the program break.\<close>

definition args_at :: "mem \<Rightarrow> nat \<Rightarrow> nat \<Rightarrow> nat \<Rightarrow> u8 list list \<Rightarrow> bool" where
  "args_at m T b p ss \<longleftrightarrow> (\<forall>i<length ss. \<exists>a. T \<le> a \<and> a + length (ss ! i) < b \<and> bytes_at m (p + 8 * i) (le_bytes 8 a) \<and>
     bytes_at m a (ss ! i @ [0]))"

lemma args_at_Nil [simp]: "args_at m T b p []"
  by (simp add: args_at_def)

lemma args_at_Cons:
  assumes "args_at m T b (p + 8) ss" and "T \<le> a" "a + length s < b" "bytes_at m p (le_bytes 8 a)" "bytes_at m a (s @ [0])"
  shows "args_at m T b p (s # ss)"
  unfolding args_at_def
proof (intro allI impI)
  fix i assume i: "i < length (s # ss)"
  show "\<exists>a. T \<le> a \<and> a + length ((s # ss) ! i) < b \<and> bytes_at m (p + 8 * i) (le_bytes 8 a) \<and> bytes_at m a ((s # ss) ! i @ [0])"
  proof (cases i)
    case 0
    with assms(2-5) show ?thesis by (intro exI [of _ a]) (simp del: le_bytes.simps)
  next
    case (Suc j)
    with i assms(1) [unfolded args_at_def, rule_format, of j] show ?thesis by (simp add: add.assoc del: le_bytes.simps)
  qed
qed

lemma args_at_moved:
  assumes a: "args_at m T b (p + d) ss" and p: "p + d + 8 * length ss \<le> T" and "b \<le> b'"
    and ptr: "\<And>x. p \<le> x \<Longrightarrow> x < p + 8 * length ss \<Longrightarrow> gm m' x = gm m (x + d)"
    and str: "\<And>x. T \<le> x \<Longrightarrow> x < b \<Longrightarrow> gm m' x = gm m x"
  shows "args_at m' T b' p ss"
  unfolding args_at_def
proof (intro allI impI)
  fix i assume i: "i < length ss"
  with a obtain q where q: "T \<le> q" "q + length (ss ! i) < b" "bytes_at m (p + d + 8 * i) (le_bytes 8 q)" "bytes_at m q (ss ! i @ [0])"
    unfolding args_at_def by blast
  have "gm m' (p + 8 * i + j) = gm m (p + d + 8 * i + j)" if "j < 8" for j
    using ptr [of "p + 8 * i + j"] i that by (simp add: ac_simps)
  with q(3) have "bytes_at m' (p + 8 * i) (le_bytes 8 q)" by (simp add: bytes_at_def del: le_bytes.simps)
  moreover have "bytes_at m' q (ss ! i @ [0])" by (rule bytes_at_cong [OF q(4)]) (use str q in simp)
  ultimately show "\<exists>a. T \<le> a \<and> a + length (ss ! i) < b' \<and> bytes_at m' (p + 8 * i) (le_bytes 8 a) \<and> bytes_at m' a (ss ! i @ [0])"
    using q(1,2) assms(3) by (intro exI [of _ q]) (simp del: le_bytes.simps)
qed

lemma set_reg_fields [simp]:
  "m_mmu (set_reg r v m) = m_mmu m" "m_cache (set_reg r v m) = m_cache m"
  "m_state (set_reg r v m) = set_gp r v (m_state m)"
  by (simp_all add: set_reg_def set_state_def)

definition string_space :: "u8 list list \<Rightarrow> nat" where
  "string_space ss = (\<Sum>s\<leftarrow>ss. Suc (length s))"

text \<open>One argument: its string is copied behind the break, its address pushed.\<close>

lemma push_one:
  fixes m :: machine_t
  assumes h: "heap_ok (m_mmu m) mem" "zero_above (m_mmu m) mem" "granting k"
    and room: "OFF + unat (mmu_brk (m_mmu m)) + Suc (length s) \<le> USER_END"
    and p: "unat (get_reg reg_sp m) = p + 8" "unat (mmu_base (m_mmu m)) \<le> p" "p + 8 \<le> T" "T \<le> unat (mmu_brk (m_mmu m))"
  obtains mmu' mem1 mem2 mem' where
    "mmu_alloc k (m_mmu m) (of_nat (length s) + 1) mem = Inr (mmu_brk (m_mmu m), mmu', mem1)"
    "mmu_write mem1 (mmu_brk (m_mmu m)) s = Inr mem2" "mmu_write mem2 (get_reg reg_sp m - 8) (u64_bytes (mmu_brk (m_mmu m))) = Inr mem'"
    "heap_ok mmu' mem'" "zero_above mmu' mem'" "mmu_base mmu' = mmu_base (m_mmu m)"
    "unat (mmu_brk mmu') = unat (mmu_brk (m_mmu m)) + Suc (length s)"
    "bytes_at mem' p (le_bytes 8 (unat (mmu_brk (m_mmu m))))" "bytes_at mem' (unat (mmu_brk (m_mmu m))) (s @ [0])"
    "\<And>x. p + 8 \<le> x \<Longrightarrow> x < unat (mmu_brk (m_mmu m)) \<Longrightarrow> gm mem' x = gm mem x"
proof -
  let ?b = "unat (mmu_brk (m_mmu m))" and ?sp = "get_reg reg_sp m - 8"
  have sp: "unat ?sp = p" using p(1) by (simp add: unat_sub_if_size word_size unat_word_ariths)
  have one: "of_nat (length s) + 1 = (of_nat (Suc (length s)) :: u64)" by simp
  obtain mmu' mem1 where al: "mmu_alloc k (m_mmu m) (of_nat (Suc (length s))) mem = Inr (mmu_brk (m_mmu m), mmu', mem1)"
      "unat (mmu_brk mmu') = ?b + Suc (length s)" "mmu_base mmu' = mmu_base (m_mmu m)" "heap_ok mmu' mem1" "zero_above mmu' mem1"
      "\<And>x. x < ?b \<Longrightarrow> gm mem1 x = gm mem x"
      "\<And>x. ?b \<le> x \<Longrightarrow> x < ?b + Suc (length s) \<Longrightarrow> gm mem1 x = Some (RW, 0)"
    by (rule alloc_ok [OF h room]) blast
  from al(2,4) have top: "OFF + (?b + Suc (length s)) \<le> unat (host_alloc mmu')" by (simp add: heap_ok_def)
  have H: "unat (host_alloc mmu') < 2 ^ 47" using al(4) USER_END_lt by (simp add: heap_ok_def)
  obtain mem2 where w1: "mmu_write mem1 (mmu_brk (m_mmu m)) s = Inr mem2" "heap_ok mmu' mem2"
      "\<And>x. OFF + x < 2 ^ 64 \<Longrightarrow> gm mem2 x = (if ?b \<le> x \<and> x < ?b + length s then Some (RW, s ! (x - ?b)) else gm mem1 x)"
    by (rule write_ok [OF al(4), of "mmu_brk (m_mmu m)" s]) (use p top al(3) in auto)
  obtain mem' where w2: "mmu_write mem2 ?sp (u64_bytes (mmu_brk (m_mmu m))) = Inr mem'" "heap_ok mmu' mem'"
      "\<And>x. OFF + x < 2 ^ 64 \<Longrightarrow> gm mem' x = (if p \<le> x \<and> x < p + 8 then Some (RW, le_bytes 8 ?b ! (x - p)) else gm mem2 x)"
    by (rule write_ok [OF w1(2), of ?sp "u64_bytes (mmu_brk (m_mmu m))"])
      (use p top al(3) sp in \<open>auto simp: u64_bytes_def simp del: le_bytes.simps\<close>)
  have gm': "gm mem' x = (if ?b \<le> x \<and> x < ?b + length s then Some (RW, s ! (x - ?b)) else gm mem1 x)"
    if "p + 8 \<le> x" "OFF + x < unat (host_alloc mmu')" for x
    using w1(3) [of x] w2(3) [of x] that H by simp
  show ?thesis
  proof (rule that [OF al(1) [folded one] w1(1) w2(1,2) _ al(3,2)])
    show "zero_above mmu' mem'"
      using al(5) gm' p al(2) by (auto simp: zero_above_def)
    show "bytes_at mem' p (le_bytes 8 ?b)"
      using w2(3) p top H by (simp add: bytes_at_def del: le_bytes.simps)
    show "bytes_at mem' ?b (s @ [0])"
      unfolding bytes_at_def
    proof (intro allI impI)
      fix i assume "i < length (s @ [0])"
      then have i: "i < Suc (length s)" by simp
      have "gm mem1 (?b + i) = Some (RW, 0)" by (rule al(7)) (use i in simp_all)
      with gm' [of "?b + i"] i p top show "gm mem' (?b + i) = Some (RW, (s @ [0]) ! i)"
        by (auto simp: nth_append less_Suc_eq)
    qed
    show "gm mem' x = gm mem x" if "p + 8 \<le> x" "x < ?b" for x
      using gm' [of x] al(6) that top by simp
  qed
qed

lemma set_gp_again [simp]: "set_gp r v (set_gp r w s) = set_gp r v s"
  by (simp add: set_gp_def)

lemma set_reg_again [simp]: "set_reg r v (set_reg r w m) = set_reg r v m"
  by (simp add: set_reg_def set_state_def)

lemma get_set_sp [simp]: "wf_state (m_state m) \<Longrightarrow> get_reg 2 (set_reg 2 v m) = v"
  by (simp add: get_reg_def gp_set_gp)

lemma get_reg_mmu [simp]: "get_reg r (m\<lparr>m_mmu := u\<rparr>) = get_reg r m"
  by (simp add: get_reg_def)

lemma push_args_ok:
  assumes k: "granting k"
  shows "heap_ok (m_mmu m) mem \<Longrightarrow> zero_above (m_mmu m) mem \<Longrightarrow> wf_state (m_state m) \<Longrightarrow>
     OFF + unat (mmu_brk (m_mmu m)) + string_space as \<le> USER_END \<Longrightarrow>
     unat (get_reg reg_sp m) = p + 8 * length as \<Longrightarrow> unat (mmu_base (m_mmu m)) \<le> p \<Longrightarrow> T \<le> unat (mmu_brk (m_mmu m)) \<Longrightarrow>
     args_at mem T (unat (mmu_brk (m_mmu m))) (p + 8 * length as) ss \<Longrightarrow> p + 8 * length as + 8 * length ss \<le> T \<Longrightarrow>
     \<exists>m' mem'. push_args k as (m, mem) = Inr (m', mem') \<and> heap_ok (m_mmu m') mem' \<and> unat (get_reg reg_sp m') = p \<and>
       args_at mem' T (unat (mmu_brk (m_mmu m'))) p (rev as @ ss) \<and>
       (\<forall>x. p + 8 * length as \<le> x \<longrightarrow> x < unat (mmu_brk (m_mmu m)) \<longrightarrow> gm mem' x = gm mem x) \<and>
       m_state m' = set_gp reg_sp (get_reg reg_sp m') (m_state m) \<and> mmu_base (m_mmu m') = mmu_base (m_mmu m) \<and>
       unat (mmu_brk (m_mmu m)) \<le> unat (mmu_brk (m_mmu m'))"
proof (induction as arbitrary: m mem ss)
  case Nil
  then show ?case by (simp add: get_reg_def set_gp_def gp_def)
next
  case (Cons s as)
  let ?b = "unat (mmu_brk (m_mmu m))" and ?p1 = "p + 8 * length as"
  from Cons.prems(4) have room: "OFF + ?b + Suc (length s) \<le> USER_END" by (simp add: string_space_def)
  obtain mmu' mem1 mem2 mem' where o:
    "mmu_alloc k (m_mmu m) (of_nat (length s) + 1) mem = Inr (mmu_brk (m_mmu m), mmu', mem1)"
    "mmu_write mem1 (mmu_brk (m_mmu m)) s = Inr mem2" "mmu_write mem2 (get_reg reg_sp m - 8) (u64_bytes (mmu_brk (m_mmu m))) = Inr mem'"
    "heap_ok mmu' mem'" "zero_above mmu' mem'" "mmu_base mmu' = mmu_base (m_mmu m)" "unat (mmu_brk mmu') = ?b + Suc (length s)"
    "bytes_at mem' ?p1 (le_bytes 8 ?b)" "bytes_at mem' ?b (s @ [0])" "\<And>x. ?p1 + 8 \<le> x \<Longrightarrow> x < ?b \<Longrightarrow> gm mem' x = gm mem x"
    by (rule push_one [OF Cons.prems(1,2) k room, of ?p1 T]) (use Cons.prems in \<open>simp_all del: le_bytes.simps\<close>)
  let ?m = "set_reg 2 (get_reg 2 m - 8) (m\<lparr>m_mmu := mmu'\<rparr>)"
  have sp: "unat (get_reg reg_sp ?m) = ?p1"
    using Cons.prems(3,5) by (simp add: unat_sub_if_size word_size unat_word_ariths)
  have e: "p + 8 * length (s # as) = ?p1 + 8" by simp
  note pre = Cons.prems(8,9) [unfolded e]
  from pre(1) have "args_at mem T ?b (?p1 + 8 + 0) ss" by simp
  from args_at_moved [OF this, of "unat (mmu_brk mmu')" mem'] pre(2) Cons.prems(7) o(7,10)
  have "args_at mem' T (unat (mmu_brk mmu')) (?p1 + 8) ss" by simp
  from args_at_Cons [OF this, of ?b s] o(7-9) Cons.prems(7)
  have args: "args_at mem' T (unat (mmu_brk (m_mmu ?m))) ?p1 (s # ss)" by simp
  have "\<exists>m' mem''. push_args k as (?m, mem') = Inr (m', mem'') \<and> heap_ok (m_mmu m') mem'' \<and> unat (get_reg reg_sp m') = p \<and>
       args_at mem'' T (unat (mmu_brk (m_mmu m'))) p (rev as @ s # ss) \<and>
       (\<forall>x. ?p1 \<le> x \<longrightarrow> x < unat (mmu_brk (m_mmu ?m)) \<longrightarrow> gm mem'' x = gm mem' x) \<and>
       m_state m' = set_gp reg_sp (get_reg reg_sp m') (m_state ?m) \<and> mmu_base (m_mmu m') = mmu_base (m_mmu ?m) \<and>
       unat (mmu_brk (m_mmu ?m)) \<le> unat (mmu_brk (m_mmu m'))"
    by (rule Cons.IH) (use Cons.prems o(4-7) sp args in \<open>simp_all add: string_space_def\<close>)
  then obtain m' mem'' where r: "push_args k as (?m, mem') = Inr (m', mem'')" "heap_ok (m_mmu m') mem''" "unat (get_reg reg_sp m') = p"
       "args_at mem'' T (unat (mmu_brk (m_mmu m'))) p (rev as @ s # ss)"
       "\<And>x. ?p1 \<le> x \<Longrightarrow> x < unat (mmu_brk mmu') \<Longrightarrow> gm mem'' x = gm mem' x"
       "m_state m' = set_gp reg_sp (get_reg reg_sp m') (m_state m)" "mmu_base (m_mmu m') = mmu_base (m_mmu m)"
       "unat (mmu_brk mmu') \<le> unat (mmu_brk (m_mmu m'))" by (auto simp: o(6))
  have "push_args k (s # as) (m, mem) = Inr (m', mem'')" using o(1-3) r(1) Cons.prems(3) by (simp add: Let_def)
  moreover have "gm mem'' x = gm mem x" if "p + 8 * length (s # as) \<le> x" "x < ?b" for x
    using r(5) [of x] o(10) [of x] o(7) that by simp
  ultimately show ?case using r(2-4,6-8) o(7) by (intro exI [of _ m'] exI [of _ mem'']) simp
qed

subsection \<open>The stack as the program reads it\<close>

definition stack_holds :: "mem \<Rightarrow> u64 \<Rightarrow> u8 list list \<Rightarrow> bool" where
  "stack_holds m sp args \<longleftrightarrow>
     load_u64 m (TO_HOST sp) = Inr (of_nat (length args)) \<and>
     (\<forall>i<length args. \<exists>a. load_u64 m (TO_HOST (sp + of_nat (8 + 8 * i))) = Inr a \<and>
       load_bytes m (TO_HOST a) (length (args ! i) + 1) = Inr (args ! i @ [0])) \<and>
     load_bytes m (TO_HOST (sp + of_nat (8 + 8 * length args))) 24 = Inr (replicate 24 0)"

lemma load_u64_at: "bytes_at m (unat w) (le_bytes 8 n) \<Longrightarrow> n < 2 ^ 47 \<Longrightarrow> load_u64 m (TO_HOST w) = Inr (of_nat n)"
  using load_guest [of m w "le_bytes 8 n"] by (simp add: load_u64_def le_val_bytes del: le_bytes.simps)

lemma plus_small: "unat w + n < 2 ^ 47 \<Longrightarrow> unat (w + of_nat n :: u64) = unat w + n"
  using small_word(1) [of n] by (simp add: unat_word_ariths)

lemma stack_holdsI:
  assumes n: "bytes_at m (unat sp) (le_bytes 8 (length args))" and a: "args_at m T b (unat sp + 8) args"
    and z: "bytes_at m (unat sp + 8 + 8 * length args) (replicate 24 0)"
    and lim: "unat sp + 8 + 8 * length args < 2 ^ 47" "b < 2 ^ 47"
  shows "stack_holds m sp args"
  unfolding stack_holds_def
proof (intro conjI allI impI)
  show "load_u64 m (TO_HOST sp) = Inr (of_nat (length args))" using n lim by (intro load_u64_at) simp_all
  have "unat (sp + of_nat (8 + 8 * length args)) = unat sp + 8 + 8 * length args"
    using lim plus_small [of sp "8 + 8 * length args"] by simp
  with load_guest [of m "sp + of_nat (8 + 8 * length args)" "replicate 24 0"] z
  show "load_bytes m (TO_HOST (sp + of_nat (8 + 8 * length args))) 24 = Inr (replicate 24 0)" by (simp only: length_replicate)
next
  fix i assume i: "i < length args"
  with a obtain q where q: "q + length (args ! i) < b" "bytes_at m (unat sp + 8 + 8 * i) (le_bytes 8 q)" "bytes_at m q (args ! i @ [0])"
    unfolding args_at_def by blast
  have p: "unat (sp + of_nat (8 + 8 * i)) = unat sp + 8 + 8 * i"
    using i lim plus_small [of sp "8 + 8 * i"] by simp
  have q47: "q < 2 ^ 47" using q(1) lim(2) by linarith
  have "load_u64 m (TO_HOST (sp + of_nat (8 + 8 * i))) = Inr (of_nat q)"
    using q(2) by (intro load_u64_at [OF _ q47]) (simp only: p)
  moreover have "load_bytes m (TO_HOST (of_nat q)) (length (args ! i) + 1) = Inr (args ! i @ [0])"
    using load_guest [of m "of_nat q" "args ! i @ [0]"] q(3) small_word(1) [OF q47] by (simp del: of_nat_add)
  ultimately show "\<exists>a. load_u64 m (TO_HOST (sp + of_nat (8 + 8 * i))) = Inr a \<and>
      load_bytes m (TO_HOST a) (length (args ! i) + 1) = Inr (args ! i @ [0])" by blast
qed

text \<open>Alignment to 16 bytes moves the stack down by what is left over.\<close>

lemma unat_align: "unat (w AND NOT 0xf :: u64) = unat w - unat w mod 16"
proof -
  have "(0xf :: u64) = mask 4" by (simp add: mask_numeral)
  then have "(w AND NOT 0xf :: u64) = w AND NOT (mask 4)" by (simp only:)
  also have "\<dots> = push_bit 4 (drop_bit 4 w)"
    by (rule bit_word_eqI) (auto simp: bit_and_iff bit_not_iff bit_mask_iff bit_push_bit_iff bit_drop_bit_eq)
  finally have "(w AND NOT 0xf :: u64) = push_bit 4 (drop_bit 4 w)" .
  moreover have "unat w div 16 * 16 < 2 ^ 64" using unat_u64_lt [of w] div_mult_mod_eq [of "unat w" 16] by simp
  then have "unat (push_bit 4 (drop_bit 4 w)) = unat w div 16 * 16"
    by (simp add: push_bit_eq_mult drop_bit_eq_div unat_word_ariths unat_div_distrib)
  moreover have "unat w div 16 * 16 = unat w - unat w mod 16" by (simp add: minus_mod_eq_div_mult)
  ultimately show ?thesis by simp
qed

lemma move_ok:
  assumes h: "heap_ok mmu m" and lo: "unat (mmu_base mmu) \<le> unat to" "unat to \<le> unat from" and hi: "OFF + unat from + n \<le> unat (host_alloc mmu)"
  obtains bs m' where "load_bytes m (TO_HOST from) n = Inr bs" "store_bytes m (TO_HOST to) bs = Inr m'" "heap_ok mmu m'"
    "\<And>x. unat to \<le> x \<Longrightarrow> x < unat to + n \<Longrightarrow> gm m' x = gm m (x + (unat from - unat to))"
    "\<And>x. unat from + n \<le> x \<Longrightarrow> OFF + x < 2 ^ 64 \<Longrightarrow> gm m' x = gm m x"
proof -
  let ?f = "\<lambda>i. snd (the (gm m (unat from + i)))" and ?d = "unat from - unat to"
  have f: "gm m (unat from + i) = Some (RW, ?f i)" if "i < n" for i
    using heap_guest [OF h, of "unat from + i"] lo hi that by auto
  then have "bytes_at m (unat from) (map ?f [0..<n])" by (simp add: bytes_at_def)
  from load_guest [OF this] have l: "load_bytes m (TO_HOST from) n = Inr (map ?f [0..<n])" by simp
  obtain m' where w: "mmu_write m to (map ?f [0..<n]) = Inr m'" "heap_ok mmu m'"
      "\<And>x. OFF + x < 2 ^ 64 \<Longrightarrow> gm m' x = (if unat to \<le> x \<and> x < unat to + n then Some (RW, map ?f [0..<n] ! (x - unat to)) else gm m x)"
    by (rule write_ok [OF h lo(1), of "map ?f [0..<n]"]) (use lo hi in auto)
  have H: "unat (host_alloc mmu) < 2 ^ 47" using h USER_END_lt by (simp add: heap_ok_def)
  show ?thesis
  proof (rule that [OF l w(1) [unfolded mmu_write_def] w(2)])
    fix x assume x: "unat to \<le> x" "x < unat to + n"
    with w(3) [of x] hi lo H have "gm m' x = Some (RW, ?f (x - unat to))" by simp
    with f [of "x - unat to"] x lo show "gm m' x = gm m (x + ?d)" by (simp add: add.commute)
  next
    fix x assume "unat from + n \<le> x" "OFF + x < 2 ^ 64"
    with w(3) [of x] lo show "gm m' x = gm m x" by simp
  qed
qed

text \<open>The part of \<^verbatim>\<open>machine_setup\<close> after the arguments have been pushed.\<close>

definition setup_end :: "u64 \<Rightarrow> u64 \<Rightarrow> machine_t \<times> mem \<Rightarrow> (machine_t \<times> mem) result" where
  "setup_end end args = (\<lambda>(m, mem).
     let m = set_reg reg_sp (get_reg reg_sp m - ARGC_SIZE) m in
     bindE (mmu_write mem (get_reg reg_sp m) (u64_bytes args)) (\<lambda>mem.
     let m = set_reg reg_a0 args m;
         m = set_reg reg_a1 (get_reg reg_sp m + ARGC_SIZE) m;
         sp0 = get_reg reg_sp m;
         aligned_sp = sp0 AND NOT 0xf in
     if aligned_sp \<noteq> sp0 then
       let used = end - sp0 in
       bindE (load_bytes mem (TO_HOST sp0) (unat used)) (\<lambda>bytes.
       bindE (store_bytes mem (TO_HOST aligned_sp) bytes) (\<lambda>mem.
       Inr (set_reg reg_a1 (aligned_sp + ARGC_SIZE) (set_reg reg_sp aligned_sp m), mem)))
     else Inr (m, mem)))"

lemma machine_setup_parts:
  "machine_setup k argv m mem = bindE (mmu_alloc k (m_mmu m) STACK_SIZE mem) (\<lambda>(stack, mmu, mem).
     let m = set_reg reg_sp (stack + STACK_SIZE) (m\<lparr>m_mmu := mmu\<rparr>);
         m = set_reg reg_sp (get_reg reg_sp m - (AUXV_SIZE + ENVP_SIZE + ARGV_END_SIZE)) m in
     bindE (push_args k (rev (tl argv)) (m, mem)) (setup_end (stack + STACK_SIZE) (of_nat (length argv) - 1)))"
  unfolding machine_setup_def setup_end_def Let_def ..

definition started :: "machine_t \<Rightarrow> mem \<Rightarrow> machine_t \<Rightarrow> mem \<Rightarrow> u8 list list \<Rightarrow> bool" where
  "started m mem m' mem' args \<longleftrightarrow> (let sp = get_reg reg_sp m' in
     unat sp mod 16 = 0 \<and> get_reg reg_a0 m' = of_nat (length args) \<and> get_reg reg_a1 m' = sp + 8 \<and> stack_holds mem' sp args \<and>
     (\<forall>r. r \<notin> {reg_sp, reg_a0, reg_a1} \<longrightarrow> get_reg r m' = get_reg r m) \<and> pc (m_state m') = pc (m_state m) \<and> heap_ok (m_mmu m') mem')"

lemma get_set_reg: "wf_state (m_state m) \<Longrightarrow> unat r < 32 \<Longrightarrow> get_reg q (set_reg r v m) = (if q = r then v else get_reg q m)"
  by (simp add: get_reg_def gp_set_gp)

text \<open>The stack at \<open>al\<close> after it has been written at \<open>al + d\<close> and moved down by \<open>d\<close>.\<close>

lemma stack_moved:
  assumes n: "bytes_at m (unat al + d) (le_bytes 8 (length args))" and args: "args_at m T b (unat al + d + 8) args"
    and z: "bytes_at m (unat al + d + 8 + 8 * length args) (replicate 24 0)"
    and T: "unat al + d + 32 + 8 * length args = T" and lim: "T < 2 ^ 47" "b < 2 ^ 47"
    and moved: "\<And>x. unat al \<le> x \<Longrightarrow> x + d < T \<Longrightarrow> gm m' x = gm m (x + d)" and kept: "\<And>x. T \<le> x \<Longrightarrow> x < b \<Longrightarrow> gm m' x = gm m x"
  shows "stack_holds m' al args"
proof (rule stack_holdsI)
  show "bytes_at m' (unat al) (le_bytes 8 (length args))"
    using n moved T by (simp add: bytes_at_def ac_simps del: le_bytes.simps)
  have "args_at m T b (unat al + 8 + d) args" using args by (simp add: ac_simps)
  then show "args_at m' T b (unat al + 8) args"
    by (rule args_at_moved) (use T moved kept in auto)
  show "bytes_at m' (unat al + 8 + 8 * length args) (replicate 24 0)"
    using z moved T by (simp add: bytes_at_def ac_simps)
qed (use T lim in simp_all)

text \<open>The number of arguments below the pointers.\<close>

lemma argc_written:
  assumes h: "heap_ok mmu mem" and T: "T \<le> unat (mmu_brk mmu)"
    and p: "unat sp + 8 = p" "unat (mmu_base mmu) \<le> unat sp" "p + 8 * length args + 24 = T"
    and args: "args_at mem T (unat (mmu_brk mmu)) p args" and z: "bytes_at mem (p + 8 * length args) (replicate 24 0)"
  obtains mem' where "mmu_write mem sp (u64_bytes (of_nat (length args))) = Inr mem'" "heap_ok mmu mem'"
    "bytes_at mem' (unat sp) (le_bytes 8 (length args))" "args_at mem' T (unat (mmu_brk mmu)) p args"
    "bytes_at mem' (p + 8 * length args) (replicate 24 0)"
proof -
  let ?n = "length args" and ?b = "unat (mmu_brk mmu)"
  from h have H: "unat (host_alloc mmu) < 2 ^ 47" "OFF + ?b \<le> unat (host_alloc mmu)" using USER_END_lt by (simp_all add: heap_ok_def)
  have n: "unat (of_nat ?n :: u64) = ?n" using p(3) T H by (intro small_word(1)) simp
  obtain mem' where w: "mmu_write mem sp (u64_bytes (of_nat ?n)) = Inr mem'" "heap_ok mmu mem'"
      "\<And>x. OFF + x < 2 ^ 64 \<Longrightarrow> gm mem' x = (if unat sp \<le> x \<and> x < unat sp + 8 then Some (RW, le_bytes 8 ?n ! (x - unat sp)) else gm mem x)"
    by (rule write_ok [OF h p(2), of "u64_bytes (of_nat ?n)"]) (use p T H n in \<open>auto simp: u64_bytes_def simp del: le_bytes.simps\<close>)
  have same: "gm mem' x = gm mem x" if "p \<le> x" "x < ?b" for x
    using w(3) [of x] that H p(1) by simp
  show ?thesis
  proof (rule that [OF w(1,2)])
    show "bytes_at mem' (unat sp) (le_bytes 8 ?n)"
      unfolding bytes_at_def
    proof (intro allI impI)
      fix i assume "i < length (le_bytes 8 ?n)"
      then have i: "i < 8" by (simp only: length_le_bytes)
      have "OFF + (unat sp + i) < 2 ^ 64" using i p T H by simp
      from w(3) [OF this] i show "gm mem' (unat sp + i) = Some (RW, le_bytes 8 ?n ! i)"
        by (simp only: le_add1 nat_add_left_cancel_less add_diff_cancel_left' if_True simp_thms)
    qed
    show "args_at mem' T ?b p args"
      by (rule args_at_moved [where d = 0 and m = mem and b = ?b]) (use args p T same in auto)
    show "bytes_at mem' (p + 8 * ?n) (replicate 24 0)"
      by (rule bytes_at_cong [OF z]) (use same p T in simp)
  qed
qed

lemma setup_end_ok:
  assumes h: "heap_ok (m_mmu m) mem" and w: "wf_state (m_state m)" and T: "unat end = T" "T \<le> unat (mmu_brk (m_mmu m))"
    and p: "unat (get_reg reg_sp m) = p" "unat (mmu_base (m_mmu m)) + 32 \<le> p" "p + 8 * length args + 24 = T"
    and args: "args_at mem T (unat (mmu_brk (m_mmu m))) p args" and z: "bytes_at mem (p + 8 * length args) (replicate 24 0)"
  shows "\<exists>m' mem'. setup_end end (of_nat (length args)) (m, mem) = Inr (m', mem') \<and> started m mem m' mem' args"
proof -
  let ?n = "length args" and ?b = "unat (mmu_brk (m_mmu m))" and ?sp = "get_reg reg_sp m - ARGC_SIZE"
  let ?al = "?sp AND NOT 0xf"
  from h have H: "unat (host_alloc (m_mmu m)) < 2 ^ 47" "OFF + ?b \<le> unat (host_alloc (m_mmu m))" using USER_END_lt by (simp_all add: heap_ok_def)
  have sp: "unat ?sp = p - 8" using p(1,2) by (simp add: ARGC_SIZE_def unat_sub_if_size word_size)
  have al: "unat ?al mod 16 = 0" "p < unat ?al + 24" "unat ?al \<le> p - 8"
    unfolding unat_align sp using mod_less_divisor [of 16 "p - 8"] by (simp_all add: minus_mod_eq_div_mult less_diff_conv2)
  obtain mem3 where w3: "mmu_write mem ?sp (u64_bytes (of_nat ?n)) = Inr mem3" "heap_ok (m_mmu m) mem3"
    and m3: "bytes_at mem3 (unat ?sp) (le_bytes 8 ?n)" "args_at mem3 T ?b p args" "bytes_at mem3 (p + 8 * ?n) (replicate 24 0)"
    by (rule argc_written [OF h T(2) _ _ p(3) args z, of ?sp]) (use sp p in simp_all)
  have holds: "stack_holds mem4 ?al args"
    if "\<And>x. unat ?al \<le> x \<Longrightarrow> x + (p - 8 - unat ?al) < T \<Longrightarrow> gm mem4 x = gm mem3 (x + (p - 8 - unat ?al))"
      "\<And>x. T \<le> x \<Longrightarrow> x < ?b \<Longrightarrow> gm mem4 x = gm mem3 x" for mem4
    by (rule stack_moved [OF _ _ _ _ _ _ that]) (use m3 al(3) p T H sp in simp_all)
  let ?m = "set_reg reg_a1 (?sp + ARGC_SIZE) (set_reg reg_a0 (of_nat ?n) (set_reg reg_sp ?sp m))"
  have run: "setup_end end (of_nat ?n) (m, mem) = (if ?al \<noteq> ?sp then
       bindE (load_bytes mem3 (TO_HOST ?sp) (unat (end - ?sp))) (\<lambda>bytes. bindE (store_bytes mem3 (TO_HOST ?al) bytes) (\<lambda>mem.
       Inr (set_reg reg_a1 (?al + ARGC_SIZE) (set_reg reg_sp ?al ?m), mem))) else Inr (?m, mem3))"
    using w3(1) w by (simp add: setup_end_def Let_def get_set_reg)
  show ?thesis
  proof (cases "?al = ?sp")
    case True
    have "stack_holds mem3 ?sp args" using holds [of mem3] True sp by simp
    with True run w w3(2) al(1) show ?thesis
      by (intro exI [of _ ?m] exI [of _ mem3]) (simp add: started_def get_set_reg ARGC_SIZE_def)
  next
    case False
    have used: "unat (end - ?sp) = T - (p - 8)" using sp T(1) p(3) by (subst unat_sub) (simp_all add: word_le_nat_alt)
    obtain bs mem4 where m4: "load_bytes mem3 (TO_HOST ?sp) (T - (p - 8)) = Inr bs" "store_bytes mem3 (TO_HOST ?al) bs = Inr mem4"
        "heap_ok (m_mmu m) mem4"
        "\<And>x. unat ?al \<le> x \<Longrightarrow> x < unat ?al + (T - (p - 8)) \<Longrightarrow> gm mem4 x = gm mem3 (x + (unat ?sp - unat ?al))"
        "\<And>x. unat ?sp + (T - (p - 8)) \<le> x \<Longrightarrow> OFF + x < 2 ^ 64 \<Longrightarrow> gm mem4 x = gm mem3 x"
      by (rule move_ok [OF w3(2), of ?al ?sp "T - (p - 8)"]) (use al p T H sp in auto)
    have "stack_holds mem4 ?al args"
      by (rule holds) (use m4(4,5) sp al p T H in auto)
    with False run used m4(1-3) w al(1) show ?thesis
      by (intro exI [of _ "set_reg reg_a1 (?al + ARGC_SIZE) (set_reg reg_sp ?al ?m)"] exI [of _ mem4])
        (simp add: started_def get_set_reg ARGC_SIZE_def)
  qed
qed

lemma unat_STACK_SIZE: "STACK_SIZE = of_nat 33554432"
  by (simp add: STACK_SIZE_def)

lemma string_space_rev [simp]: "string_space (rev ss) = string_space ss"
  by (simp add: string_space_def rev_map [symmetric])

lemma setup_ok:
  assumes h: "heap_ok (m_mmu m) mem" "zero_above (m_mmu m) mem" "granting k" and w: "wf_state (m_state m)"
    and argv: "argv = prog # args" "length args \<le> 2 ^ 20"
    and room: "OFF + unat (mmu_brk (m_mmu m)) + 33554432 + string_space args \<le> USER_END"
  shows "\<exists>m' mem'. machine_setup k argv m mem = Inr (m', mem') \<and> started m mem m' mem' args"
proof -
  let ?B = "unat (mmu_brk (m_mmu m))" and ?n = "length args" and ?stack = "mmu_brk (m_mmu m)"
  let ?T = "?B + 33554432"
  from room have r0: "OFF + ?B + 33554432 \<le> USER_END" by simp
  obtain mmu1 mem1 where al: "mmu_alloc k (m_mmu m) (of_nat 33554432) mem = Inr (?stack, mmu1, mem1)" "unat (mmu_brk mmu1) = ?T"
      "mmu_base mmu1 = mmu_base (m_mmu m)" "heap_ok mmu1 mem1" "zero_above mmu1 mem1"
      "\<And>x. ?B \<le> x \<Longrightarrow> x < ?T \<Longrightarrow> gm mem1 x = Some (RW, 0)"
    by (rule alloc_ok [OF h r0]) blast
  have base: "unat (mmu_base (m_mmu m)) \<le> ?B" using h(1) by (simp add: heap_ok_def word_le_nat_alt)
  have T47: "?T < 2 ^ 47" using r0 USER_END_lt by linarith
  then have stk: "unat (?stack + STACK_SIZE) = ?T" unfolding unat_STACK_SIZE by (rule plus_small)
  let ?m1 = "set_reg reg_sp (?stack + STACK_SIZE - 24) (m\<lparr>m_mmu := mmu1\<rparr>)"
  let ?p = "?T - 24 - 8 * ?n"
  have sp1: "unat (get_reg reg_sp ?m1) = ?p + 8 * length (rev args)"
    using w stk argv(2) by (simp add: unat_sub_if_size word_size)
  have "\<exists>m2 mem2. push_args k (rev args) (?m1, mem1) = Inr (m2, mem2) \<and> heap_ok (m_mmu m2) mem2 \<and> unat (get_reg reg_sp m2) = ?p \<and>
       args_at mem2 ?T (unat (mmu_brk (m_mmu m2))) ?p (rev (rev args) @ []) \<and>
       (\<forall>x. ?p + 8 * length (rev args) \<le> x \<longrightarrow> x < unat (mmu_brk (m_mmu ?m1)) \<longrightarrow> gm mem2 x = gm mem1 x) \<and>
       m_state m2 = set_gp reg_sp (get_reg reg_sp m2) (m_state ?m1) \<and> mmu_base (m_mmu m2) = mmu_base (m_mmu ?m1) \<and>
       unat (mmu_brk (m_mmu ?m1)) \<le> unat (mmu_brk (m_mmu m2))"
    by (rule push_args_ok [OF h(3) _ _ _ _ sp1]) (use al(2-5) w room base argv(2) in simp_all)
  then obtain m2 mem2 where push: "push_args k (rev args) (?m1, mem1) = Inr (m2, mem2)" "heap_ok (m_mmu m2) mem2" "unat (get_reg reg_sp m2) = ?p"
       "args_at mem2 ?T (unat (mmu_brk (m_mmu m2))) ?p args" "\<And>x. ?p + 8 * ?n \<le> x \<Longrightarrow> x < ?T \<Longrightarrow> gm mem2 x = gm mem1 x"
       "m_state m2 = set_gp reg_sp (get_reg reg_sp m2) (m_state m)" "mmu_base (m_mmu m2) = mmu_base (m_mmu m)" "?T \<le> unat (mmu_brk (m_mmu m2))"
    using al(2,3) by auto
  have "bytes_at mem2 (?p + 8 * ?n) (replicate 24 0)"
  proof -
    have "gm mem2 (?T - 24 + i) = Some (RW, 0)" if "i < 24" for i
      using al(6) [of "?T - 24 + i"] push(5) [of "?T - 24 + i"] that argv(2) by simp
    then show ?thesis using argv(2) by (simp add: bytes_at_def)
  qed
  with push(2-4,6-8) base w argv(2) stk
  have "\<exists>m' mem'. setup_end (?stack + STACK_SIZE) (of_nat ?n) (m2, mem2) = Inr (m', mem') \<and> started m2 mem2 m' mem' args"
    by (intro setup_end_ok [of _ _ _ ?T ?p]) simp_all
  then obtain m' mem' where fin: "setup_end (?stack + STACK_SIZE) (of_nat ?n) (m2, mem2) = Inr (m', mem')" "started m2 mem2 m' mem' args" by blast
  have "machine_setup k argv m mem = Inr (m', mem')"
  proof -
    have "get_reg reg_sp (set_reg reg_sp (?stack + STACK_SIZE) (m\<lparr>m_mmu := mmu1\<rparr>)) - (AUXV_SIZE + ENVP_SIZE + ARGV_END_SIZE) =
        ?stack + STACK_SIZE - 24" using w by (simp add: AUXV_SIZE_def ENVP_SIZE_def ARGV_END_SIZE_def)
    moreover have "(of_nat (length argv) - 1 :: u64) = of_nat ?n" by (simp add: argv(1))
    moreover have "rev (tl argv) = rev args" by (simp add: argv(1))
    ultimately show ?thesis
      using al(1) [folded unat_STACK_SIZE] push(1) fin(1)
      by (simp only: machine_setup_parts Let_def bindE_Inr prod.case set_reg_again)
  qed
  moreover have "started m mem m' mem' args"
  proof -
    obtain v where v: "m_state m2 = set_gp reg_sp v (m_state m)" using push(6) by blast
    then have "get_reg r m2 = get_reg r m" if "r \<noteq> reg_sp" for r using that w by (simp add: get_reg_def gp_set_gp)
    with fin(2) v show ?thesis by (simp add: started_def Let_def)
  qed
  ultimately show ?thesis by blast
qed

subsection \<open>Properties of the start-up\<close>

text \<open>
  C5. On a well-formed heap with room for it, \<^verbatim>\<open>machine_setup\<close> succeeds and leaves the stack a program starts with: the
  stack pointer is a multiple of 16, at it stands the number of arguments, behind it the pointers to them, each to its
  NUL-terminated string, then three words of zero; \<^verbatim>\<open>a0\<close> is the number and \<^verbatim>\<open>a1\<close> the address of the pointers, and no
  other register changes.
\<close>
theorem setup_stack:
  "heap_ok (m_mmu m) mem \<Longrightarrow> zero_above (m_mmu m) mem \<Longrightarrow> granting k \<Longrightarrow> wf_state (m_state m) \<Longrightarrow> length args \<le> 2 ^ 20 \<Longrightarrow>
   unat GUEST_MEMORY_OFFSET + unat (mmu_brk (m_mmu m)) + unat STACK_SIZE + string_space args \<le> USER_END \<Longrightarrow>
   \<exists>m' mem' sp. machine_setup k (prog # args) m mem = Inr (m', mem') \<and> sp = gp (m_state m') reg_sp \<and> unat sp mod 16 = 0 \<and>
     stack_holds mem' sp args \<and> gp (m_state m') reg_a0 = of_nat (length args) \<and> gp (m_state m') reg_a1 = sp + 8 \<and>
     (\<forall>r. r \<notin> {reg_sp, reg_a0, reg_a1} \<longrightarrow> gp (m_state m') r = gp (m_state m) r) \<and> pc (m_state m') = pc (m_state m) \<and>
     heap_ok (m_mmu m') mem'"
  using setup_ok [of m mem k "prog # args" prog args]
  by (auto simp: started_def Let_def get_reg_def unat_offset STACK_SIZE_def)

definition demo_start :: machine_t where
  "demo_start = \<lparr>m_state = zero_state, m_mmu = demo_mmu, m_cache = new_cache 0\<rparr>"

lemma setup_stack_witness:
  "\<exists>m' mem' sp. machine_setup all_granted [[0x70], [0x61, 0x62], []] demo_start (\<lambda>_. None) = Inr (m', mem') \<and>
     sp = gp (m_state m') 2 \<and> unat sp mod 16 = 0 \<and> stack_holds mem' sp [[0x61, 0x62], []] \<and> gp (m_state m') 10 = 2"
proof -
  have z: "zero_above demo_mmu (\<lambda>_. None)" by (simp add: zero_above_def demo_mmu_def TO_HOST_def GUEST_MEMORY_OFFSET_def)
  have w: "wf_state zero_state" unfolding wf_state_def by (simp add: zero_state_def)
  have s: "m_mmu demo_start = demo_mmu" "m_state demo_start = zero_state" by (simp_all add: demo_start_def)
  have r: "unat GUEST_MEMORY_OFFSET + unat (mmu_brk demo_mmu) + unat STACK_SIZE + string_space [[0x61, 0x62], []] \<le> USER_END"
    by (simp add: GUEST_MEMORY_OFFSET_def demo_mmu_def STACK_SIZE_def string_space_def USER_END_def)
  have "granting all_granted" by (simp add: granting_def all_granted_def)
  from setup_stack [of demo_start, unfolded s, OF demo_mmu_ok z this w _ r, of "[0x70]"] show ?thesis by auto
qed

end
